theory Spec2Isabelle
  imports Complex_Main "HOL-Library.Monad_Syntax"
begin

section \<open>The curling physics engine (js/physics.js, js/stone.js)\<close>

text \<open>
  A shallow embedding of \<^verbatim>\<open>PhysicsEngine\<close> and \<^verbatim>\<open>CurlingStone\<close>.

  JavaScript numbers are modelled as mathematical reals: a finite double is read as the
  real it denotes and the arithmetic is exact. \<^verbatim>\<open>NaN\<close> and the infinities have no
  counterpart, so a division is only faithful where the divisor is not zero; the one
  division of the engine whose divisor is not guarded by the code is the one of the
  friction formula, and the statements that depend on its value assume a positive
  low-speed epsilon. A property that the source only tests with \<^verbatim>\<open>== null\<close>,
  \<^verbatim>\<open>??\<close> or \<^verbatim>\<open>!\<close> before it uses it is of an option type, and \<open>None\<close> is
  \<^verbatim>\<open>undefined\<close> or \<^verbatim>\<open>null\<close>. The stone radius and the two hog lines also enter
  sums and comparisons as they are, where \<^verbatim>\<open>null\<close> counts as \<open>0\<close> and
  \<^verbatim>\<open>undefined\<close> as \<^verbatim>\<open>NaN\<close>: they are of the type \<open>optnum\<close>, which keeps the two
  apart. The object held by \<^verbatim>\<open>this\<close> is split in
  two records: the values the constructor fixes (\<open>config\<close>) and the mutable state
  (\<open>engine\<close>). Callbacks are notifications: a call is recorded in the event log of the
  engine, and only when the handler is registered. \<^verbatim>\<open>performance.now()\<close> reads a
  clock that is a function of the number of readings taken so far.
\<close>

subsection \<open>Constants\<close>

definition SPEED_EPSILON :: real where "SPEED_EPSILON = 0.01"
definition TWO_PI :: real where "TWO_PI = pi * 2"
definition FOOT_IN_METERS :: real where "FOOT_IN_METERS = 0.3048"
definition DEFAULT_FRICTION_BASELINE :: real where "DEFAULT_FRICTION_BASELINE = 0.0164"
definition DEFAULT_FRICTION_SPEED_FACTOR :: real where "DEFAULT_FRICTION_SPEED_FACTOR = 0.1732"
definition DEFAULT_FRICTION_LOW_SPEED_EPS :: real where "DEFAULT_FRICTION_LOW_SPEED_EPS = 1.0"
definition DEFAULT_CURL_MIN_SPEED :: real where "DEFAULT_CURL_MIN_SPEED = 0.15"
definition DEFAULT_CURL_ROTATION_REFERENCE :: real where "DEFAULT_CURL_ROTATION_REFERENCE = 6.0"
definition DEFAULT_CURL_ASYMMETRY :: real where "DEFAULT_CURL_ASYMMETRY = 0.008"
definition DEFAULT_CURL_VELOCITY_BIAS :: real where "DEFAULT_CURL_VELOCITY_BIAS = 0.5"
definition DEFAULT_CURL_MIN_OMEGA :: real where "DEFAULT_CURL_MIN_OMEGA = 0.05"
definition GRAVITY :: real where "GRAVITY = 9.81"
definition DEFAULT_COLLISION_RESTITUTION :: real where "DEFAULT_COLLISION_RESTITUTION = 0.9"
definition DEFAULT_COLLISION_SPIN_TRANSFER :: real where "DEFAULT_COLLISION_SPIN_TRANSFER = 0.3"
definition DEFAULT_COLLISION_SPIN_DAMPING :: real where "DEFAULT_COLLISION_SPIN_DAMPING = 0.001"
definition DEFAULT_COLLISION_TANGENTIAL_LOSS :: real where "DEFAULT_COLLISION_TANGENTIAL_LOSS = 0.1"
definition COLLISION_EPSILON :: real where "COLLISION_EPSILON = 0.0001"
definition DEFAULT_PATH_SAMPLE_INTERVAL :: real where "DEFAULT_PATH_SAMPLE_INTERVAL = 1.0"
definition MAX_PATH_SAMPLE_POINTS :: nat where "MAX_PATH_SAMPLE_POINTS = 240"

subsection \<open>Numeric primitives\<close>

definition hypot :: "real \<Rightarrow> real \<Rightarrow> real" where
  \<comment> \<open>\<^verbatim>\<open>Math.hypot(a, b)\<close>\<close>
  "hypot a b = sqrt (a * a + b * b)"

definition js_rem :: "real \<Rightarrow> real \<Rightarrow> real" where
  \<comment> \<open>the remainder operator \<^verbatim>\<open>a % b\<close>: the quotient is truncated towards zero\<close>
  "js_rem a b =
     a - b * of_int (if 0 \<le> a / b then \<lfloor>a / b\<rfloor> else \<lceil>a / b\<rceil>)"

text \<open>
  A numeric property that may be absent. \<^verbatim>\<open>v ?? d\<close> is \<open>coalesce v d\<close>. In a sum or a
  comparison the property is converted to a number, which is \<open>0\<close> for \<^verbatim>\<open>null\<close> and
  \<^verbatim>\<open>NaN\<close> for \<^verbatim>\<open>undefined\<close>; \<open>toNumber\<close> is that conversion, with \<open>None\<close> for
  \<^verbatim>\<open>NaN\<close>, with which every comparison is false.
\<close>

datatype optnum = Undefined | Null | Number real

fun coalesce :: "optnum \<Rightarrow> real \<Rightarrow> real" where
  "coalesce (Number r) d = r"
| "coalesce Null d = d"
| "coalesce Undefined d = d"

fun toNumber :: "optnum \<Rightarrow> real option" where
  "toNumber (Number r) = Some r"
| "toNumber Null = Some 0"
| "toNumber Undefined = None"

subsection \<open>Data model\<close>

datatype StoneColor = RED | YELLOW

record point =
  px :: real
  py :: real

record velocity2 =
  vx :: real
  vy :: real

record hog_timing =
  nearCrossedAt :: "real option"
  farCrossedAt :: "real option"

record stone =
  position :: point
  velocity :: velocity2
  rotationRate :: real
  angle :: real
  color :: StoneColor
  hasStoppedNotified :: bool
  pathSamples :: "point list"
  pathSampleTimer :: real
  number :: int
  isLaunched :: bool
  isOut :: bool
  pendingRotationRate :: real
  rotationActivated :: bool
  hogTiming :: hog_timing

record sheet_extents =
  xMin :: real
  xMax :: real
  yMin :: real
  yMax :: real

text \<open>The callbacks of the engine, as the notifications they deliver.\<close>

datatype event =
    StoneReleased real
  | StoneStopped StoneColor int
  | HogNearCross
  | HogSplit real

text \<open>
  The fields of \<^verbatim>\<open>this\<close> that only the constructor writes. A callback field says
  whether a handler is registered.
\<close>

record config =
  frictionBaseline :: real
  frictionSpeedFactor :: real
  frictionLowSpeedEps :: real
  curlMinSpeed :: real
  curlRotationReference :: real
  curlAsymmetry :: real
  curlVelocityBias :: real
  curlMinOmega :: real
  collisionRestitution :: real
  collisionSpinTransfer :: real
  collisionSpinDamping :: real
  collisionTangentialLoss :: real
  pathSampleInterval :: real
  maxPathSamples :: nat
  launchY :: real
  stoneRadius :: optnum
  hogLineNear :: optnum
  hogLineFar :: optnum
  sheetExtents :: "sheet_extents option"
  backLineY :: "real option"
  onStoneStopped :: bool
  onHogSplit :: bool
  onHogNearCross :: bool
  onStoneReleased :: bool

text \<open>
  The mutable fields of \<^verbatim>\<open>this\<close>. \<^verbatim>\<open>stoneInventory\<close> maps a key to the stone
  object that \<^verbatim>\<open>stones\<close> holds too: the model keeps the index of that object in
  \<open>stones\<close>, so that a change made through one is seen through the other.
\<close>

record engine =
  cfg :: config
  stones :: "stone list"
  stoneInventory :: "StoneColor \<times> int \<rightharpoonup> nat"
  outTrayLayouts :: "StoneColor \<rightharpoonup> point list"
  outTrayIndices :: "StoneColor \<rightharpoonup> nat"
  isActive :: bool
  lastTimestamp :: "real option"
  events :: "event list"
  clock :: "nat \<Rightarrow> real"
  clockReads :: nat

definition performance_now :: "engine \<Rightarrow> real \<times> engine" where
  "performance_now e = (clock e (clockReads e), e\<lparr>clockReads := Suc (clockReads e)\<rparr>)"

definition notify :: "bool \<Rightarrow> event \<Rightarrow> engine \<Rightarrow> engine" where
  \<comment> \<open>\<^verbatim>\<open>if (this.onX) { this.onX(...) }\<close>\<close>
  "notify registered ev e = (if registered then e\<lparr>events := events e @ [ev]\<rparr> else e)"

subsection \<open>Path sampler\<close>

definition resetStonePath :: "stone \<Rightarrow> bool \<Rightarrow> stone" where
  "resetStonePath s includeCurrentPosition =
     s\<lparr>pathSamples := (if includeCurrentPosition
                          then [\<lparr>px = px (position s), py = py (position s)\<rparr>] else []),
       pathSampleTimer := 0\<rparr>"

definition trimPathSamples :: "config \<Rightarrow> stone \<Rightarrow> stone" where
  \<comment> \<open>\<^verbatim>\<open>splice(0, excess)\<close> removes the first \<open>excess\<close> points\<close>
  "trimPathSamples c s =
     (if maxPathSamples c = 0 then s
      else let excess = int (length (pathSamples s)) - int (maxPathSamples c)
           in if excess > 0 then s\<lparr>pathSamples := drop (nat excess) (pathSamples s)\<rparr> else s)"

definition appendTerminalPathPoint :: "config \<Rightarrow> stone \<Rightarrow> stone" where
  "appendTerminalPathPoint c s =
     (if pathSamples s = [] then resetStonePath s True
      else let lst = last (pathSamples s);
               currentX = px (position s);
               currentY = py (position s)
           in if px lst \<noteq> currentX \<or> py lst \<noteq> currentY
              then trimPathSamples c
                     (s\<lparr>pathSamples := pathSamples s @ [\<lparr>px = currentX, py = currentY\<rparr>]\<rparr>)
              else s)"

text \<open>
  The \<^verbatim>\<open>while\<close> loop of \<^verbatim>\<open>recordStonePathSample\<close>. It does not end when the
  interval is not positive, so its result is optional: \<open>None\<close> is a loop that runs
  forever.
\<close>

partial_function (option) samplePathLoop :: "config \<Rightarrow> stone \<Rightarrow> stone option" where
  "samplePathLoop c s =
     (if pathSampleTimer s \<ge> pathSampleInterval c
      then samplePathLoop c
             (trimPathSamples c
                (s\<lparr>pathSamples :=
                     pathSamples s @ [\<lparr>px = px (position s), py = py (position s)\<rparr>],
                   pathSampleTimer := pathSampleTimer s - pathSampleInterval c\<rparr>))
      else Some s)"

definition recordStonePathSample :: "config \<Rightarrow> stone \<Rightarrow> real \<Rightarrow> real \<Rightarrow> stone option" where
  "recordStonePathSample c s deltaSeconds displacement =
     (let moving = displacement > 0 \<and> deltaSeconds > 0
      in if moving
         then samplePathLoop c (s\<lparr>pathSampleTimer := pathSampleTimer s + deltaSeconds\<rparr>)
         else Some (appendTerminalPathPoint c s))"

subsection \<open>Curl model\<close>

definition computeCurlHeadingDelta ::
  "config \<Rightarrow> stone \<Rightarrow> real \<Rightarrow> real \<Rightarrow> real option \<Rightarrow> real" where
  \<comment> \<open>\<open>deltaSeconds\<close> is optional as in the source (\<^verbatim>\<open>deltaSeconds ?? ...\<close>)\<close>
  "computeCurlHeadingDelta c s speed displacement deltaSeconds =
     (let rotRate = rotationRate s;
          spinDirection = sgn rotRate;
          minOmega = curlMinOmega c
      in if spinDirection = 0 \<or> \<bar>rotRate\<bar> < minOmega then 0
         else
           let direction = - spinDirection;
               effectiveSpeed = max speed (curlMinSpeed c)
           in if effectiveSpeed \<le> SPEED_EPSILON then 0
              else
                let rotationRef = max (curlRotationReference c) SPEED_EPSILON;
                    rotationFactor = min (\<bar>rotRate\<bar> / rotationRef) 1
                in if rotationFactor \<le> 0 then 0
                   else
                     let asymmetry = curlAsymmetry c;
                         velocityBias = max (curlVelocityBias c) 0;
                         velocityScaling = 1 / (effectiveSpeed + velocityBias);
                         lateralAcceleration =
                           GRAVITY * asymmetry * direction * rotationFactor * velocityScaling;
                         approxTimeStep =
                           (case deltaSeconds of
                              Some d \<Rightarrow> d
                            | None \<Rightarrow>
                                (if displacement > 0
                                 then displacement / max effectiveSpeed SPEED_EPSILON else 0))
                     in if approxTimeStep \<le> 0 then 0
                        else
                          let headingDelta = (lateralAcceleration / effectiveSpeed) * approxTimeStep;
                              MAX_DELTA = 0.35
                          in max (- MAX_DELTA) (min MAX_DELTA headingDelta))"

subsection \<open>Boundary monitor\<close>

definition isOutBeforeFarHog :: "config \<Rightarrow> stone \<Rightarrow> bool" where
  "isOutBeforeFarHog c s =
     (case hogLineFar c of
        Number far \<Rightarrow> py (position s) < far
      | Null \<Rightarrow> False
      | Undefined \<Rightarrow> False)"

definition isOutOfBounds :: "config \<Rightarrow> stone \<Rightarrow> bool" where
  \<comment> \<open>with a radius that is \<^verbatim>\<open>undefined\<close> the bounds are \<^verbatim>\<open>NaN\<close> and every
      comparison is false\<close>
  "isOutOfBounds c s =
     (case sheetExtents c of
        None \<Rightarrow> False
      | Some ext \<Rightarrow>
          (case toNumber (stoneRadius c) of
             None \<Rightarrow> False
           | Some r \<Rightarrow>
               let leftBound = xMin ext + r;
                   rightBound = xMax ext - r
               in if px (position s) \<le> leftBound \<or> px (position s) \<ge> rightBound then True
                  else (case backLineY c of
                          None \<Rightarrow> False
                        | Some back \<Rightarrow> py (position s) - r \<ge> back)))"

definition placeStoneInOutTray :: "stone \<Rightarrow> engine \<Rightarrow> stone \<times> engine" where
  "placeStoneInOutTray s e =
     (case outTrayLayouts e (color s) of
        None \<Rightarrow> (s, e)
      | Some slots \<Rightarrow>
          if length slots = 0 then (s, e)
          else
            let currentIndex = (case outTrayIndices e (color s) of None \<Rightarrow> 0 | Some i \<Rightarrow> i);
                slot = slots ! (min currentIndex (length slots - 1))
            in (s\<lparr>position := slot\<rparr>,
                e\<lparr>outTrayIndices :=
                    (outTrayIndices e)(color s \<mapsto> min (currentIndex + 1) (length slots - 1))\<rparr>))"

definition handleStoneOut :: "stone \<Rightarrow> engine \<Rightarrow> stone \<times> engine" where
  "handleStoneOut s e =
     (let s1 = s\<lparr>velocity := \<lparr>vx = 0, vy = 0\<rparr>,
                 pendingRotationRate := 0,
                 rotationRate := 0,
                 rotationActivated := True,
                 angle := 0,
                 isLaunched := False,
                 isOut := True,
                 hasStoppedNotified := True\<rparr>;
          (s2, e1) = placeStoneInOutTray s1 e
      in (s2, notify (onStoneStopped (cfg e1)) (StoneStopped (color s2) (number s2)) e1))"

subsection \<open>Release and hog-line monitor\<close>

definition crossesLine :: "real \<Rightarrow> real \<Rightarrow> real \<Rightarrow> bool" where
  \<comment> \<open>the test both monitors write out:
      \<^verbatim>\<open>(previousY < line && y >= line) || (previousY > line && y <= line)\<close>\<close>
  "crossesLine previousY currentY line =
     ((previousY < line \<and> currentY \<ge> line) \<or> (previousY > line \<and> currentY \<le> line))"

definition checkRotationActivation :: "stone \<Rightarrow> real \<Rightarrow> real \<Rightarrow> stone" where
  "checkRotationActivation s previousY activationY =
     (if rotationActivated s \<or> pendingRotationRate s = 0 then s
      else
        let currentY = py (position s);
            crossed = crossesLine previousY currentY activationY
        in if crossed \<or> currentY = activationY
           then s\<lparr>rotationRate := pendingRotationRate s,
                  pendingRotationRate := 0,
                  rotationActivated := True\<rparr>
           else s)"

definition attachTiming :: "stone \<Rightarrow> stone" where
  "attachTiming s = s\<lparr>hogTiming := \<lparr>nearCrossedAt = None, farCrossedAt = None\<rparr>\<rparr>"

definition crossesHog :: "real \<Rightarrow> real \<Rightarrow> optnum \<Rightarrow> bool" where
  \<comment> \<open>the test against a hog line as the field holds it: a line that is \<^verbatim>\<open>null\<close> is
      compared as \<open>0\<close>, and every comparison with one that is \<^verbatim>\<open>undefined\<close> is false\<close>
  "crossesHog previousY currentY line =
     (case toNumber line of None \<Rightarrow> False | Some h \<Rightarrow> crossesLine previousY currentY h)"

definition checkHogNear :: "stone \<Rightarrow> real \<Rightarrow> engine \<Rightarrow> stone \<times> engine" where
  \<comment> \<open>the first \<^verbatim>\<open>if\<close> of \<^verbatim>\<open>checkHogLineCrossings\<close>\<close>
  "checkHogNear s previousY e =
     (if nearCrossedAt (hogTiming s) = None
         \<and> crossesHog previousY (py (position s)) (hogLineNear (cfg e))
      then
        let (t, e1) = performance_now e
        in (s\<lparr>hogTiming := (hogTiming s)\<lparr>nearCrossedAt := Some t\<rparr>\<rparr>,
            notify (onHogNearCross (cfg e1)) HogNearCross e1)
      else (s, e))"

definition checkHogFar :: "stone \<Rightarrow> real \<Rightarrow> engine \<Rightarrow> stone \<times> engine" where
  \<comment> \<open>the second \<^verbatim>\<open>if\<close> of \<^verbatim>\<open>checkHogLineCrossings\<close>\<close>
  "checkHogFar s previousY e =
     (case nearCrossedAt (hogTiming s) of
        None \<Rightarrow> (s, e)
      | Some nearAt \<Rightarrow>
          if farCrossedAt (hogTiming s) = None
             \<and> crossesHog previousY (py (position s)) (hogLineFar (cfg e))
          then
            let (t, e1) = performance_now e;
                durationMs = t - nearAt
            in (s\<lparr>hogTiming := (hogTiming s)\<lparr>farCrossedAt := Some t\<rparr>\<rparr>,
                notify (onHogSplit (cfg e1)) (HogSplit durationMs) e1)
          else (s, e))"

definition checkHogLineCrossings :: "stone \<Rightarrow> real \<Rightarrow> engine \<Rightarrow> stone \<times> engine" where
  \<comment> \<open>every stone of the engine has its \<^verbatim>\<open>hogTiming\<close> attached\<close>
  "checkHogLineCrossings s previousY e =
     (let (s1, e1) = checkHogNear s previousY e in checkHogFar s1 previousY e1)"

subsection \<open>Motion integrator: the body of the loop of \<^verbatim>\<open>step\<close>\<close>

definition advanceAngle :: "stone \<Rightarrow> real \<Rightarrow> stone" where
  "advanceAngle s deltaSeconds =
     (let a0 = angle s + rotationRate s * deltaSeconds;
          a1 = (if a0 \<ge> TWO_PI \<or> a0 \<le> - TWO_PI then js_rem a0 TWO_PI else a0);
          a2 = (if a1 < 0 then a1 + TWO_PI else a1)
      in s\<lparr>angle := a2\<rparr>)"

definition frictionAt :: "config \<Rightarrow> real \<Rightarrow> real" where
  \<comment> \<open>the value of the source where \<open>speed + frictionLowSpeedEps\<close> is not zero; at zero the
      source divides by zero and its friction is not a finite number\<close>
  "frictionAt c speed =
     frictionBaseline c + frictionSpeedFactor c / (speed + frictionLowSpeedEps c)"

definition decayRotation :: "real \<Rightarrow> real \<Rightarrow> real \<Rightarrow> real \<Rightarrow> real" where
  \<comment> \<open>the value assigned to \<^verbatim>\<open>stone.rotationRate\<close> when \<^verbatim>\<open>rotationRate !== 0\<close>\<close>
  "decayRotation rotRate speed friction deltaSeconds =
     (let angularSpeed = \<bar>rotRate\<bar>;
          rotationFrictionMultiplier = (if speed \<le> SPEED_EPSILON then 1.4 else 0.7);
          reducedAngularSpeed =
            max 0 (angularSpeed - rotationFrictionMultiplier * friction * deltaSeconds)
      in if reducedAngularSpeed = 0 then 0 else sgn rotRate * reducedAngularSpeed)"

definition spinDecay :: "config \<Rightarrow> stone \<Rightarrow> real \<Rightarrow> stone" where
  \<comment> \<open>lines 213 to 235: the angle, then the decay of the spin\<close>
  "spinDecay c s deltaSeconds =
     (let rotRate = rotationRate s;
          s1 = advanceAngle s deltaSeconds;
          speed = hypot (vx (velocity s1)) (vy (velocity s1));
          friction = frictionAt c speed
      in if rotRate \<noteq> 0
         then s1\<lparr>rotationRate := decayRotation rotRate speed friction deltaSeconds\<rparr>
         else s1)"

definition settleStone :: "stone \<Rightarrow> engine \<Rightarrow> stone \<times> engine" where
  \<comment> \<open>the block under \<^verbatim>\<open>if (!rotationActive)\<close>, which the loop writes out twice\<close>
  "settleStone s e =
     (if isOutBeforeFarHog (cfg e) s then handleStoneOut s e
      else if \<not> hasStoppedNotified s \<and> onStoneStopped (cfg e)
           then (s\<lparr>hasStoppedNotified := True\<rparr>,
                 e\<lparr>events := events e @ [StoneStopped (color s) (number s)]\<rparr>)
           else (s, e))"

definition glide :: "config \<Rightarrow> real \<Rightarrow> stone \<Rightarrow> stone \<times> real \<times> velocity2" where
  \<comment> \<open>lines 260 to 286 without the path sample: the stone at its new position, the
      displacement and the velocity assigned after the sample is taken\<close>
  "glide c deltaSeconds s2 =
     (let speed = hypot (vx (velocity s2)) (vy (velocity s2));
          friction = frictionAt c speed;
          s3 = s2\<lparr>hasStoppedNotified := False\<rparr>;
          dirX = vx (velocity s3) / speed;
          dirY = vy (velocity s3) / speed;
          speedReduction = friction * deltaSeconds;
          newSpeed = max 0 (speed - speedReduction);
          avgSpeed = (speed + newSpeed) * 0.5;
          displacement = avgSpeed * deltaSeconds;
          headingDelta = computeCurlHeadingDelta c s3 speed displacement (Some deltaSeconds);
          dirX' = (if headingDelta \<noteq> 0
                   then dirX * cos headingDelta - dirY * sin headingDelta else dirX);
          dirY' = (if headingDelta \<noteq> 0
                   then dirX * sin headingDelta + dirY * cos headingDelta else dirY)
      in (s3\<lparr>position := \<lparr>px = px (position s3) + dirX' * displacement,
                            py = py (position s3) + dirY' * displacement\<rparr>\<rparr>,
          displacement,
          \<lparr>vx = dirX' * newSpeed, vy = dirY' * newSpeed\<rparr>))"

definition stepStone ::
  "real \<Rightarrow> real \<Rightarrow> stone \<Rightarrow> engine \<times> bool \<Rightarrow> (stone \<times> engine \<times> bool) option" where
  \<comment> \<open>one pass of the loop; the boolean is \<^verbatim>\<open>anyMoving\<close>\<close>
  "stepStone deltaSeconds activationY s0 st =
     (let (e, anyMoving) = st; c = cfg e
      in if \<not> isLaunched s0 then Some (s0, e, anyMoving)
         else
           let s2 = spinDecay c s0 deltaSeconds;
               speed = hypot (vx (velocity s2)) (vy (velocity s2));
               rotationActive = \<bar>rotationRate s2\<bar> > SPEED_EPSILON
           in if speed \<le> SPEED_EPSILON
              then do {
                s4 \<leftarrow> recordStonePathSample c (s2\<lparr>velocity := \<lparr>vx = 0, vy = 0\<rparr>\<rparr>) deltaSeconds 0;
                if \<not> rotationActive
                then (let (s5, e1) = settleStone s4 e in Some (s5, e1, anyMoving))
                else Some (s4\<lparr>hasStoppedNotified := False\<rparr>, e, True)
              }
              else
                let previousY = py (position s2);
                    (s4, displacement, newVelocity) = glide c deltaSeconds s2
                in do {
                  s5 \<leftarrow> recordStonePathSample c s4 deltaSeconds displacement;
                  let s6 = s5\<lparr>velocity := newVelocity\<rparr>;
                  if isOutOfBounds c s6
                  then (let (s7, e1) = handleStoneOut s6 e in Some (s7, e1, anyMoving))
                  else
                    let s7 = checkRotationActivation s6 previousY activationY;
                        (s8, e1) = checkHogLineCrossings s7 previousY e
                    in if hypot (vx (velocity s8)) (vy (velocity s8)) > SPEED_EPSILON
                       then Some (s8, e1, True)
                       else
                         let s9 = s8\<lparr>velocity := \<lparr>vx = 0, vy = 0\<rparr>\<rparr>
                         in if \<not> rotationActive
                            then (let (s10, e2) = settleStone s9 e1 in Some (s10, e2, anyMoving))
                            else Some (s9, e1, True)
                })"

fun stepStones ::
  "real \<Rightarrow> real \<Rightarrow> stone list \<Rightarrow> engine \<times> bool \<Rightarrow> (stone list \<times> engine \<times> bool) option" where
  "stepStones deltaSeconds actY [] st = Some ([], fst st, snd st)"
| "stepStones deltaSeconds actY (s # ss) st =
     do {
       (s', e1, moving1) \<leftarrow> stepStone deltaSeconds actY s st;
       (ss', e2, moving2) \<leftarrow> stepStones deltaSeconds actY ss (e1, moving1);
       Some (s' # ss', e2, moving2)
     }"

subsection \<open>Collision resolver\<close>

definition rewindStone :: "stone \<Rightarrow> real \<Rightarrow> stone" where
  "rewindStone s time =
     (if time \<le> 0 then s
      else s\<lparr>position := \<lparr>px = px (position s) - vx (velocity s) * time,
                            py = py (position s) - vy (velocity s) * time\<rparr>\<rparr>)"

definition advanceStone :: "stone \<Rightarrow> real \<Rightarrow> stone" where
  "advanceStone s time =
     (if time \<le> 0 then s
      else s\<lparr>position := \<lparr>px = px (position s) + vx (velocity s) * time,
                            py = py (position s) + vy (velocity s) * time\<rparr>\<rparr>)"

text \<open>
  The local variables of the body of the inner loop that live across its blocks:
  the two stones, \<^verbatim>\<open>dx\<close>, \<^verbatim>\<open>dy\<close>, the normal, \<^verbatim>\<open>relVelAlongNormal\<close> and
  \<^verbatim>\<open>rewindTime\<close>.
\<close>

record contact =
  stoneA :: stone
  stoneB :: stone
  sepX :: real
  sepY :: real
  normalX :: real
  normalY :: real
  relVelAlongNormal :: real
  rewindTime :: real

definition initialContact :: "real \<Rightarrow> stone \<Rightarrow> stone \<Rightarrow> contact option" where
  \<comment> \<open>lines 562 to 578; \<open>None\<close> is the \<^verbatim>\<open>continue\<close> of a pair out of range\<close>
  "initialContact minDistance a b =
     (let dx = px (position b) - px (position a);
          dy = py (position b) - py (position a);
          distance = hypot dx dy
      in if distance \<ge> minDistance \<and> distance > 0 then None
         else
           let nX = (if distance > COLLISION_EPSILON then dx / distance else 1);
               nY = (if distance > COLLISION_EPSILON then dy / distance else 0);
               relVelXInitial = vx (velocity a) - vx (velocity b);
               relVelYInitial = vy (velocity a) - vy (velocity b)
           in Some \<lparr>stoneA = a, stoneB = b, sepX = dx, sepY = dy,
                     normalX = nX, normalY = nY,
                     relVelAlongNormal = relVelXInitial * nX + relVelYInitial * nY,
                     rewindTime = 0\<rparr>)"

definition rewindContact :: "real \<Rightarrow> real \<Rightarrow> contact \<Rightarrow> contact" where
  \<comment> \<open>lines 579 to 605\<close>
  "rewindContact minDistance deltaSeconds k =
     (let overlapInitial = max 0 (minDistance - hypot (sepX k) (sepY k))
      in if overlapInitial > COLLISION_EPSILON
            \<and> relVelAlongNormal k < - SPEED_EPSILON
            \<and> deltaSeconds \<noteq> 0
            \<and> deltaSeconds > SPEED_EPSILON
         then
           let penetrationSpeed = - relVelAlongNormal k;
               maxRewind = deltaSeconds;
               rt = min (overlapInitial / (penetrationSpeed + 0.000001)) maxRewind
           in if rt > 0
              then
                let a = rewindStone (stoneA k) rt;
                    b = rewindStone (stoneB k) rt;
                    dx = px (position b) - px (position a);
                    dy = py (position b) - py (position a);
                    distance = hypot dx dy;
                    nX = (if distance > COLLISION_EPSILON then dx / distance else normalX k);
                    nY = (if distance > COLLISION_EPSILON then dy / distance else normalY k)
                in \<lparr>stoneA = a, stoneB = b, sepX = dx, sepY = dy, normalX = nX, normalY = nY,
                    relVelAlongNormal =
                      (vx (velocity a) - vx (velocity b)) * nX
                      + (vy (velocity a) - vy (velocity b)) * nY,
                    rewindTime = rt\<rparr>
              else k\<lparr>rewindTime := rt\<rparr>
         else k)"

definition separateContact :: "real \<Rightarrow> contact \<Rightarrow> contact" where
  \<comment> \<open>lines 607 to 615: the positional correction when nothing was rewound\<close>
  "separateContact minDistance k =
     (let distance = hypot (sepX k) (sepY k);
          overlapAfterRewind = max 0 (minDistance - distance)
      in if rewindTime k = 0 \<and> overlapAfterRewind > COLLISION_EPSILON
         then
           let correction = overlapAfterRewind * 0.5;
               a = stoneA k; b = stoneB k
           in k\<lparr>stoneA := a\<lparr>position := \<lparr>px = px (position a) - normalX k * correction,
                                            py = py (position a) - normalY k * correction\<rparr>\<rparr>,
                stoneB := b\<lparr>position := \<lparr>px = px (position b) + normalX k * correction,
                                            py = py (position b) + normalY k * correction\<rparr>\<rparr>\<rparr>
         else k)"

definition normalImpulse :: "real \<Rightarrow> real \<Rightarrow> contact \<Rightarrow> contact" where
  \<comment> \<open>lines 621 to 627\<close>
  "normalImpulse restitution rvn k =
     (if rvn > SPEED_EPSILON
      then
        let impulse = (1 + restitution) * rvn * 0.5;
            a = stoneA k; b = stoneB k
        in k\<lparr>stoneA := a\<lparr>velocity := \<lparr>vx = vx (velocity a) - impulse * normalX k,
                                         vy = vy (velocity a) - impulse * normalY k\<rparr>\<rparr>,
             stoneB := b\<lparr>velocity := \<lparr>vx = vx (velocity b) + impulse * normalX k,
                                         vy = vy (velocity b) + impulse * normalY k\<rparr>\<rparr>\<rparr>
      else k)"

definition tangentialImpulse :: "real \<Rightarrow> real \<Rightarrow> contact \<Rightarrow> contact" where
  \<comment> \<open>lines 629 to 638\<close>
  "tangentialImpulse tangentialLoss relVelTangential k =
     (let tangentX = - normalY k;
          tangentY = normalX k
      in if \<bar>relVelTangential\<bar> > SPEED_EPSILON \<and> tangentialLoss > 0
         then
           let tImpulse = relVelTangential * tangentialLoss * 0.5;
               a = stoneA k; b = stoneB k
           in k\<lparr>stoneA := a\<lparr>velocity := \<lparr>vx = vx (velocity a) - tImpulse * tangentX,
                                            vy = vy (velocity a) - tImpulse * tangentY\<rparr>\<rparr>,
                stoneB := b\<lparr>velocity := \<lparr>vx = vx (velocity b) + tImpulse * tangentX,
                                            vy = vy (velocity b) + tImpulse * tangentY\<rparr>\<rparr>\<rparr>
         else k)"

definition transferSpin :: "real \<Rightarrow> real \<Rightarrow> real \<Rightarrow> real \<Rightarrow> contact \<Rightarrow> contact" where
  \<comment> \<open>lines 640 to 655\<close>
  "transferSpin radius spinTransfer spinDamping relVelTangential k =
     (let a = stoneA k; b = stoneB k;
          rotationA = rotationRate a;
          rotationB = rotationRate b;
          spinSurfaceVelocity = (rotationA - rotationB) * radius;
          combinedTangential = relVelTangential + spinSurfaceVelocity
      in if \<bar>combinedTangential\<bar> > SPEED_EPSILON \<and> spinTransfer > 0
         then
           let angularDelta = (combinedTangential / radius) * spinTransfer * 0.5;
               damp = (if spinDamping > 0 then 1 - spinDamping else 1)
           in k\<lparr>stoneA := a\<lparr>rotationRate := (rotationA - angularDelta) * damp,
                               rotationActivated := True\<rparr>,
                stoneB := b\<lparr>rotationRate := (rotationB + angularDelta) * damp,
                               rotationActivated := True\<rparr>\<rparr>
         else k)"

definition wakeIfSpinning :: "stone \<Rightarrow> stone" where
  \<comment> \<open>lines 657 to 662, for one stone\<close>
  "wakeIfSpinning s = (if \<bar>rotationRate s\<bar> > 0 then s\<lparr>hasStoppedNotified := False\<rparr> else s)"

definition applyImpulses :: "real \<Rightarrow> real \<Rightarrow> real \<Rightarrow> real \<Rightarrow> real \<Rightarrow> contact \<Rightarrow> contact" where
  \<comment> \<open>lines 617 to 662: normal impulse, tangential loss, spin transfer, stopped latch;
      both impulses use the relative velocity read before either is applied\<close>
  "applyImpulses radius restitution spinTransfer spinDamping tangentialLoss k =
     (let a = stoneA k; b = stoneB k;
          relVelX = vx (velocity a) - vx (velocity b);
          relVelY = vy (velocity a) - vy (velocity b);
          rvn = relVelX * normalX k + relVelY * normalY k;
          relVelTangential = relVelX * (- normalY k) + relVelY * normalX k;
          k1 = normalImpulse restitution rvn (k\<lparr>relVelAlongNormal := rvn\<rparr>);
          k2 = tangentialImpulse tangentialLoss relVelTangential k1;
          k3 = transferSpin radius spinTransfer spinDamping relVelTangential k2
      in k3\<lparr>stoneA := wakeIfSpinning (stoneA k3), stoneB := wakeIfSpinning (stoneB k3)\<rparr>)"

definition advanceContact :: "contact \<Rightarrow> contact" where
  \<comment> \<open>lines 664 to 667\<close>
  "advanceContact k =
     (if rewindTime k > 0
      then k\<lparr>stoneA := advanceStone (stoneA k) (rewindTime k),
             stoneB := advanceStone (stoneB k) (rewindTime k)\<rparr>
      else k)"

definition resolvePair :: "config \<Rightarrow> real \<Rightarrow> real \<Rightarrow> stone \<Rightarrow> stone \<Rightarrow> (stone \<times> stone) option" where
  \<comment> \<open>the body of the inner loop for two launched stones that are not out\<close>
  "resolvePair c radius deltaSeconds a b =
     (let minDistance = radius * 2;
          restitution = max 0 (min (collisionRestitution c) 1);
          spinTransfer = max 0 (collisionSpinTransfer c);
          spinDamping = max 0 (min (collisionSpinDamping c) 0.95);
          tangentialLoss = max 0 (min (collisionTangentialLoss c) 0.95)
      in case initialContact minDistance a b of
           None \<Rightarrow> None
         | Some k0 \<Rightarrow>
             let k1 = rewindContact minDistance deltaSeconds k0;
                 k2 = separateContact minDistance k1;
                 k3 = applyImpulses radius restitution spinTransfer spinDamping tangentialLoss k2;
                 k4 = advanceContact k3
             in Some (stoneA k4, stoneB k4))"

definition collideAt ::
  "config \<Rightarrow> real \<Rightarrow> real \<Rightarrow> nat \<Rightarrow> nat \<Rightarrow> stone list \<times> bool \<Rightarrow> stone list \<times> bool" where
  \<comment> \<open>one pass of the inner loop, at \<open>j\<close>; the boolean is \<^verbatim>\<open>generatedMotion\<close>\<close>
  "collideAt c radius deltaSeconds i j st =
     (let (ss, generatedMotion) = st; b = ss ! j
      in if \<not> isLaunched b \<or> isOut b then st
         else (case resolvePair c radius deltaSeconds (ss ! i) b of
                 None \<Rightarrow> st
               | Some (a', b') \<Rightarrow> (ss[i := a', j := b'], True)))"

definition collideRow ::
  "config \<Rightarrow> real \<Rightarrow> real \<Rightarrow> nat \<Rightarrow> stone list \<times> bool \<Rightarrow> stone list \<times> bool" where
  \<comment> \<open>one pass of the outer loop, at \<open>i\<close>\<close>
  "collideRow c radius deltaSeconds i st =
     (let a = fst st ! i
      in if \<not> isLaunched a \<or> isOut a then st
         else fold (collideAt c radius deltaSeconds i) [i + 1 ..< length (fst st)] st)"

definition resolveCollisions :: "config \<Rightarrow> real \<Rightarrow> stone list \<Rightarrow> stone list \<times> bool" where
  "resolveCollisions c deltaSeconds ss =
     (let radius = coalesce (stoneRadius c) 0.145
      in if radius = 0 then (ss, False)
         else fold (collideRow c radius deltaSeconds) [0 ..< length ss] (ss, False))"

subsection \<open>Orchestrator\<close>

definition rotationActivationY :: "config \<Rightarrow> real" where
  \<comment> \<open>line 206: \<^verbatim>\<open>(this.hogLineNear ?? 0) - FOOT_IN_METERS * 2\<close>\<close>
  "rotationActivationY c =
     coalesce (hogLineNear c) 0 - FOOT_IN_METERS * 2"

definition step :: "real \<Rightarrow> engine \<Rightarrow> engine option" where
  "step deltaSeconds e =
     (let activationY = rotationActivationY (cfg e)
      in do {
        (ss, e1, anyMoving) \<leftarrow> stepStones deltaSeconds activationY (stones e) (e, False);
        let (ss', collided) = resolveCollisions (cfg e1) deltaSeconds ss;
        let e2 = e1\<lparr>stones := ss'\<rparr>;
        Some (if \<not> (anyMoving \<or> collided)
              then e2\<lparr>isActive := False, lastTimestamp := None\<rparr> else e2)
      })"

definition update :: "real \<Rightarrow> engine \<Rightarrow> engine option" where
  "update timestamp e =
     (if \<not> isActive e then Some (e\<lparr>lastTimestamp := Some timestamp\<rparr>)
      else (case lastTimestamp e of
              None \<Rightarrow> Some (e\<lparr>lastTimestamp := Some timestamp\<rparr>)
            | Some previous \<Rightarrow>
                step ((timestamp - previous) / 1000) (e\<lparr>lastTimestamp := Some timestamp\<rparr>)))"

subsection \<open>Construction and the public operations\<close>

text \<open>
  The object a caller passes to the constructor. A property that is left out is \<open>None\<close>.
  The last two are properties a caller may write into that object although the
  parameter pattern of the constructor does not name them.
\<close>

record engine_args =
  argFrictionBaseline :: "real option"
  argFrictionSpeedFactor :: "real option"
  argFrictionLowSpeedEps :: "real option"
  argCurlMinSpeed :: "real option"
  argCurlRotationReference :: "real option"
  argCurlAsymmetry :: "real option"
  argCurlVelocityBias :: "real option"
  argCurlMinOmega :: "real option"
  argCollisionRestitution :: "real option"
  argCollisionSpinTransfer :: "real option"
  argCollisionSpinDamping :: "real option"
  argCollisionTangentialLoss :: "real option"
  argLaunchY :: real
  argStoneRadius :: optnum
  argHogLineNear :: optnum
  argHogLineFar :: optnum
  argSheetExtents :: "sheet_extents option"
  argBackLineY :: "real option"
  argOnStoneStopped :: bool
  argOnHogSplit :: bool
  argOnHogNearCross :: bool
  argOnStoneReleased :: bool
  argPathSampleInterval :: "real option"
  argMaxPathSamples :: "nat option"

definition orDefault :: "'a option \<Rightarrow> 'a \<Rightarrow> 'a" where
  \<comment> \<open>a default value of a parameter: \<^verbatim>\<open>name = DEFAULT\<close>\<close>
  "orDefault v d = (case v of None \<Rightarrow> d | Some w \<Rightarrow> w)"

definition newPhysicsEngine :: "engine_args \<Rightarrow> (nat \<Rightarrow> real) \<Rightarrow> engine" where
  \<comment> \<open>the constructor; the second argument is the clock of the page\<close>
  "newPhysicsEngine a clk =
     \<lparr>cfg =
        \<lparr>frictionBaseline = orDefault (argFrictionBaseline a) DEFAULT_FRICTION_BASELINE,
         frictionSpeedFactor = orDefault (argFrictionSpeedFactor a) DEFAULT_FRICTION_SPEED_FACTOR,
         frictionLowSpeedEps = orDefault (argFrictionLowSpeedEps a) DEFAULT_FRICTION_LOW_SPEED_EPS,
         curlMinSpeed = orDefault (argCurlMinSpeed a) DEFAULT_CURL_MIN_SPEED,
         curlRotationReference =
           orDefault (argCurlRotationReference a) DEFAULT_CURL_ROTATION_REFERENCE,
         curlAsymmetry = orDefault (argCurlAsymmetry a) DEFAULT_CURL_ASYMMETRY,
         curlVelocityBias = orDefault (argCurlVelocityBias a) DEFAULT_CURL_VELOCITY_BIAS,
         curlMinOmega = orDefault (argCurlMinOmega a) DEFAULT_CURL_MIN_OMEGA,
         collisionRestitution =
           orDefault (argCollisionRestitution a) DEFAULT_COLLISION_RESTITUTION,
         collisionSpinTransfer =
           orDefault (argCollisionSpinTransfer a) DEFAULT_COLLISION_SPIN_TRANSFER,
         collisionSpinDamping =
           orDefault (argCollisionSpinDamping a) DEFAULT_COLLISION_SPIN_DAMPING,
         collisionTangentialLoss =
           orDefault (argCollisionTangentialLoss a) DEFAULT_COLLISION_TANGENTIAL_LOSS,
         pathSampleInterval = DEFAULT_PATH_SAMPLE_INTERVAL,
         maxPathSamples = MAX_PATH_SAMPLE_POINTS,
         launchY = argLaunchY a,
         stoneRadius = argStoneRadius a,
         hogLineNear = argHogLineNear a,
         hogLineFar = argHogLineFar a,
         sheetExtents = argSheetExtents a,
         backLineY = argBackLineY a,
         onStoneStopped = argOnStoneStopped a,
         onHogSplit = argOnHogSplit a,
         onHogNearCross = argOnHogNearCross a,
         onStoneReleased = argOnStoneReleased a\<rparr>,
      stones = [],
      stoneInventory = Map.empty,
      outTrayLayouts = Map.empty,
      outTrayIndices = Map.empty,
      isActive = False,
      lastTimestamp = None,
      events = [],
      clock = clk,
      clockReads = 0\<rparr>"

record stone_config =
  configPosition :: "point option"
  configColor :: "StoneColor option"
  configNumber :: "int option"

definition newStone :: "stone_config \<Rightarrow> stone" where
  \<comment> \<open>\<^verbatim>\<open>new CurlingStone({...})\<close> and the assignments that follow it in
      \<^verbatim>\<open>initializeStones\<close>\<close>
  "newStone conf =
     (let made = \<lparr>position = orDefault (configPosition conf) \<lparr>px = 0, py = 0\<rparr>,
                  velocity = \<lparr>vx = 0, vy = 0\<rparr>,
                  rotationRate = 0,
                  angle = 0,
                  color = orDefault (configColor conf) RED,
                  hasStoppedNotified = True,
                  pathSamples = [orDefault (configPosition conf) \<lparr>px = 0, py = 0\<rparr>],
                  pathSampleTimer = 0,
                  number = orDefault (configNumber conf) 0,
                  isLaunched = False,
                  isOut = False,
                  pendingRotationRate = 0,
                  rotationActivated = False,
                  hogTiming = \<lparr>nearCrossedAt = None, farCrossedAt = None\<rparr>\<rparr>
      in attachTiming (resetStonePath made True))"

definition makeStoneKey :: "StoneColor \<Rightarrow> int \<Rightarrow> StoneColor \<times> int" where
  "makeStoneKey col num = (col, num)"

definition registerStone :: "stone_config \<Rightarrow> engine \<Rightarrow> engine" where
  \<comment> \<open>one pass of the loop of \<^verbatim>\<open>initializeStones\<close>\<close>
  "registerStone conf e =
     (let s = newStone conf;
          key = makeStoneKey (color s) (number s)
      in e\<lparr>stoneInventory := (stoneInventory e)(key \<mapsto> length (stones e)),
           stones := stones e @ [s]\<rparr>)"

definition initializeStones :: "stone_config list \<Rightarrow> engine \<Rightarrow> engine" where
  "initializeStones stoneConfigs e =
     fold registerStone stoneConfigs
       (e\<lparr>stoneInventory := Map.empty, stones := [], isActive := False, lastTimestamp := None\<rparr>)"

definition setOutTrayLayouts :: "(StoneColor \<rightharpoonup> point list) \<Rightarrow> engine \<Rightarrow> engine" where
  "setOutTrayLayouts layoutMap e =
     e\<lparr>outTrayLayouts := layoutMap,
       outTrayIndices := (\<lambda>col. map_option (\<lambda>slots. 0) (layoutMap col))\<rparr>"

definition resetOutTrayIndices :: "engine \<Rightarrow> engine" where
  "resetOutTrayIndices e =
     e\<lparr>outTrayIndices := (\<lambda>col. map_option (\<lambda>i. 0) (outTrayIndices e col))\<rparr>"

definition getStones :: "engine \<Rightarrow> stone list" where
  "getStones e = stones e"

definition isRunning :: "engine \<Rightarrow> bool" where
  "isRunning e = isActive e"

definition findStone :: "engine \<Rightarrow> StoneColor \<Rightarrow> int \<Rightarrow> nat option" where
  \<comment> \<open>the stone found is \<open>stones e ! i\<close> for the index \<open>i\<close> returned\<close>
  "findStone e col num = stoneInventory e (makeStoneKey col num)"

datatype reason = VelocityRequired | ColorAndNumberRequired | NotRegistered | AlreadyThrown

datatype error = InvalidArgument reason

record throw_args =
  throwColor :: "StoneColor option"
  throwNumber :: "int option"
  throwVelocity :: "velocity2 option"
  rotationRadiansPerSecond :: "real option"
  angleRadians :: "real option"
  offsetX :: "real option"

definition launch :: "throw_args \<Rightarrow> velocity2 \<Rightarrow> real \<Rightarrow> stone \<Rightarrow> stone" where
  \<comment> \<open>lines 160 to 170: the assignments to the stone\<close>
  "launch a v launchLine s =
     (let rotation = orDefault (rotationRadiansPerSecond a) 0;
          s1 = s\<lparr>position := \<lparr>px = orDefault (offsetX a) 0, py = launchLine\<rparr>,
                 velocity := \<lparr>vx = vx v, vy = vy v\<rparr>,
                 pendingRotationRate := rotation,
                 rotationRate := 0,
                 rotationActivated := (rotation = 0),
                 angle := orDefault (angleRadians a) 0,
                 isLaunched := True,
                 isOut := False,
                 hasStoppedNotified := False\<rparr>
      in attachTiming (resetStonePath s1 True))"

definition throwStone :: "throw_args \<Rightarrow> engine \<Rightarrow> (error + stone) \<times> engine" where
  \<comment> \<open>the result and the engine after the call; \<open>Inl\<close> is the error thrown\<close>
  "throwStone a e =
     (case throwVelocity a of
        None \<Rightarrow> (Inl (InvalidArgument VelocityRequired), e)
      | Some v \<Rightarrow>
          (case (throwColor a, throwNumber a) of
             (Some col, Some num) \<Rightarrow>
               (case findStone e col num of
                  None \<Rightarrow> (Inl (InvalidArgument NotRegistered), e)
                | Some i \<Rightarrow>
                    if isLaunched (stones e ! i) then (Inl (InvalidArgument AlreadyThrown), e)
                    else
                      let s = launch a v (launchY (cfg e)) (stones e ! i);
                          e1 = e\<lparr>stones := (stones e)[i := s]\<rparr>;
                          e2 = (if onStoneReleased (cfg e1)
                                then (let (t, e') = performance_now e1
                                      in e'\<lparr>events := events e' @ [StoneReleased t]\<rparr>)
                                else e1)
                      in (Inr s, e2\<lparr>isActive := True, lastTimestamp := None\<rparr>))
           | _ \<Rightarrow> (Inl (InvalidArgument ColorAndNumberRequired), e)))"

text \<open>The operation surface, and a run of it.\<close>

datatype operation =
    InitializeStones "stone_config list"
  | SetOutTrayLayouts "StoneColor \<rightharpoonup> point list"
  | ThrowStone throw_args
  | Update real
  | GetStones
  | IsRunning
  | ResetOutTrayIndices

datatype outcome = Returned engine | Threw error engine

fun exec :: "operation \<Rightarrow> engine \<Rightarrow> outcome option" where
  \<comment> \<open>\<open>None\<close>: the call does not return; the accessors leave the engine as it is\<close>
  "exec (InitializeStones configs) e = Some (Returned (initializeStones configs e))"
| "exec (SetOutTrayLayouts layoutMap) e = Some (Returned (setOutTrayLayouts layoutMap e))"
| "exec (ThrowStone a) e =
     (case throwStone a e of
        (Inl err, e') \<Rightarrow> Some (Threw err e')
      | (Inr s, e') \<Rightarrow> Some (Returned e'))"
| "exec (Update timestamp) e = map_option Returned (update timestamp e)"
| "exec GetStones e = Some (Returned e)"
| "exec IsRunning e = Some (Returned e)"
| "exec ResetOutTrayIndices e = Some (Returned (resetOutTrayIndices e))"

definition after :: "outcome \<Rightarrow> engine" where
  "after r = (case r of Returned e \<Rightarrow> e | Threw err e \<Rightarrow> e)"

inductive reachable :: "engine \<Rightarrow> bool" where
  constructed: "reachable (newPhysicsEngine a clk)"
| operated: "reachable e \<Longrightarrow> exec opn e = Some r \<Longrightarrow> reachable (after r)"

subsection \<open>The engine of the game (js/main.js)\<close>

definition gameArgs :: engine_args where
  \<comment> \<open>\<^verbatim>\<open>new PhysicsEngine({launchY: LAUNCH_START_Y, stoneRadius: STONE_RADIUS, ...})\<close>,
      with the values of the constants of js/main.js\<close>
  "gameArgs =
     \<lparr>argFrictionBaseline = None, argFrictionSpeedFactor = None, argFrictionLowSpeedEps = None,
      argCurlMinSpeed = None, argCurlRotationReference = None, argCurlAsymmetry = None,
      argCurlVelocityBias = None, argCurlMinOmega = None, argCollisionRestitution = None,
      argCollisionSpinTransfer = None, argCollisionSpinDamping = None,
      argCollisionTangentialLoss = None,
      argLaunchY = - 38.10715,
      argStoneRadius = Number 0.14605,
      argHogLineNear = Number (- 28.3464),
      argHogLineFar = Number (- 6.4008),
      argSheetExtents = Some \<lparr>xMin = - 2.3749, xMax = 2.3749, yMin = - 40.2336, yMax = 5.4864\<rparr>,
      argBackLineY = Some 1.8288,
      argOnStoneStopped = True, argOnHogSplit = False, argOnHogNearCross = False,
      argOnStoneReleased = False,
      argPathSampleInterval = None, argMaxPathSamples = None\<rparr>"

subsection \<open>Auxiliary notions for the statements\<close>

definition sameButPath :: "stone \<Rightarrow> stone \<Rightarrow> bool" where
  \<comment> \<open>two states of a stone that differ in the path trace at most\<close>
  "sameButPath s s' \<longleftrightarrow>
     position s' = position s \<and> velocity s' = velocity s \<and> rotationRate s' = rotationRate s
     \<and> angle s' = angle s \<and> color s' = color s \<and> hasStoppedNotified s' = hasStoppedNotified s
     \<and> number s' = number s \<and> isLaunched s' = isLaunched s \<and> isOut s' = isOut s
     \<and> pendingRotationRate s' = pendingRotationRate s
     \<and> rotationActivated s' = rotationActivated s \<and> hogTiming s' = hogTiming s"

definition sameButMotion :: "stone \<Rightarrow> stone \<Rightarrow> bool" where
  \<comment> \<open>what a collision leaves of a stone: all but its position, velocity, spin and the
      stopped latch; the activation latch may be set, never cleared\<close>
  "sameButMotion s s' \<longleftrightarrow>
     angle s' = angle s \<and> color s' = color s \<and> number s' = number s
     \<and> isLaunched s' = isLaunched s \<and> isOut s' = isOut s
     \<and> pendingRotationRate s' = pendingRotationRate s
     \<and> (rotationActivated s \<longrightarrow> rotationActivated s')
     \<and> hogTiming s' = hogTiming s
     \<and> pathSamples s' = pathSamples s \<and> pathSampleTimer s' = pathSampleTimer s"


text \<open>An engine and a throw to evaluate the statements on.\<close>

definition demoClock :: "nat \<Rightarrow> real" where
  \<comment> \<open>a clock that advances 16 ms with every reading\<close>
  "demoClock n = 16 * real n"

definition demoArgs :: engine_args where
  \<comment> \<open>the arguments of the game, with a handler for every callback\<close>
  "demoArgs =
     gameArgs\<lparr>argOnHogSplit := True, argOnHogNearCross := True, argOnStoneReleased := True\<rparr>"


definition demoEngine :: engine where
  \<comment> \<open>an engine with one stone of each team registered\<close>
  "demoEngine =
     initializeStones
       [\<lparr>configPosition = Some \<lparr>px = - 2, py = - 40\<rparr>, configColor = Some RED,
         configNumber = Some 1\<rparr>,
        \<lparr>configPosition = Some \<lparr>px = 2, py = - 40\<rparr>, configColor = Some YELLOW,
         configNumber = Some 1\<rparr>]
       (newPhysicsEngine demoArgs demoClock)"

definition demoThrow :: throw_args where
  "demoThrow =
     \<lparr>throwColor = Some RED, throwNumber = Some 1,
      throwVelocity = Some \<lparr>vx = 0, vy = 2\<rparr>,
      rotationRadiansPerSecond = Some 1.5, angleRadians = None, offsetX = None\<rparr>"


definition spinningStone :: stone where
  \<comment> \<open>the first stone of the engine above, in play, at rest and spinning at 1 rad/s\<close>
  "spinningStone =
     (hd (stones demoEngine))\<lparr>isLaunched := True, rotationActivated := True, rotationRate := 1\<rparr>"

definition stoneAt :: "real \<Rightarrow> real \<Rightarrow> real \<Rightarrow> real \<Rightarrow> stone" where
  \<comment> \<open>the first stone of the engine above, in play at a given position and velocity\<close>
  "stoneAt x0 y0 vx0 vy0 =
     (hd (stones demoEngine))\<lparr>isLaunched := True, position := \<lparr>px = x0, py = y0\<rparr>,
                               velocity := \<lparr>vx = vx0, vy = vy0\<rparr>\<rparr>"

definition slidingStone :: "real \<Rightarrow> stone" where
  \<comment> \<open>a thrown stone on the centre line at a given y, sliding up the sheet at 2 m/s, with
      a spin of 1.5 rad/s pending\<close>
  "slidingStone y0 =
     (stoneAt 0 y0 0 2)\<lparr>pendingRotationRate := 1.5, hasStoppedNotified := False,
                          pathSamples := [\<lparr>px = 0, py = y0\<rparr>]\<rparr>"

definition latched :: "stone \<Rightarrow> stone \<Rightarrow> bool" where
  \<comment> \<open>the latches of a throw: the activation flag stays set and a recorded hog-line
      timestamp stays as it is\<close>
  "latched s s' \<longleftrightarrow>
     (rotationActivated s \<longrightarrow> rotationActivated s')
     \<and> (nearCrossedAt (hogTiming s) \<noteq> None \<longrightarrow>
          nearCrossedAt (hogTiming s') = nearCrossedAt (hogTiming s))
     \<and> (farCrossedAt (hogTiming s) \<noteq> None \<longrightarrow>
          farCrossedAt (hogTiming s') = farCrossedAt (hogTiming s))"

definition spinningEngine :: engine where
  \<comment> \<open>the engine above with its first stone in play and spinning\<close>
  "spinningEngine = demoEngine\<lparr>stones := (stones demoEngine)[0 := spinningStone]\<rparr>"

text \<open>What the event log and two states of the stones say of the hog-line timings.\<close>

definition nearCrossings :: "engine \<Rightarrow> nat" where
  \<comment> \<open>the number of near-cross notifications in the log\<close>
  "nearCrossings e = length (filter (\<lambda>v. v = HogNearCross) (events e))"

fun splitOf :: "event \<Rightarrow> real list" where
  "splitOf (HogSplit durationMs) = [durationMs]"
| "splitOf (StoneReleased t) = []"
| "splitOf (StoneStopped c n) = []"
| "splitOf HogNearCross = []"

definition hogSplits :: "engine \<Rightarrow> real list" where
  \<comment> \<open>the durations of the split notifications in the log, in their order\<close>
  "hogSplits e = concat (map splitOf (events e))"

definition newNear :: "stone \<Rightarrow> stone \<Rightarrow> bool" where
  \<comment> \<open>the later state has a near timestamp that the earlier one has not\<close>
  "newNear s s' \<longleftrightarrow>
     nearCrossedAt (hogTiming s) = None \<and> nearCrossedAt (hogTiming s') \<noteq> None"

definition newFar :: "stone \<Rightarrow> stone \<Rightarrow> bool" where
  "newFar s s' \<longleftrightarrow>
     farCrossedAt (hogTiming s) = None \<and> farCrossedAt (hogTiming s') \<noteq> None"

definition splitTime :: "stone \<Rightarrow> real" where
  \<comment> \<open>the time between the two timestamps of a stone that has both\<close>
  "splitTime s = the (farCrossedAt (hogTiming s)) - the (nearCrossedAt (hogTiming s))"

definition nearFirings :: "stone list \<Rightarrow> stone list \<Rightarrow> nat" where
  \<comment> \<open>the number of stones that gained a near timestamp\<close>
  "nearFirings ss ss' = length (filter (\<lambda>(s, s'). newNear s s') (zip ss ss'))"

definition splitFirings :: "stone list \<Rightarrow> stone list \<Rightarrow> real list" where
  \<comment> \<open>the split times of the stones that gained a far timestamp, in the order of the stones\<close>
  "splitFirings ss ss' =
     concat (map (\<lambda>(s, s'). if newFar s s' then [splitTime s'] else []) (zip ss ss'))"

definition crossedStone :: "real \<Rightarrow> real \<Rightarrow> stone" where
  \<comment> \<open>the sliding stone with its crossing of the near hog line recorded at a given time\<close>
  "crossedStone y0 t =
     (slidingStone y0)\<lparr>hogTiming := \<lparr>nearCrossedAt = Some t, farCrossedAt = None\<rparr>\<rparr>"

definition sheetWith :: "stone \<Rightarrow> nat \<Rightarrow> engine" where
  \<comment> \<open>the engine above with a given stone in the place of its first one, after a number of
      readings of the clock\<close>
  "sheetWith s n = demoEngine\<lparr>stones := (stones demoEngine)[0 := s], clockReads := n\<rparr>"

text \<open>
  The stones the collision resolver finds in contact. The functions below run the two loops of
  \<^const>\<open>resolveCollisions\<close> and keep, beside the state of the loops, the indices of every
  pair that \<^const>\<open>resolvePair\<close> resolved.
\<close>

definition snapped :: "stone \<Rightarrow> bool" where
  \<comment> \<open>at rest, or faster than the speed epsilon\<close>
  "snapped s \<longleftrightarrow>
     velocity s = \<lparr>vx = 0, vy = 0\<rparr> \<or> SPEED_EPSILON < hypot (vx (velocity s)) (vy (velocity s))"

definition hitAt :: "config \<Rightarrow> real \<Rightarrow> real \<Rightarrow> nat \<Rightarrow> nat \<Rightarrow> stone list \<Rightarrow> nat list" where
  \<comment> \<open>the two indices, when the inner loop at \<open>j\<close> finds the pair in contact\<close>
  "hitAt c radius deltaSeconds i j ss =
     (let b = ss ! j
      in if \<not> isLaunched b \<or> isOut b then []
         else (case resolvePair c radius deltaSeconds (ss ! i) b of
                 None \<Rightarrow> []
               | Some p \<Rightarrow> [i, j]))"

definition collideAtT ::
  "config \<Rightarrow> real \<Rightarrow> real \<Rightarrow> nat \<Rightarrow> nat \<Rightarrow> (stone list \<times> bool) \<times> nat list
     \<Rightarrow> (stone list \<times> bool) \<times> nat list" where
  "collideAtT c radius deltaSeconds i j w =
     (collideAt c radius deltaSeconds i j (fst w),
      snd w @ hitAt c radius deltaSeconds i j (fst (fst w)))"

definition collideRowT ::
  "config \<Rightarrow> real \<Rightarrow> real \<Rightarrow> nat \<Rightarrow> (stone list \<times> bool) \<times> nat list
     \<Rightarrow> (stone list \<times> bool) \<times> nat list" where
  "collideRowT c radius deltaSeconds i w =
     (let a = fst (fst w) ! i
      in if \<not> isLaunched a \<or> isOut a then w
         else fold (collideAtT c radius deltaSeconds i) [i + 1 ..< length (fst (fst w))] w)"

definition touchedBy :: "config \<Rightarrow> real \<Rightarrow> stone list \<Rightarrow> nat list" where
  \<comment> \<open>the indices of the stones that \<^const>\<open>resolveCollisions\<close> finds in contact\<close>
  "touchedBy c deltaSeconds ss =
     (let radius = coalesce (stoneRadius c) 0.145
      in if radius = 0 then []
         else snd (fold (collideRowT c radius deltaSeconds) [0 ..< length ss] ((ss, False), [])))"

definition touched :: "real \<Rightarrow> engine \<Rightarrow> nat list" where
  \<comment> \<open>the indices of the stones that the resolver finds in contact in a \<^const>\<open>step\<close>\<close>
  "touched deltaSeconds e =
     (case stepStones deltaSeconds (rotationActivationY (cfg e)) (stones e) (e, False) of
        None \<Rightarrow> []
      | Some (ss, e1, anyMoving) \<Rightarrow> touchedBy (cfg e1) deltaSeconds ss)"

definition kept :: "stone list \<Rightarrow> (stone list \<times> bool) \<times> nat list \<Rightarrow> bool" where
  \<comment> \<open>a state of these loops in which every stone not yet in a resolved pair is as it was\<close>
  "kept ss0 w \<longleftrightarrow>
     length (fst (fst w)) = length ss0
     \<and> (\<forall>k < length ss0. k \<notin> set (snd w) \<longrightarrow> fst (fst w) ! k = ss0 ! k)"

definition slowSpinner :: stone where
  \<comment> \<open>the spinning stone above with a spin of 0.011 rad/s\<close>
  "slowSpinner = spinningStone\<lparr>rotationRate := 0.011\<rparr>"

definition driftingStone :: "real \<Rightarrow> stone" where
  \<comment> \<open>a thrown stone near the right side wall at a given y, sliding at 1 m/s towards the
      wall and up the sheet, with a spin of 1.5 rad/s pending\<close>
  "driftingStone y0 =
     (stoneAt 2.22 y0 0.6 0.8)\<lparr>pendingRotationRate := 1.5, hasStoppedNotified := False,
                                pathSamples := [\<lparr>px = 2.22, py = y0\<rparr>]\<rparr>"

section \<open>Properties\<close>

subsection \<open>Path sampler\<close>

lemma trim_eq:
  "trimPathSamples c s =
     s\<lparr>pathSamples := (if maxPathSamples c = 0 then pathSamples s
                         else drop (length (pathSamples s) - maxPathSamples c) (pathSamples s))\<rparr>"
  by (simp add: trimPathSamples_def Let_def nat_diff_distrib')

lemma trim_length: "0 < maxPathSamples c \<Longrightarrow> length (pathSamples (trimPathSamples c s)) \<le> maxPathSamples c"
  by (simp add: trim_eq)

lemma trim_evict:
  "length xs = maxPathSamples c \<Longrightarrow> 0 < maxPathSamples c \<Longrightarrow>
   pathSamples (trimPathSamples c (s\<lparr>pathSamples := xs @ [p]\<rparr>)) = tl xs @ [p]"
  by (cases xs) (auto simp: trim_eq)

lemma sameButPath_refl: "sameButPath s s"
  by (simp add: sameButPath_def)

lemma sameButPath_trans: "sameButPath s s' \<Longrightarrow> sameButPath s' s'' \<Longrightarrow> sameButPath s s''"
  by (simp add: sameButPath_def)

lemma sameButPath_trim: "sameButPath s (trimPathSamples c s)"
  by (simp add: sameButPath_def trim_eq)

lemma loop_shape:
  assumes "samplePathLoop c s = Some s'"
  shows "sameButPath s s' \<and>
       (0 < maxPathSamples c \<longrightarrow> length (pathSamples s') \<le> max (length (pathSamples s)) (maxPathSamples c))"
proof (rule samplePathLoop.raw_induct[where P = "\<lambda>c s s'. sameButPath s s' \<and>
       (0 < maxPathSamples c \<longrightarrow> length (pathSamples s') \<le> max (length (pathSamples s)) (maxPathSamples c))", OF _ assms])
  fix f c s y
  assume IH: "\<And>c s y. f c s = Some y \<Longrightarrow> sameButPath s y \<and>
       (0 < maxPathSamples c \<longrightarrow> length (pathSamples y) \<le> max (length (pathSamples s)) (maxPathSamples c))"
    and eq: "(if pathSampleInterval c \<le> pathSampleTimer s
      then f c (trimPathSamples c
                (s\<lparr>pathSamples :=
                     pathSamples s @ [\<lparr>px = px (position s), py = py (position s)\<rparr>],
                   pathSampleTimer := pathSampleTimer s - pathSampleInterval c\<rparr>))
      else Some s) = Some y"
  show "sameButPath s y \<and>
       (0 < maxPathSamples c \<longrightarrow> length (pathSamples y) \<le> max (length (pathSamples s)) (maxPathSamples c))"
  proof (cases "pathSampleTimer s \<ge> pathSampleInterval c")
    case False
    with eq have "y = s" by simp
    then show ?thesis by (simp add: sameButPath_refl)
  next
    case True
    define s1 where "s1 = s\<lparr>pathSamples := pathSamples s @ [\<lparr>px = px (position s), py = py (position s)\<rparr>],
                   pathSampleTimer := pathSampleTimer s - pathSampleInterval c\<rparr>"
    from True eq have "f c (trimPathSamples c s1) = Some y" by (simp add: s1_def)
    from IH[OF this] have y: "sameButPath (trimPathSamples c s1) y"
      and b: "0 < maxPathSamples c \<longrightarrow> length (pathSamples y) \<le> max (length (pathSamples (trimPathSamples c s1))) (maxPathSamples c)"
      by blast+
    have "sameButPath s s1" unfolding s1_def by (simp add: sameButPath_def)
    then have "sameButPath s y" using sameButPath_trim[of s1 c] y by (blast intro: sameButPath_trans)
    moreover have "0 < maxPathSamples c \<longrightarrow> length (pathSamples y) \<le> maxPathSamples c"
      using b trim_length[of c s1] by auto
    ultimately show ?thesis by auto
  qed
qed

lemma loop_terminates:
  assumes "0 < pathSampleInterval c"
  shows "\<exists>s'. samplePathLoop c s = Some s'"
proof -
  have "\<And>s. nat \<lfloor>pathSampleTimer s / pathSampleInterval c\<rfloor> < n \<Longrightarrow> \<exists>s'. samplePathLoop c s = Some s'" for n
  proof (induction n)
    case 0 then show ?case by simp
  next
    case (Suc n)
    show ?case
    proof (cases "pathSampleTimer s \<ge> pathSampleInterval c")
      case False
      then show ?thesis by (subst samplePathLoop.simps) simp
    next
      case True
      define s1 where "s1 = s\<lparr>pathSamples := pathSamples s @ [\<lparr>px = px (position s), py = py (position s)\<rparr>],
                   pathSampleTimer := pathSampleTimer s - pathSampleInterval c\<rparr>"
      have t: "pathSampleTimer (trimPathSamples c s1) = pathSampleTimer s - pathSampleInterval c"
        by (simp add: trim_eq s1_def)
      have "(pathSampleTimer s - pathSampleInterval c) / pathSampleInterval c = pathSampleTimer s / pathSampleInterval c - 1"
        using assms by (simp add: field_simps)
      then have fl: "\<lfloor>(pathSampleTimer s - pathSampleInterval c) / pathSampleInterval c\<rfloor> = \<lfloor>pathSampleTimer s / pathSampleInterval c\<rfloor> - 1"
        by simp
      have "1 \<le> pathSampleTimer s / pathSampleInterval c" using True assms by (simp add: field_simps)
      then have "1 \<le> \<lfloor>pathSampleTimer s / pathSampleInterval c\<rfloor>" by linarith
      with fl Suc.prems have "nat \<lfloor>pathSampleTimer (trimPathSamples c s1) / pathSampleInterval c\<rfloor> < n"
        unfolding t by linarith
      from Suc.IH[OF this] obtain s' where "samplePathLoop c (trimPathSamples c s1) = Some s'" by blast
      then show ?thesis using True by (subst samplePathLoop.simps) (simp add: s1_def)
    qed
  qed
  then show ?thesis by blast
qed

lemma record_shape:
  assumes "recordStonePathSample c s dt d = Some s'"
  shows "sameButPath s s' \<and>
       (0 < maxPathSamples c \<longrightarrow> length (pathSamples s) \<le> maxPathSamples c \<longrightarrow> length (pathSamples s') \<le> maxPathSamples c)"
proof (cases "d > 0 \<and> dt > 0")
  case True
  with assms have "samplePathLoop c (s\<lparr>pathSampleTimer := pathSampleTimer s + dt\<rparr>) = Some s'"
    by (simp add: recordStonePathSample_def)
  from loop_shape[OF this] show ?thesis by (auto simp: sameButPath_def)
next
  case False
  with assms have s': "s' = appendTerminalPathPoint c s" by (auto simp: recordStonePathSample_def)
  show ?thesis unfolding s'
    by (auto simp: appendTerminalPathPoint_def resetStonePath_def sameButPath_def Let_def trim_eq)
qed

lemma record_terminates:
  "0 < pathSampleInterval c \<Longrightarrow> \<exists>s'. recordStonePathSample c s dt d = Some s'"
  by (simp add: recordStonePathSample_def loop_terminates)


lemma place_frame:
  "placeStoneInOutTray s e = (s', e') \<Longrightarrow>
     cfg e' = cfg e \<and> events e' = events e \<and> clockReads e' = clockReads e \<and> clock e' = clock e
     \<and> velocity s' = velocity s \<and> rotationRate s' = rotationRate s
     \<and> pendingRotationRate s' = pendingRotationRate s \<and> rotationActivated s' = rotationActivated s
     \<and> isLaunched s' = isLaunched s \<and> isOut s' = isOut s \<and> hogTiming s' = hogTiming s
     \<and> pathSamples s' = pathSamples s \<and> color s' = color s \<and> number s' = number s
     \<and> hasStoppedNotified s' = hasStoppedNotified s"
  by (auto simp: placeStoneInOutTray_def Let_def split: option.splits if_splits)

lemma out_frame:
  assumes "handleStoneOut s e = (s', e')"
  shows "cfg e' = cfg e \<and> clockReads e' = clockReads e \<and> clock e' = clock e
     \<and> velocity s' = \<lparr>vx = 0, vy = 0\<rparr> \<and> rotationRate s' = 0
     \<and> pendingRotationRate s' = 0 \<and> rotationActivated s'
     \<and> \<not> isLaunched s' \<and> isOut s' \<and> hogTiming s' = hogTiming s
     \<and> pathSamples s' = pathSamples s \<and> color s' = color s \<and> number s' = number s"
proof -
  define s1 where "s1 = s\<lparr>velocity := \<lparr>vx = 0, vy = 0\<rparr>,
                 pendingRotationRate := 0,
                 rotationRate := 0,
                 rotationActivated := True,
                 angle := 0,
                 isLaunched := False,
                 isOut := True,
                 hasStoppedNotified := True\<rparr>"
  obtain s2 e1 where p: "placeStoneInOutTray s1 e = (s2, e1)" by (cases "placeStoneInOutTray s1 e")
  from assms have "s' = s2 \<and> e' = notify (onStoneStopped (cfg e1)) (StoneStopped (color s2) (number s2)) e1"
    by (auto simp add: handleStoneOut_def Let_def s1_def[symmetric] p)
  with place_frame[OF p] show ?thesis by (simp add: s1_def notify_def)
qed

lemma settle_frame:
  assumes "settleStone s e = (s', e')"
  shows "cfg e' = cfg e \<and> clockReads e' = clockReads e \<and> clock e' = clock e
     \<and> hogTiming s' = hogTiming s \<and> pathSamples s' = pathSamples s \<and> color s' = color s \<and> number s' = number s
     \<and> (isLaunched s' \<longrightarrow> velocity s' = velocity s \<and> rotationRate s' = rotationRate s
           \<and> pendingRotationRate s' = pendingRotationRate s \<and> rotationActivated s' = rotationActivated s \<and> isLaunched s \<and> position s' = position s)
     \<and> (\<not> isLaunched s' \<longrightarrow> isLaunched s \<longrightarrow> velocity s' = \<lparr>vx = 0, vy = 0\<rparr> \<and> rotationRate s' = 0 \<and> pendingRotationRate s' = 0 \<and> rotationActivated s' \<and> isOut s')"
proof (cases "isOutBeforeFarHog (cfg e) s")
  case True
  with assms have "handleStoneOut s e = (s', e')" by (simp add: settleStone_def)
  from out_frame[OF this] show ?thesis by simp
next
  case False
  with assms show ?thesis by (auto simp: settleStone_def split: if_splits)
qed

lemma activation_frame:
  "velocity (checkRotationActivation s p a) = velocity s \<and> position (checkRotationActivation s p a) = position s
   \<and> isLaunched (checkRotationActivation s p a) = isLaunched s \<and> hogTiming (checkRotationActivation s p a) = hogTiming s
   \<and> pathSamples (checkRotationActivation s p a) = pathSamples s \<and> isOut (checkRotationActivation s p a) = isOut s
   \<and> color (checkRotationActivation s p a) = color s \<and> number (checkRotationActivation s p a) = number s
   \<and> hasStoppedNotified (checkRotationActivation s p a) = hasStoppedNotified s"
  by (simp add: checkRotationActivation_def Let_def)

lemma hog_frame:
  assumes "checkHogLineCrossings s p e = (s', e')"
  shows "cfg e' = cfg e \<and> clock e' = clock e \<and> velocity s' = velocity s \<and> position s' = position s
   \<and> isLaunched s' = isLaunched s \<and> isOut s' = isOut s \<and> rotationRate s' = rotationRate s
   \<and> pendingRotationRate s' = pendingRotationRate s \<and> rotationActivated s' = rotationActivated s
   \<and> pathSamples s' = pathSamples s \<and> color s' = color s \<and> number s' = number s
   \<and> hasStoppedNotified s' = hasStoppedNotified s"
  using assms
  by (auto simp: checkHogLineCrossings_def checkHogNear_def checkHogFar_def performance_now_def notify_def Let_def
           split: if_splits option.splits prod.splits)


lemma spinDecay_frame:
  "velocity (spinDecay c s dt) = velocity s \<and> position (spinDecay c s dt) = position s
   \<and> isLaunched (spinDecay c s dt) = isLaunched s \<and> hogTiming (spinDecay c s dt) = hogTiming s
   \<and> pathSamples (spinDecay c s dt) = pathSamples s \<and> isOut (spinDecay c s dt) = isOut s
   \<and> pendingRotationRate (spinDecay c s dt) = pendingRotationRate s
   \<and> rotationActivated (spinDecay c s dt) = rotationActivated s
   \<and> pathSampleTimer (spinDecay c s dt) = pathSampleTimer s"
  by (simp add: spinDecay_def advanceAngle_def Let_def)

lemma glide_frame:
  assumes "glide c dt s = (s4, d, v)"
  shows "velocity s4 = velocity s \<and> isLaunched s4 = isLaunched s \<and> hogTiming s4 = hogTiming s
   \<and> pathSamples s4 = pathSamples s \<and> isOut s4 = isOut s
   \<and> pendingRotationRate s4 = pendingRotationRate s \<and> rotationRate s4 = rotationRate s
   \<and> rotationActivated s4 = rotationActivated s
   \<and> pathSampleTimer s4 = pathSampleTimer s"
  using assms by (auto simp: glide_def Let_def)

lemma stepStone_cases:
  assumes "stepStone dt actY s (e, am) = Some (s', e', am')"
  obtains (idle) "\<not> isLaunched s" "s' = s" "e' = e" "am' = am"
  | (spinning) s4 where "isLaunched s"
      "hypot (vx (velocity s)) (vy (velocity s)) \<le> SPEED_EPSILON"
      "recordStonePathSample (cfg e) (spinDecay (cfg e) s dt\<lparr>velocity := \<lparr>vx = 0, vy = 0\<rparr>\<rparr>) dt 0 = Some s4"
      "\<bar>rotationRate (spinDecay (cfg e) s dt)\<bar> > SPEED_EPSILON"
      "s' = s4\<lparr>hasStoppedNotified := False\<rparr>" "e' = e" "am'"
  | (resting) s4 where "isLaunched s"
      "hypot (vx (velocity s)) (vy (velocity s)) \<le> SPEED_EPSILON"
      "recordStonePathSample (cfg e) (spinDecay (cfg e) s dt\<lparr>velocity := \<lparr>vx = 0, vy = 0\<rparr>\<rparr>) dt 0 = Some s4"
      "\<not> \<bar>rotationRate (spinDecay (cfg e) s dt)\<bar> > SPEED_EPSILON"
      "settleStone s4 e = (s', e')" "am' = am"
  | (left) s4 d v s5 where "isLaunched s"
      "\<not> hypot (vx (velocity s)) (vy (velocity s)) \<le> SPEED_EPSILON"
      "glide (cfg e) dt (spinDecay (cfg e) s dt) = (s4, d, v)"
      "recordStonePathSample (cfg e) s4 dt d = Some s5"
      "isOutOfBounds (cfg e) (s5\<lparr>velocity := v\<rparr>)"
      "handleStoneOut (s5\<lparr>velocity := v\<rparr>) e = (s', e')" "am' = am"
  | (sliding) s4 d v s5 s8 where "isLaunched s"
      "\<not> hypot (vx (velocity s)) (vy (velocity s)) \<le> SPEED_EPSILON"
      "glide (cfg e) dt (spinDecay (cfg e) s dt) = (s4, d, v)"
      "recordStonePathSample (cfg e) s4 dt d = Some s5"
      "\<not> isOutOfBounds (cfg e) (s5\<lparr>velocity := v\<rparr>)"
      "checkHogLineCrossings (checkRotationActivation (s5\<lparr>velocity := v\<rparr>) (py (position s)) actY) (py (position s)) e = (s8, e')"
      "hypot (vx (velocity s8)) (vy (velocity s8)) > SPEED_EPSILON"
      "s' = s8" "am'"
  | (halting) s4 d v s5 s8 e1 where "isLaunched s"
      "\<not> hypot (vx (velocity s)) (vy (velocity s)) \<le> SPEED_EPSILON"
      "glide (cfg e) dt (spinDecay (cfg e) s dt) = (s4, d, v)"
      "recordStonePathSample (cfg e) s4 dt d = Some s5"
      "\<not> isOutOfBounds (cfg e) (s5\<lparr>velocity := v\<rparr>)"
      "checkHogLineCrossings (checkRotationActivation (s5\<lparr>velocity := v\<rparr>) (py (position s)) actY) (py (position s)) e = (s8, e1)"
      "\<not> hypot (vx (velocity s8)) (vy (velocity s8)) > SPEED_EPSILON"
      "\<not> \<bar>rotationRate (spinDecay (cfg e) s dt)\<bar> > SPEED_EPSILON"
      "settleStone (s8\<lparr>velocity := \<lparr>vx = 0, vy = 0\<rparr>\<rparr>) e1 = (s', e')" "am' = am"
  | (pivoting) s4 d v s5 s8 where "isLaunched s"
      "\<not> hypot (vx (velocity s)) (vy (velocity s)) \<le> SPEED_EPSILON"
      "glide (cfg e) dt (spinDecay (cfg e) s dt) = (s4, d, v)"
      "recordStonePathSample (cfg e) s4 dt d = Some s5"
      "\<not> isOutOfBounds (cfg e) (s5\<lparr>velocity := v\<rparr>)"
      "checkHogLineCrossings (checkRotationActivation (s5\<lparr>velocity := v\<rparr>) (py (position s)) actY) (py (position s)) e = (s8, e')"
      "\<not> hypot (vx (velocity s8)) (vy (velocity s8)) > SPEED_EPSILON"
      "\<bar>rotationRate (spinDecay (cfg e) s dt)\<bar> > SPEED_EPSILON"
      "s' = s8\<lparr>velocity := \<lparr>vx = 0, vy = 0\<rparr>\<rparr>" "am'"
proof (cases "isLaunched s")
  case False
  with assms show ?thesis by (intro idle) (simp_all add: stepStone_def)
next
  case launched: True
  note defs = stepStone_def Let_def spinDecay_frame
  show ?thesis
  proof (cases "hypot (vx (velocity s)) (vy (velocity s)) \<le> SPEED_EPSILON")
    case slow: True
    have "recordStonePathSample (cfg e) (spinDecay (cfg e) s dt\<lparr>velocity := \<lparr>vx = 0, vy = 0\<rparr>\<rparr>) dt 0 \<noteq> None"
      using assms launched slow by (auto simp: defs Option.bind_eq_Some_conv)
    then obtain s4 where
      rec: "recordStonePathSample (cfg e) (spinDecay (cfg e) s dt\<lparr>velocity := \<lparr>vx = 0, vy = 0\<rparr>\<rparr>) dt 0 = Some s4"
      by blast
    show ?thesis
    proof (cases "\<bar>rotationRate (spinDecay (cfg e) s dt)\<bar> > SPEED_EPSILON")
      case True
      with assms rec launched slow show ?thesis
        by (intro spinning[of s4]) (auto simp: defs)
    next
      case False
      with assms rec launched slow show ?thesis
        by (intro resting[of s4]) (auto simp: defs split: prod.splits)
    qed
  next
    case fast: False
    obtain s4 d v where g: "glide (cfg e) dt (spinDecay (cfg e) s dt) = (s4, d, v)"
      by (cases "glide (cfg e) dt (spinDecay (cfg e) s dt)") auto
    have "recordStonePathSample (cfg e) s4 dt d \<noteq> None"
      using assms launched fast g by (auto simp: defs Option.bind_eq_Some_conv)
    then obtain s5 where rec: "recordStonePathSample (cfg e) s4 dt d = Some s5" by blast
    show ?thesis
    proof (cases "isOutOfBounds (cfg e) (s5\<lparr>velocity := v\<rparr>)")
      case True
      with assms rec launched fast g show ?thesis
        by (intro left[of s4 d v s5]) (auto simp: defs split: prod.splits)
    next
      case inside: False
      obtain s8 e1 where h: "checkHogLineCrossings (checkRotationActivation (s5\<lparr>velocity := v\<rparr>) (py (position s)) actY) (py (position s)) e = (s8, e1)"
        by (cases "checkHogLineCrossings (checkRotationActivation (s5\<lparr>velocity := v\<rparr>) (py (position s)) actY) (py (position s)) e") auto
      show ?thesis
      proof (cases "hypot (vx (velocity s8)) (vy (velocity s8)) > SPEED_EPSILON")
        case True
        with assms rec launched fast g inside h show ?thesis
          by (intro sliding[of s4 d v s5 s8]) (auto simp: defs)
      next
        case stop: False
        show ?thesis
        proof (cases "\<bar>rotationRate (spinDecay (cfg e) s dt)\<bar> > SPEED_EPSILON")
          case True
          with assms rec launched fast g inside h stop show ?thesis
            by (intro pivoting[of s4 d v s5 s8]) (auto simp: defs)
        next
          case False
          with assms rec launched fast g inside h stop show ?thesis
            by (intro halting[of s4 d v s5 s8 e1]) (auto simp: defs split: prod.splits)
        qed
      qed
    qed
  qed
qed


lemma stepStone_cfg:
  assumes "stepStone dt actY s (e, am) = Some (s', e', am')"
  shows "cfg e' = cfg e \<and> clock e' = clock e"
  using assms
proof (cases rule: stepStone_cases)
  case (resting s4) then show ?thesis using settle_frame by blast
next
  case (left s4 d v s5) then show ?thesis using out_frame by blast
next
  case (sliding s4 d v s5 s8) then show ?thesis using hog_frame by blast
next
  case (halting s4 d v s5 s8 e1)
  then show ?thesis using hog_frame[of _ _ e s8 e1] settle_frame[of _ e1 s' e'] by simp
next
  case (pivoting s4 d v s5 s8) then show ?thesis using hog_frame by blast
qed simp_all

lemma stepStone_path:
  assumes "stepStone dt actY s (e, am) = Some (s', e', am')"
    and "0 < maxPathSamples (cfg e)" and "length (pathSamples s) \<le> maxPathSamples (cfg e)"
  shows "length (pathSamples s') \<le> maxPathSamples (cfg e)"
  using assms(1)
proof (cases rule: stepStone_cases)
  case idle then show ?thesis using assms by simp
next
  case (spinning s4)
  with record_shape[OF spinning(3)] assms show ?thesis by (simp add: spinDecay_frame)
next
  case (resting s4)
  with record_shape[OF resting(3)] settle_frame[OF resting(5)] assms show ?thesis
    by (simp add: spinDecay_frame)
next
  case (left s4 d v s5)
  with record_shape[OF left(4)] out_frame[OF left(6)] glide_frame[OF left(3)] assms show ?thesis
    by (simp add: spinDecay_frame)
next
  case (sliding s4 d v s5 s8)
  with record_shape[OF sliding(4)] hog_frame[OF sliding(6)] glide_frame[OF sliding(3)] assms show ?thesis
    by (simp add: spinDecay_frame activation_frame)
next
  case (halting s4 d v s5 s8 e1)
  with record_shape[OF halting(4)] hog_frame[OF halting(6)] settle_frame[OF halting(9)]
    glide_frame[OF halting(3)] assms show ?thesis
    by (simp add: spinDecay_frame activation_frame)
next
  case (pivoting s4 d v s5 s8)
  with record_shape[OF pivoting(4)] hog_frame[OF pivoting(6)] glide_frame[OF pivoting(3)] assms show ?thesis
    by (simp add: spinDecay_frame activation_frame)
qed

lemma stepStone_total:
  assumes "0 < pathSampleInterval (cfg e)"
  shows "\<exists>r. stepStone dt actY s (e, am) = Some r"
proof -
  obtain s4 where r1: "recordStonePathSample (cfg e) (spinDecay (cfg e) s dt\<lparr>velocity := \<lparr>vx = 0, vy = 0\<rparr>\<rparr>) dt 0 = Some s4"
    using record_terminates[OF assms] by blast
  obtain g d v where g: "glide (cfg e) dt (spinDecay (cfg e) s dt) = (g, d, v)"
    by (cases "glide (cfg e) dt (spinDecay (cfg e) s dt)") auto
  obtain s5 where r2: "recordStonePathSample (cfg e) g dt d = Some s5"
    using record_terminates[OF assms] by blast
  show ?thesis
    by (auto simp add: stepStone_def Let_def r1 r2 g spinDecay_frame split: prod.splits)
qed

lemma stepStones_props:
  assumes "stepStones dt actY ss (e, am) = Some (ss', e', am')"
  shows "cfg e' = cfg e \<and> clock e' = clock e \<and> length ss' = length ss"
  using assms
proof (induction ss arbitrary: e am ss' e' am')
  case Nil then show ?case by simp
next
  case (Cons s ss)
  from Cons.prems obtain s1 e1 m1 ss1 where
    a: "stepStone dt actY s (e, am) = Some (s1, e1, m1)"
    and b: "stepStones dt actY ss (e1, m1) = Some (ss1, e', am')" and c: "ss' = s1 # ss1"
    by (auto simp: Option.bind_eq_Some_conv)
  from stepStone_cfg[OF a] Cons.IH[OF b] c show ?case by simp
qed

lemma stepStones_total:
  assumes "0 < pathSampleInterval (cfg e)"
  shows "\<exists>r. stepStones dt actY ss (e, am) = Some r"
  using assms
proof (induction ss arbitrary: e am)
  case Nil then show ?case by simp
next
  case (Cons s ss)
  obtain s1 e1 m1 where a: "stepStone dt actY s (e, am) = Some (s1, e1, m1)"
    using stepStone_total[OF Cons.prems] by (metis prod_cases3)
  from stepStone_cfg[OF a] Cons.prems have "0 < pathSampleInterval (cfg e1)" by simp
  from Cons.IH[OF this] obtain r where "stepStones dt actY ss (e1, m1) = Some r" by blast
  then show ?case using a by (cases r) simp
qed

lemma step_total:
  assumes "0 < pathSampleInterval (cfg e)"
  shows "\<exists>e'. step dt e = Some e'"
proof -
  obtain ss e1 m where "stepStones dt (rotationActivationY (cfg e)) (stones e) (e, False) = Some (ss, e1, m)"
    using stepStones_total[OF assms] by (metis prod_cases3)
  then show ?thesis by (simp add: step_def Let_def split: prod.splits)
qed


lemma initializeStones_cfg: "cfg (initializeStones cs e) = cfg e"
proof -
  have "cfg (fold registerStone cs e0) = cfg e0" for e0
    by (induction cs arbitrary: e0) (simp_all add: registerStone_def Let_def)
  then show ?thesis by (simp add: initializeStones_def)
qed

lemma step_cfg:
  assumes "step dt e = Some e'"
  shows "cfg e' = cfg e \<and> clock e' = clock e"
proof -
  from assms obtain ss e1 m where
    a: "stepStones dt (rotationActivationY (cfg e)) (stones e) (e, False) = Some (ss, e1, m)"
    by (auto simp: step_def Let_def Option.bind_eq_Some_conv)
  with assms stepStones_props[OF a] show ?thesis
    by (auto simp: step_def Let_def split: prod.splits if_splits)
qed

lemma update_cfg: "update t e = Some e' \<Longrightarrow> cfg e' = cfg e"
  by (auto simp: update_def split: option.splits if_splits dest: step_cfg)

lemma throwStone_cfg: "cfg (snd (throwStone a e)) = cfg e"
  by (simp add: throwStone_def Let_def performance_now_def split: option.splits prod.splits)

lemma exec_cfg: "exec opn e = Some r \<Longrightarrow> cfg (after r) = cfg e"
proof (cases opn)
  case (ThrowStone a)
  assume "exec opn e = Some r"
  with ThrowStone throwStone_cfg[of a e] show ?thesis
    by (auto simp: after_def split: prod.splits sum.splits)
qed (auto simp: after_def initializeStones_cfg setOutTrayLayouts_def resetOutTrayIndices_def dest: update_cfg)

lemma reachable_cfg:
  "reachable e \<Longrightarrow> pathSampleInterval (cfg e) = 1 \<and> maxPathSamples (cfg e) = 240"
proof (induction rule: reachable.induct)
  case (constructed a clk)
  show ?case by (simp add: newPhysicsEngine_def DEFAULT_PATH_SAMPLE_INTERVAL_def MAX_PATH_SAMPLE_POINTS_def)
next
  case (operated e opn r)
  then show ?case by (simp add: exec_cfg)
qed


subsection \<open>Collision resolver: what it leaves unchanged\<close>

lemma sameButMotion_refl: "sameButMotion s s"
  by (simp add: sameButMotion_def)

lemma sameButMotion_trans: "sameButMotion s s' \<Longrightarrow> sameButMotion s' s'' \<Longrightarrow> sameButMotion s s''"
  by (simp add: sameButMotion_def)

lemma rewindStone_frame: "sameButMotion s (rewindStone s t)"
  by (simp add: sameButMotion_def rewindStone_def)

lemma advanceStone_frame: "sameButMotion s (advanceStone s t)"
  by (simp add: sameButMotion_def advanceStone_def)

lemma initialContact_stones:
  "initialContact m a b = Some k \<Longrightarrow> stoneA k = a \<and> stoneB k = b"
  by (auto simp: initialContact_def Let_def split: if_splits)

lemma rewindContact_frame:
  "sameButMotion (stoneA k) (stoneA (rewindContact m dt k)) \<and>
   sameButMotion (stoneB k) (stoneB (rewindContact m dt k))"
  by (simp add: rewindContact_def Let_def rewindStone_frame sameButMotion_refl)

lemma separateContact_frame:
  "sameButMotion (stoneA k) (stoneA (separateContact m k)) \<and>
   sameButMotion (stoneB k) (stoneB (separateContact m k))"
  by (simp add: separateContact_def Let_def sameButMotion_def)

lemma normalImpulse_frame:
  "sameButMotion (stoneA k) (stoneA (normalImpulse re rvn k)) \<and>
   sameButMotion (stoneB k) (stoneB (normalImpulse re rvn k))"
  by (simp add: normalImpulse_def Let_def sameButMotion_def)

lemma tangentialImpulse_frame:
  "sameButMotion (stoneA k) (stoneA (tangentialImpulse tloss rvt k)) \<and>
   sameButMotion (stoneB k) (stoneB (tangentialImpulse tloss rvt k))"
  by (simp add: tangentialImpulse_def Let_def sameButMotion_def)

lemma transferSpin_frame:
  "sameButMotion (stoneA k) (stoneA (transferSpin r st sd rvt k)) \<and>
   sameButMotion (stoneB k) (stoneB (transferSpin r st sd rvt k))"
  by (simp add: transferSpin_def Let_def sameButMotion_def)

lemma wakeIfSpinning_frame: "sameButMotion s (wakeIfSpinning s)"
  by (simp add: wakeIfSpinning_def sameButMotion_def)

lemma applyImpulses_frame:
  "sameButMotion (stoneA k) (stoneA (applyImpulses r re st sd tloss k)) \<and>
   sameButMotion (stoneB k) (stoneB (applyImpulses r re st sd tloss k))"
proof -
  define rvn where "rvn = (vx (velocity (stoneA k)) - vx (velocity (stoneB k))) * normalX k
     + (vy (velocity (stoneA k)) - vy (velocity (stoneB k))) * normalY k"
  define rvt where "rvt = (vx (velocity (stoneA k)) - vx (velocity (stoneB k))) * (- normalY k)
     + (vy (velocity (stoneA k)) - vy (velocity (stoneB k))) * normalX k"
  define k0 where "k0 = k\<lparr>relVelAlongNormal := rvn\<rparr>"
  define k1 where "k1 = normalImpulse re rvn k0"
  define k2 where "k2 = tangentialImpulse tloss rvt k1"
  define k3 where "k3 = transferSpin r st sd rvt k2"
  have eq: "applyImpulses r re st sd tloss k =
      k3\<lparr>stoneA := wakeIfSpinning (stoneA k3), stoneB := wakeIfSpinning (stoneB k3)\<rparr>"
    by (simp add: applyImpulses_def Let_def k3_def k2_def k1_def k0_def rvn_def rvt_def)
  have k0: "stoneA k0 = stoneA k" "stoneB k0 = stoneB k" by (simp_all add: k0_def)
  have "sameButMotion (stoneA k) (wakeIfSpinning (stoneA k3))"
    using normalImpulse_frame[of k0 re rvn] tangentialImpulse_frame[of k1 tloss rvt]
      transferSpin_frame[of k2 r st sd rvt] wakeIfSpinning_frame[of "stoneA k3"]
    unfolding k0 k1_def[symmetric] k2_def[symmetric] k3_def[symmetric]
    by (blast intro: sameButMotion_trans)
  moreover have "sameButMotion (stoneB k) (wakeIfSpinning (stoneB k3))"
    using normalImpulse_frame[of k0 re rvn] tangentialImpulse_frame[of k1 tloss rvt]
      transferSpin_frame[of k2 r st sd rvt] wakeIfSpinning_frame[of "stoneB k3"]
    unfolding k0 k1_def[symmetric] k2_def[symmetric] k3_def[symmetric]
    by (blast intro: sameButMotion_trans)
  ultimately show ?thesis by (simp add: eq)
qed

lemma advanceContact_frame:
  "sameButMotion (stoneA k) (stoneA (advanceContact k)) \<and>
   sameButMotion (stoneB k) (stoneB (advanceContact k))"
  by (simp add: advanceContact_def advanceStone_frame sameButMotion_refl)

lemma resolvePair_frame:
  assumes "resolvePair c r dt a b = Some (a', b')"
  shows "sameButMotion a a' \<and> sameButMotion b b'"
proof -
  from assms obtain k0 where k0: "initialContact (r * 2) a b = Some k0"
    by (cases "initialContact (r * 2) a b") (simp_all add: resolvePair_def Let_def)
  define k1 where "k1 = rewindContact (r * 2) dt k0"
  define k2 where "k2 = separateContact (r * 2) k1"
  define k3 where "k3 = applyImpulses r (max 0 (min (collisionRestitution c) 1))
     (max 0 (collisionSpinTransfer c)) (max 0 (min (collisionSpinDamping c) 0.95))
     (max 0 (min (collisionTangentialLoss c) 0.95)) k2"
  define k4 where "k4 = advanceContact k3"
  have "resolvePair c r dt a b = Some (stoneA k4, stoneB k4)"
    unfolding resolvePair_def Let_def k4_def k3_def k2_def k1_def by (simp add: k0)
  with assms have r: "a' = stoneA k4" "b' = stoneB k4" by simp_all
  have a1: "sameButMotion (stoneA k0) (stoneA k1)" and b1: "sameButMotion (stoneB k0) (stoneB k1)"
    unfolding k1_def using rewindContact_frame by blast+
  have a2: "sameButMotion (stoneA k1) (stoneA k2)" and b2: "sameButMotion (stoneB k1) (stoneB k2)"
    unfolding k2_def using separateContact_frame by blast+
  have a3: "sameButMotion (stoneA k2) (stoneA k3)" and b3: "sameButMotion (stoneB k2) (stoneB k3)"
    unfolding k3_def using applyImpulses_frame by blast+
  have a4: "sameButMotion (stoneA k3) (stoneA k4)" and b4: "sameButMotion (stoneB k3) (stoneB k4)"
    unfolding k4_def using advanceContact_frame by blast+
  have "sameButMotion (stoneA k0) (stoneA k4)"
    using sameButMotion_trans[OF sameButMotion_trans[OF sameButMotion_trans[OF a1 a2] a3] a4] .
  moreover have "sameButMotion (stoneB k0) (stoneB k4)"
    using sameButMotion_trans[OF sameButMotion_trans[OF sameButMotion_trans[OF b1 b2] b3] b4] .
  ultimately show ?thesis using initialContact_stones[OF k0] r by simp
qed

lemma collideAt_frame:
  assumes "list_all2 sameButMotion ss0 (fst st)" and "i < length (fst st)" and "j < length (fst st)"
  shows "list_all2 sameButMotion ss0 (fst (collideAt c r dt i j st))"
proof -
  obtain ss g where st: "st = (ss, g)" by (cases st)
  show ?thesis
  proof (cases "\<not> isLaunched (ss ! j) \<or> isOut (ss ! j)")
    case True
    with assms st show ?thesis by (simp add: collideAt_def)
  next
    case False
    show ?thesis
    proof (cases "resolvePair c r dt (ss ! i) (ss ! j)")
      case None
      with False assms st show ?thesis by (simp add: collideAt_def)
    next
      case (Some p)
      obtain a' b' where p: "p = (a', b')" by (cases p)
      from resolvePair_frame[OF Some[unfolded p]]
      have fr: "sameButMotion (ss ! i) a'" "sameButMotion (ss ! j) b'" by simp_all
      have res: "fst (collideAt c r dt i j st) = ss[i := a', j := b']"
        using False Some p st by (simp add: collideAt_def)
      have len: "length ss0 = length ss" using assms(1) st by (simp add: list_all2_lengthD)
      have "list_all2 sameButMotion ss0 (ss[i := a', j := b'])"
        unfolding list_all2_conv_all_nth
      proof (intro conjI allI impI)
        show "length ss0 = length (ss[i := a', j := b'])" using len by simp
      next
        fix n assume n: "n < length ss0"
        from assms(1) st n have base: "sameButMotion (ss0 ! n) (ss ! n)"
          by (simp add: list_all2_conv_all_nth)
        show "sameButMotion (ss0 ! n) (ss[i := a', j := b'] ! n)"
          using base fr n len assms(2,3) st
          by (cases "n = j"; cases "n = i") (auto intro: sameButMotion_trans)
      qed
      with res show ?thesis by simp
    qed
  qed
qed

lemma collideAt_length: "length (fst (collideAt c r dt i j st)) = length (fst st)"
proof -
  obtain ss g where st: "st = (ss, g)" by (cases st)
  show ?thesis
  proof (cases "resolvePair c r dt (ss ! i) (ss ! j)")
    case None
    then show ?thesis by (simp add: collideAt_def st Let_def)
  next
    case (Some p)
    then show ?thesis by (cases p) (simp add: collideAt_def st Let_def)
  qed
qed

lemma fold_collideAt_frame:
  assumes "list_all2 sameButMotion ss0 (fst st)" and "i < length (fst st)" and "\<forall>j \<in> set js. j < length (fst st)"
  shows "list_all2 sameButMotion ss0 (fst (fold (collideAt c r dt i) js st))
         \<and> length (fst (fold (collideAt c r dt i) js st)) = length (fst st)"
  using assms
proof (induction js arbitrary: st)
  case Nil then show ?case by simp
next
  case (Cons j js)
  have "list_all2 sameButMotion ss0 (fst (collideAt c r dt i j st))"
    using collideAt_frame[OF Cons.prems(1,2)] Cons.prems(3) by simp
  from Cons.IH[OF this] Cons.prems show ?case by (simp add: collideAt_length)
qed

lemma collideRow_frame:
  assumes "list_all2 sameButMotion ss0 (fst st)" and "i < length (fst st)"
  shows "list_all2 sameButMotion ss0 (fst (collideRow c r dt i st))
         \<and> length (fst (collideRow c r dt i st)) = length (fst st)"
  using fold_collideAt_frame[OF assms, of "[i + 1 ..< length (fst st)]" c r dt] assms
  by (simp add: collideRow_def Let_def)

lemma fold_collideRow_frame:
  assumes "list_all2 sameButMotion ss0 (fst st)" and "\<forall>i \<in> set is. i < length (fst st)"
  shows "list_all2 sameButMotion ss0 (fst (fold (collideRow c r dt) is st))
         \<and> length (fst (fold (collideRow c r dt) is st)) = length (fst st)"
  using assms
proof (induction "is" arbitrary: st)
  case Nil then show ?case by simp
next
  case (Cons i "is")
  from collideRow_frame[OF Cons.prems(1), of i c r dt] Cons.prems(2)
  have a: "list_all2 sameButMotion ss0 (fst (collideRow c r dt i st))"
    and l: "length (fst (collideRow c r dt i st)) = length (fst st)" by simp_all
  from Cons.IH[OF a] Cons.prems(2) l show ?case by simp
qed

lemma resolveCollisions_frame:
  "list_all2 sameButMotion ss (fst (resolveCollisions c dt ss))"
proof -
  have refl: "list_all2 sameButMotion ss ss"
    by (simp add: list_all2_conv_all_nth sameButMotion_refl)
  show ?thesis
    using fold_collideRow_frame[of ss "(ss, False)" "[0 ..< length ss]" c _ dt] refl
    by (simp add: resolveCollisions_def Let_def)
qed

subsection \<open>The cap of the path trace over a run\<close>

lemma stepStones_path:
  assumes "stepStones dt actY ss (e, am) = Some (ss', e', am')"
    and "0 < maxPathSamples (cfg e)" and "\<forall>s \<in> set ss. length (pathSamples s) \<le> maxPathSamples (cfg e)"
  shows "\<forall>s \<in> set ss'. length (pathSamples s) \<le> maxPathSamples (cfg e)"
  using assms
proof (induction ss arbitrary: e am ss' e' am')
  case Nil then show ?case by simp
next
  case (Cons s ss)
  from Cons.prems(1) obtain s1 e1 m1 ss1 where
    a: "stepStone dt actY s (e, am) = Some (s1, e1, m1)"
    and b: "stepStones dt actY ss (e1, m1) = Some (ss1, e', am')" and c: "ss' = s1 # ss1"
    by (auto simp: Option.bind_eq_Some_conv)
  have cf: "cfg e1 = cfg e" using stepStone_cfg[OF a] by simp
  have "length (pathSamples s1) \<le> maxPathSamples (cfg e)"
    using stepStone_path[OF a Cons.prems(2)] Cons.prems(3) by simp
  moreover have "\<forall>s \<in> set ss1. length (pathSamples s) \<le> maxPathSamples (cfg e1)"
    using Cons.IH[OF b] Cons.prems(2,3) cf by simp
  ultimately show ?case using c cf by simp
qed

lemma resolveCollisions_length: "length (fst (resolveCollisions c dt ss)) = length ss"
  using resolveCollisions_frame[of ss c dt] by (simp add: list_all2_lengthD)

lemma resolveCollisions_path:
  assumes "\<forall>s \<in> set ss. length (pathSamples s) \<le> n"
  shows "\<forall>s \<in> set (fst (resolveCollisions c dt ss)). length (pathSamples s) \<le> n"
proof
  fix s assume "s \<in> set (fst (resolveCollisions c dt ss))"
  then obtain k where k: "k < length (fst (resolveCollisions c dt ss))"
    and s: "s = fst (resolveCollisions c dt ss) ! k" by (auto simp: in_set_conv_nth)
  from resolveCollisions_frame[of ss c dt] k
  have "sameButMotion (ss ! k) s" unfolding s by (simp add: list_all2_conv_all_nth)
  moreover have "ss ! k \<in> set ss" using k by (simp add: resolveCollisions_length)
  ultimately show "length (pathSamples s) \<le> n" using assms by (auto simp: sameButMotion_def)
qed

lemma step_stones:
  assumes "step dt e = Some e'"
  obtains ss e1 m where
    "stepStones dt (rotationActivationY (cfg e)) (stones e) (e, False) = Some (ss, e1, m)"
    "stones e' = fst (resolveCollisions (cfg e) dt ss)"
    "stoneInventory e' = stoneInventory e1" "events e' = events e1" "clockReads e' = clockReads e1"
    "outTrayIndices e' = outTrayIndices e1" "outTrayLayouts e' = outTrayLayouts e1"
proof -
  from assms obtain ss e1 m where
    a: "stepStones dt (rotationActivationY (cfg e)) (stones e) (e, False) = Some (ss, e1, m)"
    by (auto simp: step_def Let_def Option.bind_eq_Some_conv)
  have cf: "cfg e1 = cfg e" using stepStones_props[OF a] by simp
  show ?thesis
    using assms a cf
    by (intro that[of ss e1 m]) (auto simp: step_def Let_def split: prod.splits if_splits)
qed

lemma step_path:
  assumes "step dt e = Some e'"
    and "0 < maxPathSamples (cfg e)" and "\<forall>s \<in> set (stones e). length (pathSamples s) \<le> maxPathSamples (cfg e)"
  shows "\<forall>s \<in> set (stones e'). length (pathSamples s) \<le> maxPathSamples (cfg e)"
  using assms(1)
proof (cases rule: step_stones)
  case (1 ss e1 m)
  from stepStones_path[OF 1(1) assms(2,3)] resolveCollisions_path[of ss "maxPathSamples (cfg e)" "cfg e" dt] 1(2)
  show ?thesis by simp
qed

lemma newStone_path: "pathSamples (newStone conf) = [position (newStone conf)]"
  by (simp add: newStone_def attachTiming_def resetStonePath_def Let_def)

lemma fold_registerStone_stones:
  "stones (fold registerStone cs e) = stones e @ map newStone cs"
  by (induction cs arbitrary: e) (simp_all add: registerStone_def Let_def)

lemma initializeStones_stones: "stones (initializeStones cs e) = map newStone cs"
  by (simp add: initializeStones_def fold_registerStone_stones)

lemma launch_path: "pathSamples (launch a v l s) = [position (launch a v l s)] \<and> pathSampleTimer (launch a v l s) = 0"
  by (simp add: launch_def attachTiming_def resetStonePath_def Let_def)

lemma throwStone_stones:
  "stones (snd (throwStone a e)) = stones e \<or>
   (\<exists>i v. stones (snd (throwStone a e)) = (stones e)[i := launch a v (launchY (cfg e)) (stones e ! i)])"
  by (auto simp: throwStone_def Let_def performance_now_def split: option.splits prod.splits)

lemma exec_path:
  assumes "exec opn e = Some r" and "0 < maxPathSamples (cfg e)"
    and "\<forall>s \<in> set (stones e). length (pathSamples s) \<le> maxPathSamples (cfg e)"
  shows "\<forall>s \<in> set (stones (after r)). length (pathSamples s) \<le> maxPathSamples (cfg e)"
proof (cases opn)
  case (InitializeStones cs)
  with assms show ?thesis by (auto simp: after_def initializeStones_stones newStone_path)
next
  case (SetOutTrayLayouts m)
  with assms show ?thesis by (auto simp: after_def setOutTrayLayouts_def)
next
  case (ThrowStone a)
  with assms(1) have r: "after r = snd (throwStone a e)"
    by (auto simp: after_def split: prod.splits sum.splits)
  from throwStone_stones[of a e] show ?thesis
  proof
    assume "stones (snd (throwStone a e)) = stones e"
    with r assms show ?thesis by simp
  next
    assume "\<exists>i v. stones (snd (throwStone a e)) = (stones e)[i := launch a v (launchY (cfg e)) (stones e ! i)]"
    then obtain i v where "stones (after r) = (stones e)[i := launch a v (launchY (cfg e)) (stones e ! i)]"
      using r by auto
    then show ?thesis using assms(2,3) launch_path[of a v "launchY (cfg e)" "stones e ! i"]
      by (auto dest!: set_update_subset_insert[THEN subsetD])
  qed
next
  case (Update t)
  with assms(1) obtain e' where u: "update t e = Some e'" and r: "r = Returned e'" by auto
  show ?thesis
  proof (cases "isActive e \<and> lastTimestamp e \<noteq> None")
    case False
    with u r assms show ?thesis by (auto simp: update_def after_def split: option.splits if_splits)
  next
    case True
    then obtain p where "step ((t - p) / 1000) (e\<lparr>lastTimestamp := Some t\<rparr>) = Some e'"
      using u by (auto simp: update_def split: option.splits if_splits)
    from step_path[OF this] assms(2,3) r show ?thesis by (simp add: after_def)
  qed
next
  case GetStones
  with assms show ?thesis by (auto simp: after_def)
next
  case IsRunning
  with assms show ?thesis by (auto simp: after_def)
next
  case ResetOutTrayIndices
  with assms show ?thesis by (auto simp: after_def resetOutTrayIndices_def)
qed

lemma reachable_path:
  "reachable e \<Longrightarrow> \<forall>s \<in> set (stones e). length (pathSamples s) \<le> maxPathSamples (cfg e)"
proof (induction rule: reachable.induct)
  case (constructed a clk)
  show ?case by (simp add: newPhysicsEngine_def)
next
  case (operated e opn r)
  from reachable_cfg[OF operated(1)] have "0 < maxPathSamples (cfg e)" by simp
  from exec_path[OF operated(2) this operated(3)] exec_cfg[OF operated(2)] show ?case by simp
qed

lemma demoEngine_reachable: "reachable demoEngine"
proof -
  let ?cs = "[\<lparr>configPosition = Some \<lparr>px = - 2, py = - 40\<rparr>, configColor = Some RED,
         configNumber = Some 1\<rparr>,
        \<lparr>configPosition = Some \<lparr>px = 2, py = - 40\<rparr>, configColor = Some YELLOW,
         configNumber = Some 1\<rparr>]"
  have "reachable (after (Returned (initializeStones ?cs (newPhysicsEngine demoArgs demoClock))))"
    by (rule reachable.operated[OF reachable.constructed, of "InitializeStones ?cs"]) simp
  then show ?thesis by (simp add: after_def demoEngine_def)
qed

lemma demoEngine_cfg: "cfg demoEngine = cfg (newPhysicsEngine demoArgs demoClock)"
  by (simp add: demoEngine_def initializeStones_cfg)

lemma point_eta: "\<lparr>px = px (p::point), py = py p\<rparr> = p"
  by (cases p) simp

lemma trim_push:
  assumes "pathSamples s = xs @ [p]" and "length xs = maxPathSamples c" and "0 < maxPathSamples c"
  shows "pathSamples (trimPathSamples c s) = tl xs @ [p]"
  using assms by (cases xs) (auto simp: trim_eq)

lemma appendTerminal_evicts:
  assumes "length (pathSamples s) = maxPathSamples c" and "0 < maxPathSamples c"
    and "last (pathSamples s) \<noteq> position s"
  shows "pathSamples (appendTerminalPathPoint c s) = tl (pathSamples s) @ [position s]"
proof -
  from assms have ne: "pathSamples s \<noteq> []" by auto
  from assms(3) have "px (last (pathSamples s)) \<noteq> px (position s) \<or> py (last (pathSamples s)) \<noteq> py (position s)"
    by (auto intro: point.equality)
  with ne have "appendTerminalPathPoint c s = trimPathSamples c (s\<lparr>pathSamples := pathSamples s @ [position s]\<rparr>)"
    by (simp add: appendTerminalPathPoint_def Let_def point_eta)
  then show ?thesis using assms(1,2) by (simp add: trim_push)
qed

lemma recordMoving_evicts:
  assumes "length (pathSamples s) = maxPathSamples c" and "0 < maxPathSamples c"
    and "0 < d" and "0 < dt" and "pathSampleInterval c \<le> pathSampleTimer s + dt"
    and "pathSampleTimer s + dt < 2 * pathSampleInterval c"
  shows "\<exists>s'. recordStonePathSample c s dt d = Some s' \<and> pathSamples s' = tl (pathSamples s) @ [position s]"
proof -
  define s1 where "s1 = s\<lparr>pathSampleTimer := pathSampleTimer s + dt\<rparr>"
  define s2 where "s2 = trimPathSamples c (s1\<lparr>pathSamples := pathSamples s1 @ [\<lparr>px = px (position s1), py = py (position s1)\<rparr>],
       pathSampleTimer := pathSampleTimer s1 - pathSampleInterval c\<rparr>)"
  have t2: "pathSampleTimer s2 = pathSampleTimer s + dt - pathSampleInterval c"
    by (simp add: s2_def s1_def trim_eq)
  have "samplePathLoop c s2 = Some s2"
    using assms(6) by (subst samplePathLoop.simps) (simp add: t2)
  moreover have "samplePathLoop c s1 = samplePathLoop c s2"
    using assms(5) by (subst samplePathLoop.simps) (simp add: s2_def s1_def)
  ultimately have "recordStonePathSample c s dt d = Some s2"
    using assms(3,4) by (simp add: recordStonePathSample_def s1_def)
  moreover have "pathSamples s2 = tl (pathSamples s) @ [position s]"
    unfolding s2_def using assms(1,2)
    by (intro trim_push) (simp_all add: s1_def point_eta)
  ultimately show ?thesis by blast
qed


subsection \<open>The engine across the handling of a stone; the registry\<close>
















lemma throwStone_success:
  assumes "fst (throwStone a e) = Inr s"
  shows "\<exists>col num i v. throwColor a = Some col \<and> throwNumber a = Some num \<and> throwVelocity a = Some v
           \<and> findStone e col num = Some i
           \<and> s = launch a v (launchY (cfg e)) (stones e ! i)
           \<and> stones (snd (throwStone a e)) = (stones e)[i := s]
           \<and> events (snd (throwStone a e)) =
               events e @ (if onStoneReleased (cfg e) then [StoneReleased (clock e (clockReads e))] else [])
           \<and> isActive (snd (throwStone a e)) \<and> lastTimestamp (snd (throwStone a e)) = None"
  using assms
  by (auto simp: throwStone_def Let_def performance_now_def split: option.splits if_splits prod.splits)

lemma launch_effects:
  "position (launch a v l s) = \<lparr>px = orDefault (offsetX a) 0, py = l\<rparr>
   \<and> velocity (launch a v l s) = v
   \<and> pendingRotationRate (launch a v l s) = orDefault (rotationRadiansPerSecond a) 0
   \<and> rotationRate (launch a v l s) = 0
   \<and> rotationActivated (launch a v l s) = (orDefault (rotationRadiansPerSecond a) 0 = 0)
   \<and> isLaunched (launch a v l s) \<and> \<not> isOut (launch a v l s) \<and> \<not> hasStoppedNotified (launch a v l s)
   \<and> pathSamples (launch a v l s) = [\<lparr>px = orDefault (offsetX a) 0, py = l\<rparr>]
   \<and> pathSampleTimer (launch a v l s) = 0
   \<and> hogTiming (launch a v l s) = \<lparr>nearCrossedAt = None, farCrossedAt = None\<rparr>
   \<and> color (launch a v l s) = color s \<and> number (launch a v l s) = number s"
  by (cases v) (simp add: launch_def attachTiming_def resetStonePath_def Let_def)


subsection \<open>The demonstration engine\<close>

lemma demo_find: "findStone demoEngine RED 1 = Some 0"
  by (simp add: demoEngine_def initializeStones_def registerStone_def newStone_def attachTiming_def
        resetStonePath_def orDefault_def findStone_def makeStoneKey_def Let_def)

lemma demo_stones: "stones demoEngine =
   [newStone \<lparr>configPosition = Some \<lparr>px = - 2, py = - 40\<rparr>, configColor = Some RED, configNumber = Some 1\<rparr>,
    newStone \<lparr>configPosition = Some \<lparr>px = 2, py = - 40\<rparr>, configColor = Some YELLOW, configNumber = Some 1\<rparr>]"
  by (simp add: demoEngine_def initializeStones_stones)

lemma demo_cfg_values:
  "launchY (cfg demoEngine) = - 38.10715" "onStoneReleased (cfg demoEngine)"
  "onHogNearCross (cfg demoEngine)" "onHogSplit (cfg demoEngine)" "onStoneStopped (cfg demoEngine)"
  "hogLineNear (cfg demoEngine) = Number (- 28.3464)" "hogLineFar (cfg demoEngine) = Number (- 6.4008)"
  "stoneRadius (cfg demoEngine) = Number 0.14605"
  by (simp_all add: demoEngine_cfg newPhysicsEngine_def demoArgs_def gameArgs_def)

lemma demo_world:
  "clock demoEngine = demoClock" "clockReads demoEngine = 0" "events demoEngine = []"
  by (simp_all add: demoEngine_def initializeStones_def registerStone_def Let_def newPhysicsEngine_def)

subsection \<open>Curl model\<close>

lemma curl_cases:
  fixes c s speed d dto
  defines "w \<equiv> rotationRate s"
  defines "eff \<equiv> max speed (curlMinSpeed c)"
  defines "rf \<equiv> min (\<bar>w\<bar> / max (curlRotationReference c) SPEED_EPSILON) 1"
  defines "ats \<equiv> (case dto of Some t \<Rightarrow> t
      | None \<Rightarrow> (if d > 0 then d / max eff SPEED_EPSILON else 0))"
  defines "h \<equiv> GRAVITY * curlAsymmetry c * (- sgn w) * rf * (1 / (eff + max (curlVelocityBias c) 0)) / eff * ats"
  shows "computeCurlHeadingDelta c s speed d dto =
     (if sgn w = 0 \<or> \<bar>w\<bar> < curlMinOmega c then 0
      else if eff \<le> SPEED_EPSILON then 0
      else if rf \<le> 0 then 0
      else if ats \<le> 0 then 0
      else max (- 0.35) (min 0.35 h))"
  unfolding computeCurlHeadingDelta_def Let_def w_def eff_def rf_def ats_def h_def
  by (rule refl)


lemma clamp_sgn:
  fixes h :: real
  assumes "0 < m"
  shows "sgn (max (- m) (min m h)) = sgn h"
  using assms by (cases "h < 0"; cases "h = 0") (auto simp: sgn_if max_def min_def)

lemma sgn_opposite:
  fixes w k :: real
  assumes "0 < k"
  shows "sgn ((- sgn w) * k) = - sgn w"
  using assms by (cases "w < 0"; cases "w = 0") (simp_all add: sgn_if mult_less_0_iff zero_less_mult_iff)

lemma guarded_clamp_range:
  fixes x m h :: real
  assumes "x = (if a then 0 else if b then 0 else if c then 0 else if d then 0
                else max (- m) (min m h))" and "0 < m"
  shows "- m \<le> x \<and> x \<le> m"
  using assms by (auto simp: max_def min_def)

lemma guarded_clamp_nonzero:
  fixes x m h :: real
  assumes "x = (if a then 0 else if b then 0 else if c then 0 else if d then 0
                else max (- m) (min m h))" and "x \<noteq> 0"
  shows "\<not> a \<and> \<not> b \<and> \<not> c \<and> \<not> d \<and> x = max (- m) (min m h)"
  using assms by (auto split: if_splits)

lemma curl_bounds:
  "- 0.35 \<le> computeCurlHeadingDelta c s speed d dto \<and> computeCurlHeadingDelta c s speed d dto \<le> 0.35"
  using guarded_clamp_range[OF curl_cases] by simp

lemma curl_inactive:
  "\<bar>rotationRate s\<bar> < curlMinOmega c \<Longrightarrow> computeCurlHeadingDelta c s speed d dto = 0"
  by (subst curl_cases) simp

lemma curl_sign:
  assumes nz: "computeCurlHeadingDelta c s speed d dto \<noteq> 0" and asym: "0 \<le> curlAsymmetry c"
  shows "sgn (computeCurlHeadingDelta c s speed d dto) = - sgn (rotationRate s)"
proof -
  define w where "w = rotationRate s"
  define eff where "eff = max speed (curlMinSpeed c)"
  define rf where "rf = min (\<bar>w\<bar> / max (curlRotationReference c) SPEED_EPSILON) 1"
  define vs where "vs = 1 / (eff + max (curlVelocityBias c) 0)"
  define ats where "ats = (case dto of Some t \<Rightarrow> t
      | None \<Rightarrow> (if d > 0 then d / max eff SPEED_EPSILON else 0))"
  define h where "h = GRAVITY * curlAsymmetry c * (- sgn w) * rf * vs / eff * ats"
  have cs: "computeCurlHeadingDelta c s speed d dto =
     (if sgn w = 0 \<or> \<bar>w\<bar> < curlMinOmega c then 0
      else if eff \<le> SPEED_EPSILON then 0
      else if rf \<le> 0 then 0
      else if ats \<le> 0 then 0
      else max (- 0.35) (min 0.35 h))"
    unfolding w_def eff_def rf_def ats_def h_def vs_def by (rule curl_cases)
  from guarded_clamp_nonzero[OF cs nz]
  have w0: "\<not> (sgn w = 0 \<or> \<bar>w\<bar> < curlMinOmega c)" and eff0: "\<not> eff \<le> SPEED_EPSILON"
    and rf0: "\<not> rf \<le> 0" and ats0: "\<not> ats \<le> 0"
    and val: "computeCurlHeadingDelta c s speed d dto = max (- 0.35) (min 0.35 h)"
    by blast+
  have effpos: "0 < eff" using eff0 by (simp add: SPEED_EPSILON_def)
  have "0 < eff + max (curlVelocityBias c) 0" using effpos by (simp add: add_pos_nonneg)
  then have vspos: "0 < vs" unfolding vs_def by simp
  have rfpos: "0 < rf" using rf0 by simp
  have atspos: "0 < ats" using ats0 by simp
  have sg: "sgn (max (- 0.35) (min 0.35 h)) = sgn h"
    using clamp_sgn[of "0.35" h] by simp
  from nz val have hne: "h \<noteq> 0" by auto
  have hform: "h = (- sgn w) * (curlAsymmetry c * (GRAVITY * rf * vs / eff * ats))"
    unfolding h_def by simp
  have kpos: "0 < GRAVITY * rf * vs / eff * ats"
    using rfpos vspos effpos atspos by (simp add: GRAVITY_def)
  from hne hform have "curlAsymmetry c \<noteq> 0" by auto
  with asym have apos: "0 < curlAsymmetry c" by simp
  with kpos have "0 < curlAsymmetry c * (GRAVITY * rf * vs / eff * ats)" by (rule mult_pos_pos[rotated])
  from sgn_opposite[OF this, of w] hform have "sgn h = - sgn w" by simp
  with sg val show ?thesis by (simp add: w_def)
qed


lemma demo_curl:
  "curlMinOmega (cfg demoEngine) = 0.05" "curlMinSpeed (cfg demoEngine) = 0.15"
  "curlRotationReference (cfg demoEngine) = 6" "curlAsymmetry (cfg demoEngine) = 0.008"
  "curlVelocityBias (cfg demoEngine) = 0.5"
  by (simp_all add: demoEngine_cfg newPhysicsEngine_def orDefault_def demoArgs_def gameArgs_def
      DEFAULT_CURL_MIN_OMEGA_def DEFAULT_CURL_MIN_SPEED_def DEFAULT_CURL_ROTATION_REFERENCE_def
      DEFAULT_CURL_ASYMMETRY_def DEFAULT_CURL_VELOCITY_BIAS_def)

subsection \<open>Spin decay\<close>

lemma hypot_nonneg: "0 \<le> hypot a b"
  by (simp add: hypot_def)

lemma hypot_zero_right: "hypot a 0 = \<bar>a\<bar>"
  by (simp add: hypot_def)

lemma hypot_zero_left: "hypot 0 b = \<bar>b\<bar>"
  by (simp add: hypot_def)

lemma decay_formula:
  assumes "w \<noteq> 0"
  shows "\<bar>decayRotation w speed f dt\<bar> =
           max 0 (\<bar>w\<bar> - (if speed \<le> SPEED_EPSILON then 1.4 else 0.7) * f * dt)"
proof -
  define r where "r = max 0 (\<bar>w\<bar> - (if speed \<le> SPEED_EPSILON then 1.4 else 0.7) * f * dt)"
  have d: "decayRotation w speed f dt = (if r = 0 then 0 else sgn w * r)"
    unfolding decayRotation_def Let_def r_def by (rule refl)
  have "0 \<le> r" by (simp add: r_def)
  then have "\<bar>if r = 0 then 0 else sgn w * r\<bar> = r"
    using assms by (simp add: abs_mult abs_sgn_eq)
  then show ?thesis unfolding d r_def .
qed

lemma decay_sign:
  assumes "w \<noteq> 0"
  shows "decayRotation w speed f dt = 0 \<or> sgn (decayRotation w speed f dt) = sgn w"
proof -
  define r where "r = max 0 (\<bar>w\<bar> - (if speed \<le> SPEED_EPSILON then 1.4 else 0.7) * f * dt)"
  have d: "decayRotation w speed f dt = (if r = 0 then 0 else sgn w * r)"
    unfolding decayRotation_def Let_def r_def by (rule refl)
  have "0 \<le> r" by (simp add: r_def)
  then have "r = 0 \<or> sgn (sgn w * r) = sgn w"
    by (cases "r = 0") (simp_all add: sgn_mult)
  then show ?thesis unfolding d by auto
qed

lemma spinDecay_rate:
  "rotationRate (spinDecay c s dt) =
     (if rotationRate s \<noteq> 0
      then decayRotation (rotationRate s) (hypot (vx (velocity s)) (vy (velocity s)))
             (frictionAt c (hypot (vx (velocity s)) (vy (velocity s)))) dt
      else rotationRate s)"
  by (simp add: spinDecay_def Let_def advanceAngle_def)

lemma friction_nonneg:
  assumes "0 \<le> frictionBaseline c" "0 \<le> frictionSpeedFactor c" "0 < frictionLowSpeedEps c" "0 \<le> speed"
  shows "0 \<le> frictionAt c speed"
  using assms by (simp add: frictionAt_def)

lemma spinDecay_shrinks:
  assumes "0 \<le> dt" "0 \<le> frictionBaseline c" "0 \<le> frictionSpeedFactor c" "0 < frictionLowSpeedEps c"
  shows "\<bar>rotationRate (spinDecay c s dt)\<bar> \<le> \<bar>rotationRate s\<bar>"
proof (cases "rotationRate s = 0")
  case True
  then show ?thesis by (simp add: spinDecay_rate)
next
  case False
  define speed where "speed = hypot (vx (velocity s)) (vy (velocity s))"
  define m :: real where "m = (if speed \<le> SPEED_EPSILON then 1.4 else 0.7)"
  have f: "0 \<le> frictionAt c speed"
    using friction_nonneg[OF assms(2,3,4)] hypot_nonneg by (simp add: speed_def)
  have "0 \<le> m" by (simp add: m_def)
  with f assms(1) have "0 \<le> m * frictionAt c speed * dt" by simp
  then have "max 0 (\<bar>rotationRate s\<bar> - m * frictionAt c speed * dt) \<le> \<bar>rotationRate s\<bar>" by simp
  then show ?thesis
    using False decay_formula[OF False, of speed "frictionAt c speed" dt]
    by (simp add: spinDecay_rate speed_def m_def)
qed

lemma activation_latched: "rotationActivated s \<Longrightarrow> checkRotationActivation s p a = s"
  by (simp add: checkRotationActivation_def)

lemma stepStone_rate:
  assumes "stepStone dt actY s (e, am) = Some (s', e', am')" and "isLaunched s" and "rotationActivated s"
  shows "rotationRate s' = rotationRate (spinDecay (cfg e) s dt) \<or> rotationRate s' = 0"
  using assms(1)
proof (cases rule: stepStone_cases)
  case idle
  with assms show ?thesis by simp
next
  case (spinning s4)
  with record_shape[OF spinning(3)] show ?thesis by (simp add: sameButPath_def)
next
  case (resting s4)
  with record_shape[OF resting(3)] settle_frame[OF resting(5)] assms(2) show ?thesis
    by (cases "isLaunched s'") (simp_all add: sameButPath_def spinDecay_frame)
next
  case (left s4 d v s5)
  with out_frame[OF left(6)] show ?thesis by simp
next
  case (sliding s4 d v s5 s8)
  have act: "rotationActivated (s5\<lparr>velocity := v\<rparr>)"
    using record_shape[OF sliding(4)] glide_frame[OF sliding(3)] assms(3)
    by (simp add: sameButPath_def spinDecay_frame)
  from hog_frame[OF sliding(6)[unfolded activation_latched[OF act]]]
    record_shape[OF sliding(4)] glide_frame[OF sliding(3)] sliding(8)
  show ?thesis by (simp add: sameButPath_def)
next
  case (halting s4 d v s5 s8 e1)
  have act: "rotationActivated (s5\<lparr>velocity := v\<rparr>)"
    using record_shape[OF halting(4)] glide_frame[OF halting(3)] assms(3)
    by (simp add: sameButPath_def spinDecay_frame)
  from hog_frame[OF halting(6)[unfolded activation_latched[OF act]]]
    record_shape[OF halting(4)] glide_frame[OF halting(3)]
  have r8: "rotationRate s8 = rotationRate (spinDecay (cfg e) s dt)" "isLaunched s8"
    using assms(2) by (simp_all add: sameButPath_def spinDecay_frame)
  with settle_frame[OF halting(9)] show ?thesis
    by (cases "isLaunched s'") simp_all
next
  case (pivoting s4 d v s5 s8)
  have act: "rotationActivated (s5\<lparr>velocity := v\<rparr>)"
    using record_shape[OF pivoting(4)] glide_frame[OF pivoting(3)] assms(3)
    by (simp add: sameButPath_def spinDecay_frame)
  from hog_frame[OF pivoting(6)[unfolded activation_latched[OF act]]]
    record_shape[OF pivoting(4)] glide_frame[OF pivoting(3)] pivoting(9)
  show ?thesis by (simp add: sameButPath_def)
qed

lemma stepStone_returns:
  assumes "0 < pathSampleInterval (cfg e)"
  obtains s' e' am' where "stepStone dt actY s (e, am) = Some (s', e', am')"
  using stepStone_total[OF assms, of dt actY s am] by (metis prod_cases3)

lemma demo_stone0:
  "hd (stones demoEngine) =
     \<lparr>position = \<lparr>px = - 2, py = - 40\<rparr>, velocity = \<lparr>vx = 0, vy = 0\<rparr>, rotationRate = 0, angle = 0,
      color = RED, hasStoppedNotified = True, pathSamples = [\<lparr>px = - 2, py = - 40\<rparr>],
      pathSampleTimer = 0, number = 1, isLaunched = False, isOut = False, pendingRotationRate = 0,
      rotationActivated = False, hogTiming = \<lparr>nearCrossedAt = None, farCrossedAt = None\<rparr>\<rparr>"
  by (simp add: demo_stones newStone_def attachTiming_def resetStonePath_def orDefault_def Let_def)

lemma spinningStone_fields:
  "position spinningStone = \<lparr>px = - 2, py = - 40\<rparr>" "velocity spinningStone = \<lparr>vx = 0, vy = 0\<rparr>"
  "rotationRate spinningStone = 1" "isLaunched spinningStone" "rotationActivated spinningStone"
  "pathSamples spinningStone = [\<lparr>px = - 2, py = - 40\<rparr>]" "pendingRotationRate spinningStone = 0"
  "hogTiming spinningStone = \<lparr>nearCrossedAt = None, farCrossedAt = None\<rparr>"
  by (simp_all add: spinningStone_def demo_stone0)

lemma demo_friction:
  "frictionBaseline (cfg demoEngine) = 0.0164" "frictionSpeedFactor (cfg demoEngine) = 0.1732"
  "frictionLowSpeedEps (cfg demoEngine) = 1" "pathSampleInterval (cfg demoEngine) = 1"
  "maxPathSamples (cfg demoEngine) = 240"
  by (simp_all add: demoEngine_cfg newPhysicsEngine_def orDefault_def demoArgs_def gameArgs_def
      DEFAULT_FRICTION_BASELINE_def DEFAULT_FRICTION_SPEED_FACTOR_def DEFAULT_FRICTION_LOW_SPEED_EPS_def
      DEFAULT_PATH_SAMPLE_INTERVAL_def MAX_PATH_SAMPLE_POINTS_def)

subsection \<open>The rewind of the collision resolver\<close>

lemma rewind_short_step: "dt \<le> SPEED_EPSILON \<Longrightarrow> rewindContact m dt k = k"
  by (simp add: rewindContact_def Let_def)

lemma rewindContact_cases:
  fixes m dt k
  defines "overlap \<equiv> max 0 (m - hypot (sepX k) (sepY k))"
  defines "t \<equiv> min (overlap / (- relVelAlongNormal k + 0.000001)) dt"
  defines "a \<equiv> rewindStone (stoneA k) t"
  defines "b \<equiv> rewindStone (stoneB k) t"
  defines "dx \<equiv> px (position b) - px (position a)"
  defines "dy \<equiv> py (position b) - py (position a)"
  shows "rewindContact m dt k =
     (if overlap > COLLISION_EPSILON \<and> relVelAlongNormal k < - SPEED_EPSILON \<and> dt \<noteq> 0 \<and> dt > SPEED_EPSILON
      then if t > 0
           then \<lparr>stoneA = a, stoneB = b, sepX = dx, sepY = dy,
                 normalX = (if hypot dx dy > COLLISION_EPSILON then dx / hypot dx dy else normalX k),
                 normalY = (if hypot dx dy > COLLISION_EPSILON then dy / hypot dx dy else normalY k),
                 relVelAlongNormal =
                   (vx (velocity a) - vx (velocity b))
                     * (if hypot dx dy > COLLISION_EPSILON then dx / hypot dx dy else normalX k)
                   + (vy (velocity a) - vy (velocity b))
                     * (if hypot dx dy > COLLISION_EPSILON then dy / hypot dx dy else normalY k),
                 rewindTime = t\<rparr>
           else k\<lparr>rewindTime := t\<rparr>
      else k)"
  unfolding rewindContact_def Let_def overlap_def t_def a_def b_def dx_def dy_def
  by (rule refl)

lemma rewind_computed:
  assumes r0: "rewindTime k = 0" and pos: "0 < rewindTime (rewindContact m dt k)"
  defines "t \<equiv> min ((m - hypot (sepX k) (sepY k)) / (\<bar>relVelAlongNormal k\<bar> + 0.000001)) dt"
  defines "k' \<equiv> rewindContact m dt k"
  shows "SPEED_EPSILON < dt \<and> COLLISION_EPSILON < m - hypot (sepX k) (sepY k)
     \<and> rewindTime k' = t \<and> 0 < t \<and> t \<le> dt
     \<and> position (stoneA k') = \<lparr>px = px (position (stoneA k)) - vx (velocity (stoneA k)) * t,
                                 py = py (position (stoneA k)) - vy (velocity (stoneA k)) * t\<rparr>
     \<and> position (stoneB k') = \<lparr>px = px (position (stoneB k)) - vx (velocity (stoneB k)) * t,
                                 py = py (position (stoneB k)) - vy (velocity (stoneB k)) * t\<rparr>
     \<and> velocity (stoneA k') = velocity (stoneA k) \<and> velocity (stoneB k') = velocity (stoneB k)
     \<and> sepX k' = px (position (stoneB k')) - px (position (stoneA k'))
     \<and> sepY k' = py (position (stoneB k')) - py (position (stoneA k'))
     \<and> normalX k' = (if hypot (sepX k') (sepY k') > COLLISION_EPSILON
                      then sepX k' / hypot (sepX k') (sepY k') else normalX k)
     \<and> normalY k' = (if hypot (sepX k') (sepY k') > COLLISION_EPSILON
                      then sepY k' / hypot (sepX k') (sepY k') else normalY k)
     \<and> relVelAlongNormal k' =
          (vx (velocity (stoneA k)) - vx (velocity (stoneB k))) * normalX k'
          + (vy (velocity (stoneA k)) - vy (velocity (stoneB k))) * normalY k'"
proof -
  define overlap where "overlap = max 0 (m - hypot (sepX k) (sepY k))"
  define t0 where "t0 = min (overlap / (- relVelAlongNormal k + 0.000001)) dt"
  define a where "a = rewindStone (stoneA k) t0"
  define b where "b = rewindStone (stoneB k) t0"
  define dx where "dx = px (position b) - px (position a)"
  define dy where "dy = py (position b) - py (position a)"
  note cs = rewindContact_cases[of m dt k, folded overlap_def, folded t0_def, folded a_def b_def,
      folded dx_def dy_def]
  have g: "overlap > COLLISION_EPSILON \<and> relVelAlongNormal k < - SPEED_EPSILON \<and> dt \<noteq> 0 \<and> dt > SPEED_EPSILON"
  proof (rule ccontr)
    assume ng: "\<not> ?thesis"
    have "rewindContact m dt k = k" by (simp only: cs ng if_False)
    with r0 pos show False by simp
  qed
  have tpos: "0 < t0"
  proof (rule ccontr)
    assume nt: "\<not> 0 < t0"
    have "rewindContact m dt k = k\<lparr>rewindTime := t0\<rparr>" by (simp only: cs g nt if_True if_False simp_thms)
    with pos nt show False by simp
  qed
  from g have ov: "overlap = m - hypot (sepX k) (sepY k)"
    by (simp add: overlap_def COLLISION_EPSILON_def max_def split: if_splits)
  from g have "\<bar>relVelAlongNormal k\<bar> = - relVelAlongNormal k" by (simp add: SPEED_EPSILON_def)
  with ov have tt: "t = t0" by (simp add: t_def t0_def)
  have k': "k' = \<lparr>stoneA = a, stoneB = b, sepX = dx, sepY = dy,
                 normalX = (if hypot dx dy > COLLISION_EPSILON then dx / hypot dx dy else normalX k),
                 normalY = (if hypot dx dy > COLLISION_EPSILON then dy / hypot dx dy else normalY k),
                 relVelAlongNormal =
                   (vx (velocity a) - vx (velocity b))
                     * (if hypot dx dy > COLLISION_EPSILON then dx / hypot dx dy else normalX k)
                   + (vy (velocity a) - vy (velocity b))
                     * (if hypot dx dy > COLLISION_EPSILON then dy / hypot dx dy else normalY k),
                 rewindTime = t0\<rparr>"
    unfolding k'_def by (simp only: cs g tpos if_True simp_thms)
  have pa: "position a = \<lparr>px = px (position (stoneA k)) - vx (velocity (stoneA k)) * t0,
                          py = py (position (stoneA k)) - vy (velocity (stoneA k)) * t0\<rparr>"
    "velocity a = velocity (stoneA k)"
    using tpos by (simp_all add: a_def rewindStone_def)
  have pb: "position b = \<lparr>px = px (position (stoneB k)) - vx (velocity (stoneB k)) * t0,
                          py = py (position (stoneB k)) - vy (velocity (stoneB k)) * t0\<rparr>"
    "velocity b = velocity (stoneB k)"
    using tpos by (simp_all add: b_def rewindStone_def)
  have "t0 \<le> dt" by (simp add: t0_def)
  with g tpos ov show ?thesis
    unfolding tt by (simp add: k' pa pb dx_def dy_def)
qed

lemma stoneAt_fields:
  "position (stoneAt x0 y0 a b) = \<lparr>px = x0, py = y0\<rparr>" "velocity (stoneAt x0 y0 a b) = \<lparr>vx = a, vy = b\<rparr>"
  "isLaunched (stoneAt x0 y0 a b)" "\<not> isOut (stoneAt x0 y0 a b)" "rotationRate (stoneAt x0 y0 a b) = 0"
  "pendingRotationRate (stoneAt x0 y0 a b) = 0" "\<not> rotationActivated (stoneAt x0 y0 a b)"
  "hogTiming (stoneAt x0 y0 a b) = \<lparr>nearCrossedAt = None, farCrossedAt = None\<rparr>"
  "pathSamples (stoneAt x0 y0 a b) = [\<lparr>px = - 2, py = - 40\<rparr>]" "pathSampleTimer (stoneAt x0 y0 a b) = 0"
  by (simp_all add: stoneAt_def demo_stone0)

lemma initialContact_fields:
  assumes "initialContact m a b = Some k"
  shows "rewindTime k = 0 \<and> stoneA k = a \<and> stoneB k = b
     \<and> sepX k = px (position b) - px (position a) \<and> sepY k = py (position b) - py (position a)"
  using assms by (auto simp: initialContact_def Let_def split: if_splits)

lemma rewind_as_coded:
  assumes "COLLISION_EPSILON < m - hypot (sepX k) (sepY k)" and "relVelAlongNormal k < - SPEED_EPSILON"
    and "SPEED_EPSILON < dt"
  shows "rewindTime (rewindContact m dt k)
           = min ((m - hypot (sepX k) (sepY k)) / (- relVelAlongNormal k + 0.000001)) dt
         \<and> 0 < rewindTime (rewindContact m dt k)"
proof -
  have ov: "max 0 (m - hypot (sepX k) (sepY k)) = m - hypot (sepX k) (sepY k)"
    using assms(1) by (simp add: COLLISION_EPSILON_def)
  have d0: "dt \<noteq> 0" "0 < dt" using assms(3) by (simp_all add: SPEED_EPSILON_def)
  have "0 < - relVelAlongNormal k + 0.000001" using assms(2) by (simp add: SPEED_EPSILON_def)
  moreover have "0 < m - hypot (sepX k) (sepY k)" using assms(1) by (simp add: COLLISION_EPSILON_def)
  ultimately have "0 < (m - hypot (sepX k) (sepY k)) / (- relVelAlongNormal k + 0.000001)"
    by (rule divide_pos_pos[rotated])
  with d0 have tpos: "0 < min ((m - hypot (sepX k) (sepY k)) / (- relVelAlongNormal k + 0.000001)) dt"
    by simp
  show ?thesis
    by (subst (1 2) rewindContact_cases) (simp only: ov assms d0 tpos if_True simp_thms contact.simps)
qed

lemma initialContact_normal:
  assumes "initialContact m a b = Some k"
  shows "relVelAlongNormal k =
           (vx (velocity a) - vx (velocity b)) * normalX k
           + (vy (velocity a) - vy (velocity b)) * normalY k"
    and "COLLISION_EPSILON < hypot (sepX k) (sepY k) \<Longrightarrow>
           normalX k = sepX k / hypot (sepX k) (sepY k) \<and> normalY k = sepY k / hypot (sepX k) (sepY k)"
    and "COLLISION_EPSILON < hypot (sepX k) (sepY k) \<Longrightarrow>
           relVelAlongNormal k * hypot (sepX k) (sepY k) =
             (vx (velocity a) - vx (velocity b)) * (px (position b) - px (position a))
             + (vy (velocity a) - vy (velocity b)) * (py (position b) - py (position a))"
proof -
  define d where "d = hypot (px (position b) - px (position a)) (py (position b) - py (position a))"
  from assms have k: "k = \<lparr>stoneA = a, stoneB = b, sepX = px (position b) - px (position a),
        sepY = py (position b) - py (position a),
        normalX = (if d > COLLISION_EPSILON then (px (position b) - px (position a)) / d else 1),
        normalY = (if d > COLLISION_EPSILON then (py (position b) - py (position a)) / d else 0),
        relVelAlongNormal =
          (vx (velocity a) - vx (velocity b))
            * (if d > COLLISION_EPSILON then (px (position b) - px (position a)) / d else 1)
          + (vy (velocity a) - vy (velocity b))
            * (if d > COLLISION_EPSILON then (py (position b) - py (position a)) / d else 0),
        rewindTime = 0\<rparr>"
    unfolding initialContact_def Let_def d_def by (simp split: if_splits)
  show "relVelAlongNormal k =
           (vx (velocity a) - vx (velocity b)) * normalX k
           + (vy (velocity a) - vy (velocity b)) * normalY k"
    by (simp add: k)
  have dk: "hypot (sepX k) (sepY k) = d" by (simp add: k d_def)
  {
    assume c: "COLLISION_EPSILON < hypot (sepX k) (sepY k)"
    then have dd: "COLLISION_EPSILON < d" "d \<noteq> 0" unfolding dk by (simp_all add: COLLISION_EPSILON_def)
    show "normalX k = sepX k / hypot (sepX k) (sepY k) \<and> normalY k = sepY k / hypot (sepX k) (sepY k)"
      unfolding dk using dd by (simp add: k)
    show "relVelAlongNormal k * hypot (sepX k) (sepY k) =
             (vx (velocity a) - vx (velocity b)) * (px (position b) - px (position a))
             + (vy (velocity a) - vy (velocity b)) * (py (position b) - py (position a))"
      unfolding dk using dd by (simp add: k field_simps)
  }
qed

lemma rewind_skipped:
  assumes "\<not> (COLLISION_EPSILON < m - hypot (sepX k) (sepY k)
              \<and> relVelAlongNormal k < - SPEED_EPSILON \<and> SPEED_EPSILON < dt)"
  shows "rewindContact m dt k = k"
proof -
  have "\<not> (max 0 (m - hypot (sepX k) (sepY k)) > COLLISION_EPSILON
          \<and> relVelAlongNormal k < - SPEED_EPSILON \<and> dt \<noteq> 0 \<and> dt > SPEED_EPSILON)"
    using assms by (auto simp: COLLISION_EPSILON_def max_def split: if_splits)
  then show ?thesis by (subst rewindContact_cases) (simp only: if_False)
qed

lemma rewind_iff:
  assumes "rewindTime k = 0"
  shows "(0 < rewindTime (rewindContact m dt k))
       = (COLLISION_EPSILON < m - hypot (sepX k) (sepY k)
          \<and> relVelAlongNormal k < - SPEED_EPSILON \<and> SPEED_EPSILON < dt)"
proof
  assume pos: "0 < rewindTime (rewindContact m dt k)"
  show "COLLISION_EPSILON < m - hypot (sepX k) (sepY k)
          \<and> relVelAlongNormal k < - SPEED_EPSILON \<and> SPEED_EPSILON < dt"
  proof (rule ccontr)
    assume "\<not> ?thesis"
    from rewind_skipped[OF this] assms pos show False by simp
  qed
next
  assume "COLLISION_EPSILON < m - hypot (sepX k) (sepY k)
          \<and> relVelAlongNormal k < - SPEED_EPSILON \<and> SPEED_EPSILON < dt"
  then show "0 < rewindTime (rewindContact m dt k)"
    using rewind_as_coded[of m k dt] by blast
qed

subsection \<open>A sliding stone, evaluated\<close>

lemma slidingStone_fields:
  "position (slidingStone y0) = \<lparr>px = 0, py = y0\<rparr>" "velocity (slidingStone y0) = \<lparr>vx = 0, vy = 2\<rparr>"
  "isLaunched (slidingStone y0)" "\<not> isOut (slidingStone y0)" "rotationRate (slidingStone y0) = 0"
  "pendingRotationRate (slidingStone y0) = 1.5" "\<not> rotationActivated (slidingStone y0)"
  "hogTiming (slidingStone y0) = \<lparr>nearCrossedAt = None, farCrossedAt = None\<rparr>"
  "pathSamples (slidingStone y0) = [\<lparr>px = 0, py = y0\<rparr>]" "pathSampleTimer (slidingStone y0) = 0"
  "color (slidingStone y0) = RED" "number (slidingStone y0) = 1"
  by (simp_all add: slidingStone_def stoneAt_def demo_stone0)

lemma spinDecay_still: "rotationRate s = 0 \<Longrightarrow> spinDecay c s dt = advanceAngle s dt"
  by (simp add: spinDecay_def Let_def advanceAngle_def)

lemma advanceAngle_still: "rotationRate s = 0 \<Longrightarrow> angle s = 0 \<Longrightarrow> advanceAngle s dt = s"
proof -
  have "\<not> pi \<le> 0" using pi_gt_zero by linarith
  moreover assume "rotationRate s = 0" "angle s = 0"
  ultimately show ?thesis by (simp add: advanceAngle_def Let_def TWO_PI_def)
qed

lemma slidingStone_angle: "angle (slidingStone y0) = 0"
  by (simp add: slidingStone_def stoneAt_def demo_stone0)

lemma demo_sheet:
  "sheetExtents (cfg demoEngine) = Some \<lparr>xMin = - 2.3749, xMax = 2.3749, yMin = - 40.2336, yMax = 5.4864\<rparr>"
  "backLineY (cfg demoEngine) = Some 1.8288"
  by (simp_all add: demoEngine_cfg newPhysicsEngine_def demoArgs_def gameArgs_def)

lemma samplePathLoop_idle: "pathSampleTimer s < pathSampleInterval c \<Longrightarrow> samplePathLoop c s = Some s"
  by (subst samplePathLoop.simps) simp

lemma record_moving_idle:
  "0 < d \<Longrightarrow> 0 < dt \<Longrightarrow> pathSampleTimer s + dt < pathSampleInterval c \<Longrightarrow>
   recordStonePathSample c s dt d = Some (s\<lparr>pathSampleTimer := pathSampleTimer s + dt\<rparr>)"
  by (simp add: recordStonePathSample_def samplePathLoop_idle)

lemma gliding_step:
  assumes c: "cfg e = cfg demoEngine" and y: "y0 < 1.9" and dt: "dt = 0.03"
    and f: "position s = \<lparr>px = 0, py = y0\<rparr>" "velocity s = \<lparr>vx = 0, vy = 2\<rparr>" "isLaunched s"
      "rotationRate s = 0" "angle s = 0" "pathSampleTimer s = 0"
  obtains s' e' where "stepStone dt actY s (e, am) = Some (s', e', True)"
    "isLaunched s'" "position s' = \<lparr>px = 0, py = y0 + 0.05996664\<rparr>"
    "velocity s' = \<lparr>vx = 0, vy = 1.997776\<rparr>"
    "checkHogLineCrossings
       (checkRotationActivation
          (s\<lparr>hasStoppedNotified := False,
              position := \<lparr>px = 0, py = y0 + 0.05996664\<rparr>,
              pathSampleTimer := 0.03,
              velocity := \<lparr>vx = 0, vy = 1.997776\<rparr>\<rparr>) y0 actY) y0 e = (s', e')"
proof -
  define s4 where "s4 = s\<lparr>hasStoppedNotified := False, position := \<lparr>px = 0, py = y0 + 0.05996664\<rparr>\<rparr>"
  define s6 where "s6 = s\<lparr>hasStoppedNotified := False,
                          position := \<lparr>px = 0, py = y0 + 0.05996664\<rparr>,
                          pathSampleTimer := 0.03,
                          velocity := \<lparr>vx = 0, vy = 1.997776\<rparr>\<rparr>"
  have dec: "spinDecay (cfg demoEngine) s dt = s"
    by (simp add: spinDecay_still advanceAngle_still f)
  have c0: "computeCurlHeadingDelta (cfg demoEngine) (s\<lparr>hasStoppedNotified := False\<rparr>) sp d dto = 0"
    for sp d dto
    by (subst curl_cases) (simp add: f)
  have fr: "frictionAt (cfg demoEngine) 2 = 0.2224 / 3"
    by (simp add: frictionAt_def demo_friction)
  have g: "glide (cfg demoEngine) dt s = (s4, 0.05996664, \<lparr>vx = 0, vy = 1.997776\<rparr>)"
    unfolding s4_def by (simp add: glide_def Let_def f hypot_zero_left c0 fr dt)
  have rec: "recordStonePathSample (cfg demoEngine) s4 dt 0.05996664
      = Some (s4\<lparr>pathSampleTimer := pathSampleTimer s4 + dt\<rparr>)"
    by (rule record_moving_idle) (simp_all add: s4_def f demo_friction dt)
  have s46: "(s4\<lparr>pathSampleTimer := pathSampleTimer s4 + dt\<rparr>)\<lparr>velocity := \<lparr>vx = 0, vy = 1.997776\<rparr>\<rparr> = s6"
    by (simp add: s4_def s6_def f dt)
  have inb: "\<not> isOutOfBounds (cfg demoEngine) s6"
    using y by (simp add: isOutOfBounds_def demo_sheet demo_cfg_values s6_def Let_def)
  obtain s8 e1 where h: "checkHogLineCrossings (checkRotationActivation s6 y0 actY) y0 e = (s8, e1)"
    by (cases "checkHogLineCrossings (checkRotationActivation s6 y0 actY) y0 e") auto
  from hog_frame[OF h] have f8: "isLaunched s8" "position s8 = \<lparr>px = 0, py = y0 + 0.05996664\<rparr>"
    "velocity s8 = \<lparr>vx = 0, vy = 1.997776\<rparr>"
    by (simp_all add: activation_frame s6_def f)
  have sp: "\<not> hypot (vx (velocity s)) (vy (velocity s)) \<le> SPEED_EPSILON"
    by (simp add: f hypot_zero_left SPEED_EPSILON_def)
  have sp8: "hypot (vx (velocity s8)) (vy (velocity s8)) > SPEED_EPSILON"
    by (simp add: f8 hypot_zero_left SPEED_EPSILON_def)
  have "stepStone dt actY s (e, am) = Some (s8, e1, True)"
    unfolding stepStone_def Let_def prod.case c dec
    apply (simp only: f sp g rec s46 inb h sp8 if_True if_False simp_thms
        prod.case bind.bind_lunit point.simps)
    apply (simp add: hypot_zero_left SPEED_EPSILON_def h f8)
    done
  from this f8 h show ?thesis unfolding s6_def by (rule that)
qed

subsection \<open>Latches of a throw\<close>

lemma latched_refl: "latched s s"
  by (simp add: latched_def)

lemma latched_trans: "latched s s' \<Longrightarrow> latched s' s'' \<Longrightarrow> latched s s''"
  by (auto simp: latched_def)

lemma sameButMotion_latched: "sameButMotion s s' \<Longrightarrow> latched s s'"
  by (simp add: sameButMotion_def latched_def)

lemma sameButPath_latched: "sameButPath s s' \<Longrightarrow> latched s s'"
  by (simp add: sameButPath_def latched_def)

lemma hogNear_latched: "checkHogNear s p e = (s', e') \<Longrightarrow> latched s s'"
  by (auto simp: checkHogNear_def latched_def performance_now_def Let_def split: if_splits prod.splits)

lemma hogFar_latched: "checkHogFar s p e = (s', e') \<Longrightarrow> latched s s'"
  by (auto simp: checkHogFar_def latched_def performance_now_def Let_def
           split: if_splits prod.splits option.splits)

lemma hog_latched:
  assumes "checkHogLineCrossings s p e = (s', e')"
  shows "latched s s'"
proof -
  obtain s1 e1 where n: "checkHogNear s p e = (s1, e1)" by (cases "checkHogNear s p e")
  with assms have f: "checkHogFar s1 p e1 = (s', e')" by (simp add: checkHogLineCrossings_def)
  from hogNear_latched[OF n] hogFar_latched[OF f] show ?thesis by (rule latched_trans)
qed

lemma activation_latched': "latched s (checkRotationActivation s p a)"
  by (simp add: checkRotationActivation_def latched_def Let_def)

lemma settle_latched:
  assumes "settleStone s e = (s', e')" and "isLaunched s"
  shows "latched s s'"
  using settle_frame[OF assms(1)] assms(2)
  by (cases "isLaunched s'") (simp_all add: latched_def)

lemma out_latched: "handleStoneOut s e = (s', e') \<Longrightarrow> latched s s'"
  using out_frame[of s e s' e'] by (simp add: latched_def)

lemma spinDecay_latched: "latched s (spinDecay c s dt)"
  by (simp add: latched_def spinDecay_frame)

lemma upd_latched:
  "latched s (s\<lparr>velocity := v\<rparr>)" "latched s (s\<lparr>hasStoppedNotified := b\<rparr>)"
  by (simp_all add: latched_def)

lemma glide_latched: "glide c dt s = (s4, d, v) \<Longrightarrow> latched s s4"
  using glide_frame[of c dt s s4 d v] by (simp add: latched_def)

lemma record_latched: "recordStonePathSample c s dt d = Some s' \<Longrightarrow> latched s s'"
  using record_shape[of c s dt d s'] by (simp add: sameButPath_latched)

lemma stepStone_latched:
  assumes "stepStone dt actY s (e, am) = Some (s', e', am')"
  shows "latched s s'"
  using assms
proof (cases rule: stepStone_cases)
  case idle
  then show ?thesis by (simp add: latched_refl)
next
  case (spinning s4)
  note [trans] = latched_trans
  have "latched s (spinDecay (cfg e) s dt)" by (rule spinDecay_latched)
  also have "latched \<dots> (spinDecay (cfg e) s dt\<lparr>velocity := \<lparr>vx = 0, vy = 0\<rparr>\<rparr>)" by (rule upd_latched)
  also have "latched \<dots> s4" by (rule record_latched[OF spinning(3)])
  also have "latched \<dots> s'" unfolding spinning(5) by (rule upd_latched)
  finally show ?thesis .
next
  case (resting s4)
  note [trans] = latched_trans
  have l4: "isLaunched s4" using record_shape[OF resting(3)] resting(1)
    by (simp add: sameButPath_def spinDecay_frame)
  have "latched s (spinDecay (cfg e) s dt)" by (rule spinDecay_latched)
  also have "latched \<dots> (spinDecay (cfg e) s dt\<lparr>velocity := \<lparr>vx = 0, vy = 0\<rparr>\<rparr>)" by (rule upd_latched)
  also have "latched \<dots> s4" by (rule record_latched[OF resting(3)])
  also have "latched \<dots> s'" by (rule settle_latched[OF resting(5) l4])
  finally show ?thesis .
next
  case (left s4 d v s5)
  note [trans] = latched_trans
  have "latched s (spinDecay (cfg e) s dt)" by (rule spinDecay_latched)
  also have "latched \<dots> s4" by (rule glide_latched[OF left(3)])
  also have "latched \<dots> s5" by (rule record_latched[OF left(4)])
  also have "latched \<dots> (s5\<lparr>velocity := v\<rparr>)" by (rule upd_latched)
  also have "latched \<dots> s'" by (rule out_latched[OF left(6)])
  finally show ?thesis .
next
  case (sliding s4 d v s5 s8)
  note [trans] = latched_trans
  have "latched s (spinDecay (cfg e) s dt)" by (rule spinDecay_latched)
  also have "latched \<dots> s4" by (rule glide_latched[OF sliding(3)])
  also have "latched \<dots> s5" by (rule record_latched[OF sliding(4)])
  also have "latched \<dots> (s5\<lparr>velocity := v\<rparr>)" by (rule upd_latched)
  also have "latched \<dots> (checkRotationActivation (s5\<lparr>velocity := v\<rparr>) (py (position s)) actY)"
    by (rule activation_latched')
  also have "latched \<dots> s8" by (rule hog_latched[OF sliding(6)])
  finally show ?thesis unfolding sliding(8) .
next
  case (halting s4 d v s5 s8 e1)
  note [trans] = latched_trans
  have l8: "isLaunched (s8\<lparr>velocity := \<lparr>vx = 0, vy = 0\<rparr>\<rparr>)"
    using hog_frame[OF halting(6)] record_shape[OF halting(4)] glide_frame[OF halting(3)] halting(1)
    by (simp add: activation_frame sameButPath_def spinDecay_frame)
  have "latched s (spinDecay (cfg e) s dt)" by (rule spinDecay_latched)
  also have "latched \<dots> s4" by (rule glide_latched[OF halting(3)])
  also have "latched \<dots> s5" by (rule record_latched[OF halting(4)])
  also have "latched \<dots> (s5\<lparr>velocity := v\<rparr>)" by (rule upd_latched)
  also have "latched \<dots> (checkRotationActivation (s5\<lparr>velocity := v\<rparr>) (py (position s)) actY)"
    by (rule activation_latched')
  also have "latched \<dots> s8" by (rule hog_latched[OF halting(6)])
  also have "latched \<dots> (s8\<lparr>velocity := \<lparr>vx = 0, vy = 0\<rparr>\<rparr>)" by (rule upd_latched)
  also have "latched \<dots> s'" by (rule settle_latched[OF halting(9) l8])
  finally show ?thesis .
next
  case (pivoting s4 d v s5 s8)
  note [trans] = latched_trans
  have "latched s (spinDecay (cfg e) s dt)" by (rule spinDecay_latched)
  also have "latched \<dots> s4" by (rule glide_latched[OF pivoting(3)])
  also have "latched \<dots> s5" by (rule record_latched[OF pivoting(4)])
  also have "latched \<dots> (s5\<lparr>velocity := v\<rparr>)" by (rule upd_latched)
  also have "latched \<dots> (checkRotationActivation (s5\<lparr>velocity := v\<rparr>) (py (position s)) actY)"
    by (rule activation_latched')
  also have "latched \<dots> s8" by (rule hog_latched[OF pivoting(6)])
  also have "latched \<dots> s'" unfolding pivoting(9) by (rule upd_latched)
  finally show ?thesis .
qed

lemma stepStones_latched:
  assumes "stepStones dt actY ss (e, am) = Some (ss', e', am')"
  shows "list_all2 latched ss ss'"
  using assms
proof (induction ss arbitrary: e am ss' e' am')
  case Nil then show ?case by simp
next
  case (Cons s ss)
  from Cons.prems obtain s1 e1 m1 ss1 where
    a: "stepStone dt actY s (e, am) = Some (s1, e1, m1)"
    and b: "stepStones dt actY ss (e1, m1) = Some (ss1, e', am')" and c: "ss' = s1 # ss1"
    by (auto simp: Option.bind_eq_Some_conv)
  from stepStone_latched[OF a] Cons.IH[OF b] c show ?case by simp
qed

lemma step_latched:
  assumes "step dt e = Some e'"
  shows "list_all2 latched (stones e) (stones e')"
  using assms
proof (cases rule: step_stones)
  case (1 ss e1 m)
  have "list_all2 latched ss (stones e')"
    unfolding 1(2) using resolveCollisions_frame[of ss "cfg e" dt]
    by (rule list_all2_mono) (rule sameButMotion_latched)
  with stepStones_latched[OF 1(1)] show ?thesis
    by (rule list_all2_trans[rotated 1]) (rule latched_trans)
qed

subsection \<open>Spin activation\<close>

lemma activation_effect:
  assumes "\<not> rotationActivated s" and "pendingRotationRate s \<noteq> 0"
  shows "checkRotationActivation s previousY activationY =
     (if (previousY < activationY \<and> py (position s) \<ge> activationY)
         \<or> (previousY > activationY \<and> py (position s) \<le> activationY)
         \<or> py (position s) = activationY
      then s\<lparr>rotationRate := pendingRotationRate s, pendingRotationRate := 0,
             rotationActivated := True\<rparr>
      else s)"
  using assms by (simp add: checkRotationActivation_def crossesLine_def Let_def)

lemma activation_none: "pendingRotationRate s = 0 \<Longrightarrow> checkRotationActivation s p a = s"
  by (simp add: checkRotationActivation_def)

lemma stepStone_activation:
  assumes st: "stepStone dt actY s (e, am) = Some (s', e', am')"
    and l: "isLaunched s" and na: "\<not> rotationActivated s" and r0: "rotationRate s = 0"
    and l': "isLaunched s'"
  shows "if SPEED_EPSILON < hypot (vx (velocity s)) (vy (velocity s)) \<and> pendingRotationRate s \<noteq> 0
            \<and> ((py (position s) < actY \<and> py (position s') \<ge> actY)
                \<or> (py (position s) > actY \<and> py (position s') \<le> actY)
                \<or> py (position s') = actY)
         then rotationRate s' = pendingRotationRate s \<and> pendingRotationRate s' = 0
              \<and> rotationActivated s'
         else rotationRate s' = 0 \<and> pendingRotationRate s' = pendingRotationRate s
              \<and> \<not> rotationActivated s'"
proof -
  have d0: "rotationRate (spinDecay (cfg e) s dt) = 0" using r0 by (simp add: spinDecay_rate)
  have moved: "checkHogLineCrossings (checkRotationActivation (s5\<lparr>velocity := v\<rparr>) (py (position s)) actY) (py (position s)) e = (s8, e1)
     \<Longrightarrow> glide (cfg e) dt (spinDecay (cfg e) s dt) = (s4, d, v)
     \<Longrightarrow> recordStonePathSample (cfg e) s4 dt d = Some s5
     \<Longrightarrow> if pendingRotationRate s \<noteq> 0
            \<and> ((py (position s) < actY \<and> py (position s8) \<ge> actY)
                \<or> (py (position s) > actY \<and> py (position s8) \<le> actY)
                \<or> py (position s8) = actY)
         then rotationRate s8 = pendingRotationRate s \<and> pendingRotationRate s8 = 0
              \<and> rotationActivated s8
         else rotationRate s8 = 0 \<and> pendingRotationRate s8 = pendingRotationRate s
              \<and> \<not> rotationActivated s8" for s4 d v s5 s8 e1
  proof -
    assume h: "checkHogLineCrossings (checkRotationActivation (s5\<lparr>velocity := v\<rparr>) (py (position s)) actY) (py (position s)) e = (s8, e1)"
      and g: "glide (cfg e) dt (spinDecay (cfg e) s dt) = (s4, d, v)"
      and rec: "recordStonePathSample (cfg e) s4 dt d = Some s5"
    define s6 where "s6 = s5\<lparr>velocity := v\<rparr>"
    have f6: "rotationRate s6 = 0" "pendingRotationRate s6 = pendingRotationRate s"
      "\<not> rotationActivated s6"
      using record_shape[OF rec] glide_frame[OF g] d0 na
      by (simp_all add: s6_def sameButPath_def spinDecay_frame)
    note hf = hog_frame[OF h[folded s6_def]]
    show ?thesis
    proof (cases "pendingRotationRate s = 0")
      case True
      with f6 hf show ?thesis by (simp add: activation_none)
    next
      case False
      with f6 have p6: "pendingRotationRate s6 \<noteq> 0" by simp
      from hf have pos: "position s8 = position s6" by (simp add: activation_frame)
      show ?thesis
        using hf False f6 unfolding activation_effect[OF f6(3) p6] pos
        by (simp split: if_splits)
    qed
  qed
  from st show ?thesis
  proof (cases rule: stepStone_cases)
    case idle
    with l show ?thesis by simp
  next
    case (spinning s4)
    with d0 show ?thesis by (simp add: SPEED_EPSILON_def)
  next
    case (resting s4)
    from settle_frame[OF resting(5)] l' record_shape[OF resting(3)] d0 na resting(2)
    show ?thesis by (simp add: sameButPath_def spinDecay_frame)
  next
    case (left s4 d v s5)
    from out_frame[OF left(6)] l' show ?thesis by simp
  next
    case (sliding s4 d v s5 s8)
    from moved[OF sliding(6) sliding(3) sliding(4)] sliding(2,8) show ?thesis by simp
  next
    case (halting s4 d v s5 s8 e1)
    from settle_frame[OF halting(9)] l'
    have "rotationRate s' = rotationRate s8" "pendingRotationRate s' = pendingRotationRate s8"
      "rotationActivated s' = rotationActivated s8" "position s' = position s8" by simp_all
    with moved[OF halting(6) halting(3) halting(4)] halting(2) show ?thesis by simp
  next
    case (pivoting s4 d v s5 s8)
    with d0 show ?thesis by (simp add: SPEED_EPSILON_def)
  qed
qed

lemma list_all2_nthD2: "list_all2 P xs ys \<Longrightarrow> i < length xs \<Longrightarrow> P (xs ! i) (ys ! i)"
  by (simp add: list_all2_conv_all_nth)

lemma slidingStone_moved:
  assumes "cfg e = cfg demoEngine" and "y0 < 1.9" and "dt = 0.03"
  obtains s' e' where "stepStone dt actY (slidingStone y0) (e, am) = Some (s', e', True)"
    "isLaunched s'" "position s' = \<lparr>px = 0, py = y0 + 0.05996664\<rparr>"
    "velocity s' = \<lparr>vx = 0, vy = 1.997776\<rparr>"
    "checkHogLineCrossings
       (checkRotationActivation
          ((slidingStone y0)\<lparr>hasStoppedNotified := False,
                              position := \<lparr>px = 0, py = y0 + 0.05996664\<rparr>,
                              pathSampleTimer := 0.03,
                              velocity := \<lparr>vx = 0, vy = 1.997776\<rparr>\<rparr>) y0 actY) y0 e = (s', e')"
  using assms
  by (rule gliding_step[where s = "slidingStone y0" and actY = actY and am = am])
     (simp_all add: slidingStone_fields slidingStone_angle)

subsection \<open>Hog-line timing\<close>

lemma hogNear_effect:
  assumes "checkHogNear s p e = (s1, e1)"
  shows "nearCrossedAt (hogTiming s1) =
           (if nearCrossedAt (hogTiming s) = None \<and> crossesHog p (py (position s)) (hogLineNear (cfg e))
            then Some (clock e (clockReads e)) else nearCrossedAt (hogTiming s))"
    and "farCrossedAt (hogTiming s1) = farCrossedAt (hogTiming s)"
    and "position s1 = position s" and "cfg e1 = cfg e" and "clock e1 = clock e"
    and "clockReads e1 = clockReads e +
           (if nearCrossedAt (hogTiming s) = None \<and> crossesHog p (py (position s)) (hogLineNear (cfg e))
            then 1 else 0)"
    and "events e1 = events e @
           (if nearCrossedAt (hogTiming s) = None \<and> crossesHog p (py (position s)) (hogLineNear (cfg e))
               \<and> onHogNearCross (cfg e)
            then [HogNearCross] else [])"
  using assms
  by (auto simp: checkHogNear_def performance_now_def notify_def Let_def split: if_splits)

lemma hogFar_effect:
  assumes "checkHogFar s p e = (s1, e1)"
  shows "nearCrossedAt (hogTiming s1) = nearCrossedAt (hogTiming s)"
    and "farCrossedAt (hogTiming s1) =
           (if nearCrossedAt (hogTiming s) \<noteq> None \<and> farCrossedAt (hogTiming s) = None
               \<and> crossesHog p (py (position s)) (hogLineFar (cfg e))
            then Some (clock e (clockReads e)) else farCrossedAt (hogTiming s))"
    and "position s1 = position s" and "cfg e1 = cfg e" and "clock e1 = clock e"
    and "clockReads e1 = clockReads e +
           (if nearCrossedAt (hogTiming s) \<noteq> None \<and> farCrossedAt (hogTiming s) = None
               \<and> crossesHog p (py (position s)) (hogLineFar (cfg e))
            then 1 else 0)"
    and "events e1 = events e @
           (if nearCrossedAt (hogTiming s) \<noteq> None \<and> farCrossedAt (hogTiming s) = None
               \<and> crossesHog p (py (position s)) (hogLineFar (cfg e)) \<and> onHogSplit (cfg e)
            then [HogSplit (clock e (clockReads e) - the (nearCrossedAt (hogTiming s)))] else [])"
  using assms
  by (auto simp: checkHogFar_def performance_now_def notify_def Let_def
           split: if_splits option.splits)

lemma hog_effect:
  assumes h: "checkHogLineCrossings s p e = (s', e')"
  defines "n \<equiv> nearCrossedAt (hogTiming s) = None \<and> crossesHog p (py (position s)) (hogLineNear (cfg e))"
  defines "f \<equiv> (n \<or> nearCrossedAt (hogTiming s) \<noteq> None) \<and> farCrossedAt (hogTiming s) = None
                   \<and> crossesHog p (py (position s)) (hogLineFar (cfg e))"
  defines "t1 \<equiv> clock e (clockReads e)"
  defines "t2 \<equiv> clock e (clockReads e + (if n then 1 else 0))"
  shows "nearCrossedAt (hogTiming s') = (if n then Some t1 else nearCrossedAt (hogTiming s))"
    and "farCrossedAt (hogTiming s') = (if f then Some t2 else farCrossedAt (hogTiming s))"
    and "clockReads e' = clockReads e + (if n then 1 else 0) + (if f then 1 else 0)"
    and "events e' = events e @ (if n \<and> onHogNearCross (cfg e) then [HogNearCross] else [])
                       @ (if f \<and> onHogSplit (cfg e)
                          then [HogSplit (t2 - (if n then t1 else the (nearCrossedAt (hogTiming s))))]
                          else [])"
proof -
  obtain s1 e1 where a: "checkHogNear s p e = (s1, e1)" by (cases "checkHogNear s p e")
  with h have b: "checkHogFar s1 p e1 = (s', e')" by (simp add: checkHogLineCrossings_def)
  note na = hogNear_effect[OF a] and fa = hogFar_effect[OF b]
  show "nearCrossedAt (hogTiming s') = (if n then Some t1 else nearCrossedAt (hogTiming s))"
    unfolding fa(1) na(1) n_def t1_def by simp
  show "farCrossedAt (hogTiming s') = (if f then Some t2 else farCrossedAt (hogTiming s))"
    unfolding fa(2) na f_def n_def t2_def by auto
  show "clockReads e' = clockReads e + (if n then 1 else 0) + (if f then 1 else 0)"
    unfolding fa(6) na f_def n_def by auto
  show "events e' = events e @ (if n \<and> onHogNearCross (cfg e) then [HogNearCross] else [])
                       @ (if f \<and> onHogSplit (cfg e)
                          then [HogSplit (t2 - (if n then t1 else the (nearCrossedAt (hogTiming s))))]
                          else [])"
    unfolding fa(7) na f_def n_def t2_def t1_def by auto
qed

lemma log_append:
  assumes "events e' = events e @ evs"
  shows "nearCrossings e' = nearCrossings e + length (filter (\<lambda>v. v = HogNearCross) evs)"
    and "hogSplits e' = hogSplits e @ concat (map splitOf evs)"
  using assms by (simp_all add: nearCrossings_def hogSplits_def)

lemma out_log:
  assumes "handleStoneOut s e = (s', e')"
  shows "nearCrossings e' = nearCrossings e \<and> hogSplits e' = hogSplits e"
proof -
  obtain s2 e1 where p: "placeStoneInOutTray (s\<lparr>velocity := \<lparr>vx = 0, vy = 0\<rparr>,
                 pendingRotationRate := 0, rotationRate := 0, rotationActivated := True,
                 angle := 0, isLaunched := False, isOut := True, hasStoppedNotified := True\<rparr>) e = (s2, e1)"
    by (cases "placeStoneInOutTray (s\<lparr>velocity := \<lparr>vx = 0, vy = 0\<rparr>,
                 pendingRotationRate := 0, rotationRate := 0, rotationActivated := True,
                 angle := 0, isLaunched := False, isOut := True, hasStoppedNotified := True\<rparr>) e")
  from place_frame[OF p] have ev: "events e1 = events e" by simp
  from assms p have "e' = notify (onStoneStopped (cfg e1)) (StoneStopped (color s2) (number s2)) e1"
    by (auto simp: handleStoneOut_def Let_def)
  then show ?thesis using ev by (simp add: notify_def nearCrossings_def hogSplits_def)
qed

lemma settle_log:
  assumes "settleStone s e = (s', e')"
  shows "nearCrossings e' = nearCrossings e \<and> hogSplits e' = hogSplits e"
proof (cases "isOutBeforeFarHog (cfg e) s")
  case True
  with assms have "handleStoneOut s e = (s', e')" by (simp add: settleStone_def)
  then show ?thesis by (rule out_log)
next
  case False
  with assms show ?thesis
    by (auto simp: settleStone_def nearCrossings_def hogSplits_def split: if_splits)
qed

lemma hog_log:
  assumes h: "checkHogLineCrossings s p e = (s', e')"
  shows "nearCrossings e' = nearCrossings e + (if newNear s s' \<and> onHogNearCross (cfg e) then 1 else 0)"
    and "hogSplits e' = hogSplits e @ (if newFar s s' \<and> onHogSplit (cfg e) then [splitTime s'] else [])"
proof -
  define n where "n \<longleftrightarrow> nearCrossedAt (hogTiming s) = None \<and> crossesHog p (py (position s)) (hogLineNear (cfg e))"
  define f where "f \<longleftrightarrow> (n \<or> nearCrossedAt (hogTiming s) \<noteq> None) \<and> farCrossedAt (hogTiming s) = None
                   \<and> crossesHog p (py (position s)) (hogLineFar (cfg e))"
  note he = hog_effect[OF h, folded n_def, folded f_def]
  have nn: "newNear s s' = n" unfolding newNear_def he(1) by (auto simp: n_def)
  have nf: "newFar s s' = f" unfolding newFar_def he(2) by (auto simp: f_def)
  have sp: "f \<Longrightarrow> splitTime s' = clock e (clockReads e + (if n then 1 else 0))
               - (if n then clock e (clockReads e) else the (nearCrossedAt (hogTiming s)))"
    unfolding splitTime_def he(1) he(2) by simp
  show "nearCrossings e' = nearCrossings e + (if newNear s s' \<and> onHogNearCross (cfg e) then 1 else 0)"
    unfolding log_append(1)[OF he(4)] nn by simp
  show "hogSplits e' = hogSplits e @ (if newFar s s' \<and> onHogSplit (cfg e) then [splitTime s'] else [])"
    unfolding log_append(2)[OF he(4)] nf using sp by simp
qed

lemma newNear_cong:
  "hogTiming a' = hogTiming a \<Longrightarrow> hogTiming b' = hogTiming b \<Longrightarrow> newNear a' b' = newNear a b"
  by (simp add: newNear_def)

lemma newFar_cong:
  "hogTiming a' = hogTiming a \<Longrightarrow> hogTiming b' = hogTiming b \<Longrightarrow> newFar a' b' = newFar a b"
  by (simp add: newFar_def)

lemma splitTime_cong: "hogTiming b' = hogTiming b \<Longrightarrow> splitTime b' = splitTime b"
  by (simp add: splitTime_def)

lemma same_timing:
  "hogTiming s' = hogTiming s \<Longrightarrow> \<not> newNear s s' \<and> \<not> newFar s s'"
  by (auto simp: newNear_def newFar_def)

lemma moved_timing:
  assumes g: "glide (cfg e) dt (spinDecay (cfg e) s dt) = (s4, d, v)"
    and rec: "recordStonePathSample (cfg e) s4 dt d = Some s5"
  shows "hogTiming (checkRotationActivation (s5\<lparr>velocity := v\<rparr>) p a) = hogTiming s"
    and "position (checkRotationActivation (s5\<lparr>velocity := v\<rparr>) p a) = position s4"
  using record_shape[OF rec] glide_frame[OF g]
  by (simp_all add: sameButPath_def spinDecay_frame activation_frame)

lemma stepStone_log:
  assumes st: "stepStone dt actY s (e, am) = Some (s', e', am')"
  shows "nearCrossings e' = nearCrossings e + (if newNear s s' \<and> onHogNearCross (cfg e) then 1 else 0)
       \<and> hogSplits e' = hogSplits e @ (if newFar s s' \<and> onHogSplit (cfg e) then [splitTime s'] else [])"
  using st
proof (cases rule: stepStone_cases)
  case idle
  then show ?thesis by (simp add: same_timing)
next
  case (spinning s4)
  have "hogTiming s' = hogTiming s"
    using record_shape[OF spinning(3)] spinning(5) by (simp add: sameButPath_def spinDecay_frame)
  with spinning(6) show ?thesis by (simp add: same_timing)
next
  case (resting s4)
  have "hogTiming s' = hogTiming s"
    using record_shape[OF resting(3)] settle_frame[OF resting(5)]
    by (simp add: sameButPath_def spinDecay_frame)
  with settle_log[OF resting(5)] show ?thesis by (simp add: same_timing)
next
  case (left s4 d v s5)
  have "hogTiming s' = hogTiming s"
    using record_shape[OF left(4)] glide_frame[OF left(3)] out_frame[OF left(6)]
    by (simp add: sameButPath_def spinDecay_frame)
  with out_log[OF left(6)] show ?thesis by (simp add: same_timing)
next
  case (sliding s4 d v s5 s8)
  note t = moved_timing[OF sliding(3,4)]
  from hog_log[OF sliding(6)] show ?thesis
    unfolding sliding(8) newNear_cong[OF t(1) refl] newFar_cong[OF t(1) refl] by simp
next
  case (halting s4 d v s5 s8 e1)
  note t = moved_timing[OF halting(3,4)]
  have c: "cfg e1 = cfg e" using hog_frame[OF halting(6)] by simp
  have h8: "hogTiming s' = hogTiming s8" using settle_frame[OF halting(9)] by simp
  from hog_log[OF halting(6)] settle_log[OF halting(9)] show ?thesis
    unfolding newNear_cong[OF t(1) refl] newFar_cong[OF t(1) refl]
      newNear_cong[OF refl h8] newFar_cong[OF refl h8] splitTime_cong[OF h8] by simp
next
  case (pivoting s4 d v s5 s8)
  note t = moved_timing[OF pivoting(3,4)]
  have h8: "hogTiming s' = hogTiming s8" using pivoting(9) by simp
  from hog_log[OF pivoting(6)] show ?thesis
    unfolding newNear_cong[OF t(1) refl] newFar_cong[OF t(1) refl]
      newNear_cong[OF refl h8] newFar_cong[OF refl h8] splitTime_cong[OF h8] by simp
qed

lemma firings_Cons:
  "nearFirings (s # ss) (s' # ss') = (if newNear s s' then 1 else 0) + nearFirings ss ss'"
  "splitFirings (s # ss) (s' # ss') = (if newFar s s' then [splitTime s'] else []) @ splitFirings ss ss'"
  by (simp_all add: nearFirings_def splitFirings_def)

lemma firings_Nil: "nearFirings [] ss' = 0" "splitFirings [] ss' = []"
  by (simp_all add: nearFirings_def splitFirings_def)

lemma stepStones_log:
  assumes "stepStones dt actY ss (e, am) = Some (ss', e', am')"
  shows "nearCrossings e' = nearCrossings e + (if onHogNearCross (cfg e) then nearFirings ss ss' else 0)
       \<and> hogSplits e' = hogSplits e @ (if onHogSplit (cfg e) then splitFirings ss ss' else [])"
  using assms
proof (induction ss arbitrary: e am ss' e' am')
  case Nil
  then show ?case by (simp add: firings_Nil)
next
  case (Cons s ss)
  from Cons.prems obtain s1 e1 m1 ss1 where
    a: "stepStone dt actY s (e, am) = Some (s1, e1, m1)"
    and b: "stepStones dt actY ss (e1, m1) = Some (ss1, e', am')"
    and c: "ss' = s1 # ss1"
    by (auto simp: Option.bind_eq_Some_conv)
  have cf: "cfg e1 = cfg e" using stepStone_cfg[OF a] by simp
  from stepStone_log[OF a] Cons.IH[OF b] show ?case
    unfolding c firings_Cons cf by simp
qed

lemma firings_frame:
  assumes "list_all2 sameButMotion ss1 ss2"
  shows "nearFirings ss ss1 = nearFirings ss ss2 \<and> splitFirings ss ss1 = splitFirings ss ss2"
  using assms
proof (induction arbitrary: ss rule: list_all2_induct)
  case Nil
  then show ?case by (simp add: nearFirings_def splitFirings_def)
next
  case (Cons a as b bs)
  then have h: "hogTiming b = hogTiming a" by (simp add: sameButMotion_def)
  show ?case
  proof (cases ss)
    case Nil
    then show ?thesis by (simp add: firings_Nil)
  next
    case (Cons s rest)
    with Cons.IH[of rest] show ?thesis
      unfolding Cons firings_Cons newNear_cong[OF refl h] newFar_cong[OF refl h] splitTime_cong[OF h]
      by simp
  qed
qed

lemma step_log:
  assumes "step dt e = Some e'"
  shows "nearCrossings e' = nearCrossings e
           + (if onHogNearCross (cfg e) then nearFirings (stones e) (stones e') else 0)
       \<and> hogSplits e' = hogSplits e
           @ (if onHogSplit (cfg e) then splitFirings (stones e) (stones e') else [])"
  using assms
proof (cases rule: step_stones)
  case (1 ss e1 m)
  have l: "nearCrossings e' = nearCrossings e1" "hogSplits e' = hogSplits e1"
    using 1(4) by (simp_all add: nearCrossings_def hogSplits_def)
  from firings_frame[OF resolveCollisions_frame[of ss "cfg e" dt], of "stones e"] stepStones_log[OF 1(1)]
  show ?thesis unfolding l 1(2) by simp
qed

lemma hog_rule:
  assumes h: "checkHogLineCrossings s p e = (s', e')"
  shows "nearCrossedAt (hogTiming s') =
          (if nearCrossedAt (hogTiming s) = None \<and> crossesHog p (py (position s)) (hogLineNear (cfg e))
           then Some (clock e (clockReads e)) else nearCrossedAt (hogTiming s))
       \<and> farCrossedAt (hogTiming s') =
          (if nearCrossedAt (hogTiming s') \<noteq> None \<and> farCrossedAt (hogTiming s) = None
              \<and> crossesHog p (py (position s)) (hogLineFar (cfg e))
           then Some (clock e (clockReads e + (if newNear s s' then 1 else 0)))
           else farCrossedAt (hogTiming s))
       \<and> events e' = events e
            @ (if newNear s s' \<and> onHogNearCross (cfg e) then [HogNearCross] else [])
            @ (if newFar s s' \<and> onHogSplit (cfg e) then [HogSplit (splitTime s')] else [])"
proof -
  define n where "n \<longleftrightarrow> nearCrossedAt (hogTiming s) = None \<and> crossesHog p (py (position s)) (hogLineNear (cfg e))"
  define f where "f \<longleftrightarrow> (n \<or> nearCrossedAt (hogTiming s) \<noteq> None) \<and> farCrossedAt (hogTiming s) = None
                   \<and> crossesHog p (py (position s)) (hogLineFar (cfg e))"
  note he = hog_effect[OF h, folded n_def, folded f_def]
  have nn: "newNear s s' = n" unfolding newNear_def he(1) by (auto simp: n_def)
  have nf: "newFar s s' = f" unfolding newFar_def he(2) by (auto simp: f_def)
  have sp: "f \<Longrightarrow> splitTime s' = clock e (clockReads e + (if n then 1 else 0))
               - (if n then clock e (clockReads e) else the (nearCrossedAt (hogTiming s)))"
    unfolding splitTime_def he(1) he(2) by simp
  have a: "nearCrossedAt (hogTiming s') = (if n then Some (clock e (clockReads e)) else nearCrossedAt (hogTiming s))"
    by (rule he(1))
  have b: "farCrossedAt (hogTiming s') =
          (if nearCrossedAt (hogTiming s') \<noteq> None \<and> farCrossedAt (hogTiming s) = None
              \<and> crossesHog p (py (position s)) (hogLineFar (cfg e))
           then Some (clock e (clockReads e + (if newNear s s' then 1 else 0)))
           else farCrossedAt (hogTiming s))"
    unfolding nn he(2) he(1) by (auto simp: f_def)
  have c: "events e' = events e
            @ (if newNear s s' \<and> onHogNearCross (cfg e) then [HogNearCross] else [])
            @ (if newFar s s' \<and> onHogSplit (cfg e) then [HogSplit (splitTime s')] else [])"
    unfolding nn nf he(4) using sp by simp
  from a b c show ?thesis unfolding n_def by blast
qed

lemma crossedStone_fields:
  "position (crossedStone y0 t) = \<lparr>px = 0, py = y0\<rparr>" "velocity (crossedStone y0 t) = \<lparr>vx = 0, vy = 2\<rparr>"
  "isLaunched (crossedStone y0 t)" "rotationRate (crossedStone y0 t) = 0" "angle (crossedStone y0 t) = 0"
  "pathSampleTimer (crossedStone y0 t) = 0"
  "hogTiming (crossedStone y0 t) = \<lparr>nearCrossedAt = Some t, farCrossedAt = None\<rparr>"
  by (simp_all add: crossedStone_def slidingStone_fields slidingStone_angle)

lemma sheetWith_fields:
  "cfg (sheetWith s n) = cfg demoEngine" "clock (sheetWith s n) = demoClock"
  "clockReads (sheetWith s n) = n" "events (sheetWith s n) = []"
  "stones (sheetWith s n) = [s, stones demoEngine ! 1]"
  "\<not> isLaunched (stones demoEngine ! 1)"
  "hogTiming (stones demoEngine ! 1) = \<lparr>nearCrossedAt = None, farCrossedAt = None\<rparr>"
  by (simp_all add: sheetWith_def demo_world demo_stones newStone_def attachTiming_def
        resetStonePath_def Let_def)

lemma sheet_step:
  assumes st: "stepStone dt (rotationActivationY (cfg demoEngine)) s (sheetWith s n, False) = Some (s', e1, am)"
  obtains e'' x y where "step dt (sheetWith s n) = Some e''" "stones e'' = [x, y]"
    "hogTiming x = hogTiming s'"
    "hogTiming y = \<lparr>nearCrossedAt = None, farCrossedAt = None\<rparr>"
proof -
  let ?b = "stones demoEngine ! 1"
  have idle: "stepStone dt a ?b (e1, am) = Some (?b, e1, am)" for a
    using sheetWith_fields(6) by (simp add: stepStone_def)
  have ss: "stepStones dt (rotationActivationY (cfg (sheetWith s n))) (stones (sheetWith s n)) (sheetWith s n, False)
      = Some ([s', ?b], e1, am)"
    using st idle[of "rotationActivationY (cfg demoEngine)"] by (simp add: sheetWith_fields(1,5))
  obtain ss' col where r: "resolveCollisions (cfg e1) dt [s', ?b] = (ss', col)"
    by (cases "resolveCollisions (cfg e1) dt [s', ?b]")
  from resolveCollisions_frame[of "[s', ?b]" "cfg e1" dt] r
  have fr: "list_all2 sameButMotion [s', ?b] ss'" by simp
  then obtain x y where xy: "ss' = [x, y]" "sameButMotion s' x" "sameButMotion ?b y"
    by (auto simp: list_all2_Cons1)
  have "\<exists>e''. step dt (sheetWith s n) = Some e'' \<and> stones e'' = [x, y]"
    unfolding step_def Let_def ss using r xy(1) by simp
  then obtain e'' where "step dt (sheetWith s n) = Some e''" "stones e'' = [x, y]" by blast
  moreover from xy(2,3) sheetWith_fields(7) have "hogTiming x = hogTiming s'"
    "hogTiming y = \<lparr>nearCrossedAt = None, farCrossedAt = None\<rparr>"
    by (simp_all add: sameButMotion_def)
  ultimately show ?thesis by (rule that)
qed

lemma timing_eq:
  "nearCrossedAt h = a \<Longrightarrow> farCrossedAt h = b \<Longrightarrow> h = \<lparr>nearCrossedAt = a, farCrossedAt = b\<rparr>"
  by (cases h) simp

subsection \<open>Speeds after a step\<close>

lemma fold_collideAtT_fst:
  "fst (fold (collideAtT c r dt i) js w) = fold (collideAt c r dt i) js (fst w)"
  by (induction js arbitrary: w) (simp_all add: collideAtT_def)

lemma collideRowT_fst: "fst (collideRowT c r dt i w) = collideRow c r dt i (fst w)"
  by (simp add: collideRowT_def collideRow_def Let_def fold_collideAtT_fst)

lemma fold_collideRowT_fst:
  "fst (fold (collideRowT c r dt) is w) = fold (collideRow c r dt) is (fst w)"
  by (induction "is" arbitrary: w) (simp_all add: collideRowT_fst)

lemma collideAt_cases:
  "(hitAt c r dt i j (fst st) = [] \<and> collideAt c r dt i j st = st)
   \<or> (\<exists>a' b'. hitAt c r dt i j (fst st) = [i, j]
         \<and> fst (collideAt c r dt i j st) = (fst st)[i := a', j := b'])"
  by (cases st) (auto simp: hitAt_def collideAt_def Let_def split: option.splits)

lemma collideAtT_kept:
  assumes "kept ss0 w"
  shows "kept ss0 (collideAtT c r dt i j w)"
  using collideAt_cases[of c r dt i j "fst w"] assms
  by (auto simp: kept_def collideAtT_def)

lemma fold_collideAtT_kept:
  "kept ss0 w \<Longrightarrow> kept ss0 (fold (collideAtT c r dt i) js w)"
  by (induction js arbitrary: w) (simp_all add: collideAtT_kept)

lemma collideRowT_kept: "kept ss0 w \<Longrightarrow> kept ss0 (collideRowT c r dt i w)"
  by (simp add: collideRowT_def Let_def fold_collideAtT_kept)

lemma fold_collideRowT_kept:
  "kept ss0 w \<Longrightarrow> kept ss0 (fold (collideRowT c r dt) is w)"
  by (induction "is" arbitrary: w) (simp_all add: collideRowT_kept)

lemma untouched:
  assumes "k < length ss" and "k \<notin> set (touchedBy c dt ss)"
  shows "fst (resolveCollisions c dt ss) ! k = ss ! k"
proof -
  define r where "r = coalesce (stoneRadius c) 0.145"
  show ?thesis
  proof (cases "r = 0")
    case True
    then show ?thesis unfolding resolveCollisions_def Let_def r_def[symmetric] by simp
  next
    case False
    define w where "w = fold (collideRowT c r dt) [0 ..< length ss] ((ss, False), [])"
    have "kept ss ((ss, False), [])" by (simp add: kept_def)
    then have k: "kept ss w" unfolding w_def by (rule fold_collideRowT_kept)
    have f: "fst w = resolveCollisions c dt ss"
      using False unfolding resolveCollisions_def Let_def r_def[symmetric]
      by (simp add: w_def fold_collideRowT_fst)
    have t: "touchedBy c dt ss = snd w"
      using False unfolding touchedBy_def Let_def r_def[symmetric] by (simp add: w_def)
    from k assms show ?thesis unfolding t f[symmetric] kept_def by blast
  qed
qed

lemma resolvePair_none:
  "resolvePair c radius dt a b = None \<longleftrightarrow>
     radius * 2 \<le> hypot (px (position b) - px (position a)) (py (position b) - py (position a))
     \<and> 0 < hypot (px (position b) - px (position a)) (py (position b) - py (position a))"
  by (simp add: resolvePair_def initialContact_def Let_def split: option.splits)

lemma snapped_zero: "velocity s = \<lparr>vx = 0, vy = 0\<rparr> \<Longrightarrow> snapped s"
  by (simp add: snapped_def)

lemma stepStone_still:
  assumes st: "stepStone dt actY s (e, am) = Some (s', e', am')"
    and l: "isLaunched s" and sl: "hypot (vx (velocity s)) (vy (velocity s)) \<le> SPEED_EPSILON"
  shows "velocity s' = \<lparr>vx = 0, vy = 0\<rparr>"
  using st
proof (cases rule: stepStone_cases)
  case idle
  with l show ?thesis by simp
next
  case (spinning s4)
  from record_shape[OF spinning(3)] spinning(5) show ?thesis by (simp add: sameButPath_def)
next
  case (resting s4)
  have v4: "velocity s4 = \<lparr>vx = 0, vy = 0\<rparr>" and l4: "isLaunched s4"
    using record_shape[OF resting(3)] l by (simp_all add: sameButPath_def spinDecay_frame)
  from settle_frame[OF resting(5)] v4 l4 show ?thesis by (cases "isLaunched s'") simp_all
next
  case (left s4 d v s5)
  with sl show ?thesis by simp
next
  case (sliding s4 d v s5 s8)
  with sl show ?thesis by simp
next
  case (halting s4 d v s5 s8 e1)
  with sl show ?thesis by simp
next
  case (pivoting s4 d v s5 s8)
  with sl show ?thesis by simp
qed

lemma stepStone_snapped:
  assumes st: "stepStone dt actY s (e, am) = Some (s', e', am')" and l: "isLaunched s"
  shows "snapped s'"
  using st
proof (cases rule: stepStone_cases)
  case idle
  with l show ?thesis by simp
next
  case (spinning s4)
  from stepStone_still[OF st l spinning(2)] show ?thesis by (rule snapped_zero)
next
  case (resting s4)
  from stepStone_still[OF st l resting(2)] show ?thesis by (rule snapped_zero)
next
  case (left s4 d v s5)
  from out_frame[OF left(6)] show ?thesis by (simp add: snapped_def)
next
  case (sliding s4 d v s5 s8)
  then show ?thesis by (simp add: snapped_def)
next
  case (halting s4 d v s5 s8 e1)
  have l8: "isLaunched (s8\<lparr>velocity := \<lparr>vx = 0, vy = 0\<rparr>\<rparr>)"
    using hog_frame[OF halting(6)] record_shape[OF halting(4)] glide_frame[OF halting(3)] l
    by (simp add: activation_frame sameButPath_def spinDecay_frame)
  from settle_frame[OF halting(9)] l8 show ?thesis
    by (cases "isLaunched s'") (simp_all add: snapped_def)
next
  case (pivoting s4 d v s5 s8)
  then show ?thesis by (simp add: snapped_def)
qed

lemma stepStones_snapped:
  assumes "stepStones dt actY ss (e, am) = Some (ss', e', am')"
  shows "list_all2 (\<lambda>s s'. isLaunched s \<longrightarrow> snapped s') ss ss'"
  using assms
proof (induction ss arbitrary: e am ss' e' am')
  case Nil then show ?case by simp
next
  case (Cons s ss)
  from Cons.prems obtain s1 e1 m1 ss1 where
    a: "stepStone dt actY s (e, am) = Some (s1, e1, m1)"
    and b: "stepStones dt actY ss (e1, m1) = Some (ss1, e', am')" and c: "ss' = s1 # ss1"
    by (auto simp: Option.bind_eq_Some_conv)
  from stepStone_snapped[OF a] Cons.IH[OF b] c show ?case by simp
qed

lemma step_snapped:
  assumes st: "step dt e = Some e'" and k: "k < length (stones e)"
    and l: "isLaunched (stones e ! k)" and u: "k \<notin> set (touched dt e)"
  shows "snapped (stones e' ! k)"
  using st
proof (cases rule: step_stones)
  case (1 ss e1 m)
  have c1: "cfg e1 = cfg e" using stepStones_props[OF 1(1)] by simp
  from u have u': "k \<notin> set (touchedBy (cfg e) dt ss)" by (simp add: touched_def 1(1) c1)
  from stepStones_snapped[OF 1(1)] have a: "list_all2 (\<lambda>s s'. isLaunched s \<longrightarrow> snapped s') (stones e) ss" .
  then have len: "length ss = length (stones e)" by (simp add: list_all2_lengthD)
  from list_all2_nthD2[OF a k] l have "snapped (ss ! k)" by simp
  moreover from untouched[OF _ u'] k len have "stones e' ! k = ss ! k" unfolding 1(2) by simp
  ultimately show ?thesis by simp
qed

lemma touchedBy_pair:
  assumes "\<not> isLaunched b"
  shows "touchedBy c dt [a, b] = []"
  using assms
  by (simp add: touchedBy_def collideRowT_def collideAtT_def hitAt_def collideAt_def Let_def upt_rec)

lemma sheet_touched:
  assumes st: "stepStone dt (rotationActivationY (cfg demoEngine)) s (sheetWith s n, False) = Some (s', e1, am)"
  shows "touched dt (sheetWith s n) = []"
proof -
  let ?b = "stones demoEngine ! 1"
  have idle: "stepStone dt a ?b (e1, am) = Some (?b, e1, am)" for a
    using sheetWith_fields(6) by (simp add: stepStone_def)
  have ss: "stepStones dt (rotationActivationY (cfg (sheetWith s n))) (stones (sheetWith s n)) (sheetWith s n, False)
      = Some ([s', ?b], e1, am)"
    using st idle[of "rotationActivationY (cfg demoEngine)"] by (simp add: sheetWith_fields(1,5))
  show ?thesis
    unfolding touched_def ss using touchedBy_pair[OF sheetWith_fields(6)] by simp
qed

lemma hitAt_range:
  assumes "hitAt c radius dt i j ss \<noteq> []"
  shows "hitAt c radius dt i j ss = [i, j] \<and> isLaunched (ss ! j) \<and> \<not> isOut (ss ! j)
       \<and> (hypot (px (position (ss ! j)) - px (position (ss ! i)))
                 (py (position (ss ! j)) - py (position (ss ! i))) < radius * 2
           \<or> hypot (px (position (ss ! j)) - px (position (ss ! i)))
                   (py (position (ss ! j)) - py (position (ss ! i))) = 0)"
proof -
  have nn: "0 \<le> hypot (px (position (ss ! j)) - px (position (ss ! i)))
                 (py (position (ss ! j)) - py (position (ss ! i)))"
    by (rule hypot_nonneg)
  from assms have l: "isLaunched (ss ! j)" "\<not> isOut (ss ! j)"
    and r: "resolvePair c radius dt (ss ! i) (ss ! j) \<noteq> None"
    by (auto simp: hitAt_def Let_def split: if_splits option.splits)
  from l r have h: "hitAt c radius dt i j ss = [i, j]"
    by (auto simp: hitAt_def Let_def)
  from r nn have "hypot (px (position (ss ! j)) - px (position (ss ! i)))
                 (py (position (ss ! j)) - py (position (ss ! i))) < radius * 2
           \<or> hypot (px (position (ss ! j)) - px (position (ss ! i)))
                   (py (position (ss ! j)) - py (position (ss ! i))) = 0"
    unfolding resolvePair_none by linarith
  with h l show ?thesis by blast
qed

subsection \<open>Spin decay in a step\<close>

lemma activation_rate:
  "rotationRate (checkRotationActivation s p a) =
     (if rotationActivated (checkRotationActivation s p a) \<and> \<not> rotationActivated s
      then pendingRotationRate s else rotationRate s)"
  by (simp add: checkRotationActivation_def Let_def)

lemma stepStone_decay:
  assumes st: "stepStone dt actY s (e, am) = Some (s', e', am')" and l: "isLaunched s"
  shows "if isLaunched s'
         then (if rotationActivated s' \<and> \<not> rotationActivated s
               then rotationRate s' = pendingRotationRate s
               else rotationRate s' = rotationRate (spinDecay (cfg e) s dt))
         else rotationRate s' = 0"
proof -
  have checked: "rotationRate s7 =
        (if rotationActivated s7 \<and> \<not> rotationActivated s
         then pendingRotationRate s else rotationRate (spinDecay (cfg e) s dt))
      \<and> isLaunched s7"
    if g: "glide (cfg e) dt (spinDecay (cfg e) s dt) = (s4, d, v)"
      and rec: "recordStonePathSample (cfg e) s4 dt d = Some s5"
      and s7: "s7 = checkRotationActivation (s5\<lparr>velocity := v\<rparr>) p actY" for s4 d v s5 s7 p
  proof -
    have f: "rotationRate (s5\<lparr>velocity := v\<rparr>) = rotationRate (spinDecay (cfg e) s dt)"
      "pendingRotationRate (s5\<lparr>velocity := v\<rparr>) = pendingRotationRate s"
      "rotationActivated (s5\<lparr>velocity := v\<rparr>) = rotationActivated s"
      "isLaunched (s5\<lparr>velocity := v\<rparr>)"
      using record_shape[OF rec] glide_frame[OF g] l
      by (simp_all add: sameButPath_def spinDecay_frame)
    show ?thesis
      unfolding s7 activation_rate[of "s5\<lparr>velocity := v\<rparr>" p actY] f
      by (simp add: activation_frame f)
  qed
  from st show ?thesis
  proof (cases rule: stepStone_cases)
    case idle
    with l show ?thesis by simp
  next
    case (spinning s4)
    with record_shape[OF spinning(3)] l show ?thesis by (simp add: sameButPath_def spinDecay_frame)
  next
    case (resting s4)
    with record_shape[OF resting(3)] settle_frame[OF resting(5)] l show ?thesis
      by (cases "isLaunched s'") (simp_all add: sameButPath_def spinDecay_frame)
  next
    case (left s4 d v s5)
    with out_frame[OF left(6)] show ?thesis by simp
  next
    case (sliding s4 d v s5 s8)
    from checked[OF sliding(3,4) refl, of "py (position s)"] hog_frame[OF sliding(6)] sliding(8)
    show ?thesis by simp
  next
    case (halting s4 d v s5 s8 e1)
    from checked[OF halting(3,4) refl, of "py (position s)"] hog_frame[OF halting(6)]
    have r8: "rotationRate s8 =
        (if rotationActivated s8 \<and> \<not> rotationActivated s
         then pendingRotationRate s else rotationRate (spinDecay (cfg e) s dt))" "isLaunched s8"
      by simp_all
    with settle_frame[OF halting(9)] show ?thesis
      by (cases "isLaunched s'") simp_all
  next
    case (pivoting s4 d v s5 s8)
    from checked[OF pivoting(3,4) refl, of "py (position s)"] hog_frame[OF pivoting(6)] pivoting(9)
    show ?thesis by simp
  qed
qed

lemma slowSpinner_fields:
  "position slowSpinner = \<lparr>px = - 2, py = - 40\<rparr>" "velocity slowSpinner = \<lparr>vx = 0, vy = 0\<rparr>"
  "rotationRate slowSpinner = 0.011" "isLaunched slowSpinner" "rotationActivated slowSpinner"
  by (simp_all add: slowSpinner_def spinningStone_fields)

lemma spinner_decay:
  assumes "dt = 0.016"
  shows "rotationRate (spinDecay (cfg demoEngine) slowSpinner dt) = 0.00675296"
    and "rotationRate (spinDecay (cfg demoEngine) spinningStone dt) = 0.99575296"
proof -
  have fr: "frictionAt (cfg demoEngine) 0 = 0.1896"
    by (simp add: frictionAt_def demo_friction)
  show "rotationRate (spinDecay (cfg demoEngine) slowSpinner dt) = 0.00675296"
    by (simp add: spinDecay_rate slowSpinner_fields hypot_zero_right fr decayRotation_def
        SPEED_EPSILON_def Let_def assms)
  show "rotationRate (spinDecay (cfg demoEngine) spinningStone dt) = 0.99575296"
    by (simp add: spinDecay_rate spinningStone_fields hypot_zero_right fr decayRotation_def
        SPEED_EPSILON_def Let_def assms)
qed

lemma slowSpinner_out:
  assumes dt: "dt = 0.016"
    and st: "stepStone dt actY slowSpinner (demoEngine, am) = Some (s', e', am')"
  shows "\<not> isLaunched s' \<and> rotationRate s' = 0"
  using st
proof (cases rule: stepStone_cases)
  case idle
  then show ?thesis by (simp add: slowSpinner_fields)
next
  case (spinning s4)
  then show ?thesis by (simp add: spinner_decay[OF dt] SPEED_EPSILON_def)
next
  case (resting s4)
  have p4: "position s4 = \<lparr>px = - 2, py = - 40\<rparr>"
    using record_shape[OF resting(3)]
    by (simp add: sameButPath_def spinDecay_frame slowSpinner_fields)
  then have "isOutBeforeFarHog (cfg demoEngine) s4"
    by (simp add: isOutBeforeFarHog_def demo_cfg_values)
  with resting(5) have "handleStoneOut s4 demoEngine = (s', e')" by (simp add: settleStone_def)
  from out_frame[OF this] show ?thesis by simp
next
  case (left s4 d v s5)
  then show ?thesis by (simp add: slowSpinner_fields hypot_zero_right SPEED_EPSILON_def)
next
  case (sliding s4 d v s5 s8)
  then show ?thesis by (simp add: slowSpinner_fields hypot_zero_right SPEED_EPSILON_def)
next
  case (halting s4 d v s5 s8 e1)
  then show ?thesis by (simp add: slowSpinner_fields hypot_zero_right SPEED_EPSILON_def)
next
  case (pivoting s4 d v s5 s8)
  then show ?thesis by (simp add: slowSpinner_fields hypot_zero_right SPEED_EPSILON_def)
qed

lemma spinningStone_stays:
  assumes dt: "dt = 0.016"
    and st: "stepStone dt actY spinningStone (demoEngine, am) = Some (s', e', am')"
  shows "isLaunched s'"
  using st
proof (cases rule: stepStone_cases)
  case idle
  then show ?thesis by (simp add: spinningStone_fields)
next
  case (spinning s4)
  with record_shape[OF spinning(3)] show ?thesis
    by (simp add: sameButPath_def spinDecay_frame spinningStone_fields)
next
  case (resting s4)
  then show ?thesis by (simp add: spinner_decay[OF dt] SPEED_EPSILON_def)
next
  case (left s4 d v s5)
  then show ?thesis by (simp add: spinningStone_fields hypot_zero_right SPEED_EPSILON_def)
next
  case (sliding s4 d v s5 s8)
  then show ?thesis by (simp add: spinningStone_fields hypot_zero_right SPEED_EPSILON_def)
next
  case (halting s4 d v s5 s8 e1)
  then show ?thesis by (simp add: spinningStone_fields hypot_zero_right SPEED_EPSILON_def)
next
  case (pivoting s4 d v s5 s8)
  then show ?thesis by (simp add: spinningStone_fields hypot_zero_right SPEED_EPSILON_def)
qed

subsection \<open>A stone that is ruled out in its step\<close>

lemma stepStones_nth:
  assumes "stepStones dt actY ss (e, am) = Some (ss', e', am')" and "k < length ss"
  shows "\<exists>ek mk ek' mk'. cfg ek = cfg e
           \<and> stepStone dt actY (ss ! k) (ek, mk) = Some (ss' ! k, ek', mk')"
  using assms
proof (induction ss arbitrary: e am ss' e' am' k)
  case Nil then show ?case by simp
next
  case (Cons s ss)
  from Cons.prems(1) obtain s1 e1 m1 ss1 where
    a: "stepStone dt actY s (e, am) = Some (s1, e1, m1)"
    and b: "stepStones dt actY ss (e1, m1) = Some (ss1, e', am')" and c: "ss' = s1 # ss1"
    by (auto simp: Option.bind_eq_Some_conv)
  show ?case
  proof (cases k)
    case 0
    with a c show ?thesis by auto
  next
    case (Suc n)
    with Cons.prems(2) have n: "n < length ss" by simp
    from Cons.IH[OF b n] stepStone_cfg[OF a] show ?thesis unfolding Suc c by auto
  qed
qed

lemma stepStone_out:
  assumes st: "stepStone dt actY s (e, am) = Some (s', e', am')"
    and l: "isLaunched s" and nl: "\<not> isLaunched s'"
  shows "rotationRate s' = 0 \<and> pendingRotationRate s' = 0 \<and> rotationActivated s'
       \<and> velocity s' = \<lparr>vx = 0, vy = 0\<rparr> \<and> isOut s'"
  using st
proof (cases rule: stepStone_cases)
  case idle
  with l nl show ?thesis by simp
next
  case (spinning s4)
  with record_shape[OF spinning(3)] l nl show ?thesis by (simp add: sameButPath_def spinDecay_frame)
next
  case (resting s4)
  have "isLaunched s4" using record_shape[OF resting(3)] l by (simp add: sameButPath_def spinDecay_frame)
  with settle_frame[OF resting(5)] nl show ?thesis by simp
next
  case (left s4 d v s5)
  from out_frame[OF left(6)] show ?thesis by simp
next
  case (sliding s4 d v s5 s8)
  from hog_frame[OF sliding(6)] record_shape[OF sliding(4)] glide_frame[OF sliding(3)] l nl sliding(8)
  show ?thesis by (simp add: activation_frame sameButPath_def spinDecay_frame)
next
  case (halting s4 d v s5 s8 e1)
  have "isLaunched (s8\<lparr>velocity := \<lparr>vx = 0, vy = 0\<rparr>\<rparr>)"
    using hog_frame[OF halting(6)] record_shape[OF halting(4)] glide_frame[OF halting(3)] l
    by (simp add: activation_frame sameButPath_def spinDecay_frame)
  with settle_frame[OF halting(9)] nl show ?thesis by simp
next
  case (pivoting s4 d v s5 s8)
  from hog_frame[OF pivoting(6)] record_shape[OF pivoting(4)] glide_frame[OF pivoting(3)] l nl pivoting(9)
  show ?thesis by (simp add: activation_frame sameButPath_def spinDecay_frame)
qed

lemma isOutOfBounds_position:
  "position a = position b \<Longrightarrow> isOutOfBounds c a = isOutOfBounds c b"
  unfolding isOutOfBounds_def by (erule subst) (rule refl)

lemma hypot_345: "hypot (3 / 5) (4 / 5) = 1"
  by (simp add: hypot_def)

lemma driftingStone_fields:
  "position (driftingStone y0) = \<lparr>px = 2.22, py = y0\<rparr>"
  "velocity (driftingStone y0) = \<lparr>vx = 0.6, vy = 0.8\<rparr>"
  "isLaunched (driftingStone y0)" "\<not> isOut (driftingStone y0)" "rotationRate (driftingStone y0) = 0"
  "pendingRotationRate (driftingStone y0) = 1.5" "\<not> rotationActivated (driftingStone y0)"
  "hogTiming (driftingStone y0) = \<lparr>nearCrossedAt = None, farCrossedAt = None\<rparr>"
  "pathSampleTimer (driftingStone y0) = 0" "angle (driftingStone y0) = 0"
  "color (driftingStone y0) = RED" "number (driftingStone y0) = 1"
  by (simp_all add: driftingStone_def stoneAt_def demo_stone0)

lemma drifting_glide:
  assumes dt: "dt = 0.03"
  shows "spinDecay (cfg demoEngine) (driftingStone y0) dt = driftingStone y0"
    and "glide (cfg demoEngine) dt (driftingStone y0) =
     ((driftingStone y0)\<lparr>hasStoppedNotified := False,
                          position := \<lparr>px = 2.23797219, py = y0 + 0.02396292\<rparr>\<rparr>,
      0.02995365, \<lparr>vx = 0.598146, vy = 0.797528\<rparr>)"
proof -
  show "spinDecay (cfg demoEngine) (driftingStone y0) dt = driftingStone y0"
    by (simp add: spinDecay_still advanceAngle_still driftingStone_fields)
  have c0: "computeCurlHeadingDelta (cfg demoEngine) ((driftingStone y0)\<lparr>hasStoppedNotified := False\<rparr>) sp d dto = 0"
    for sp d dto
    by (subst curl_cases) (simp add: driftingStone_fields)
  have fr: "frictionAt (cfg demoEngine) 1 = 0.103"
    by (simp add: frictionAt_def demo_friction)
  show "glide (cfg demoEngine) dt (driftingStone y0) =
     ((driftingStone y0)\<lparr>hasStoppedNotified := False,
                          position := \<lparr>px = 2.23797219, py = y0 + 0.02396292\<rparr>\<rparr>,
      0.02995365, \<lparr>vx = 0.598146, vy = 0.797528\<rparr>)"
    by (simp add: glide_def Let_def driftingStone_fields hypot_345 c0 fr dt)
qed

lemma drifting_step:
  assumes c: "cfg e = cfg demoEngine" and tray: "outTrayLayouts e RED = None" and dt: "dt = 0.03"
  obtains s' e' where "stepStone dt actY (driftingStone y0) (e, am) = Some (s', e', am)"
    "\<not> isLaunched s'" "position s' = \<lparr>px = 2.23797219, py = y0 + 0.02396292\<rparr>"
    "hogTiming s' = \<lparr>nearCrossedAt = None, farCrossedAt = None\<rparr>"
    "rotationRate s' = 0" "pendingRotationRate s' = 0" "rotationActivated s'"
    "events e' = events e @ [StoneStopped RED 1]" "clockReads e' = clockReads e"
proof -
  define s4 where "s4 = (driftingStone y0)\<lparr>hasStoppedNotified := False,
                          position := \<lparr>px = 2.23797219, py = y0 + 0.02396292\<rparr>\<rparr>"
  define s6 where "s6 = (s4\<lparr>pathSampleTimer := pathSampleTimer s4 + dt\<rparr>)\<lparr>velocity := \<lparr>vx = 0.598146, vy = 0.797528\<rparr>\<rparr>"
  note dg = drifting_glide[OF dt, of y0, folded s4_def]
  have rec: "recordStonePathSample (cfg demoEngine) s4 dt 0.02995365
      = Some (s4\<lparr>pathSampleTimer := pathSampleTimer s4 + dt\<rparr>)"
    by (rule record_moving_idle) (simp_all add: s4_def driftingStone_fields demo_friction dt)
  have f6: "position s6 = \<lparr>px = 2.23797219, py = y0 + 0.02396292\<rparr>" "color s6 = RED" "number s6 = 1"
    "hogTiming s6 = \<lparr>nearCrossedAt = None, farCrossedAt = None\<rparr>"
    by (simp_all add: s6_def s4_def driftingStone_fields)
  have outb: "isOutOfBounds (cfg demoEngine) s6"
    by (simp add: isOutOfBounds_def demo_sheet demo_cfg_values f6 Let_def)
  obtain s7 e1 where h: "handleStoneOut s6 e = (s7, e1)" by (cases "handleStoneOut s6 e")
  have sp: "\<not> hypot (vx (velocity (driftingStone y0))) (vy (velocity (driftingStone y0))) \<le> SPEED_EPSILON"
    by (simp add: driftingStone_fields hypot_345 SPEED_EPSILON_def)
  have st: "stepStone dt actY (driftingStone y0) (e, am) = Some (s7, e1, am)"
    unfolding stepStone_def Let_def prod.case c dg(1)
    by (simp only: driftingStone_fields(3) sp dg(2) rec s6_def[symmetric] outb h if_True if_False
        simp_thms prod.case bind.bind_lunit)
  have pl: "placeStoneInOutTray (s6\<lparr>velocity := \<lparr>vx = 0, vy = 0\<rparr>,
                 pendingRotationRate := 0, rotationRate := 0, rotationActivated := True,
                 angle := 0, isLaunched := False, isOut := True, hasStoppedNotified := True\<rparr>) e
      = (s6\<lparr>velocity := \<lparr>vx = 0, vy = 0\<rparr>,
                 pendingRotationRate := 0, rotationRate := 0, rotationActivated := True,
                 angle := 0, isLaunched := False, isOut := True, hasStoppedNotified := True\<rparr>, e)"
    by (simp add: placeStoneInOutTray_def f6 tray)
  have on: "onStoneStopped (cfg e)" by (simp add: c demo_cfg_values)
  from h have s7: "s7 = s6\<lparr>velocity := \<lparr>vx = 0, vy = 0\<rparr>,
                 pendingRotationRate := 0, rotationRate := 0, rotationActivated := True,
                 angle := 0, isLaunched := False, isOut := True, hasStoppedNotified := True\<rparr>"
    and e1: "e1 = e\<lparr>events := events e @ [StoneStopped RED 1]\<rparr>"
    unfolding handleStoneOut_def Let_def pl by (auto simp: notify_def on f6)
  show ?thesis
    by (rule that[OF st]) (simp_all add: s7 e1 f6)
qed

lemma stepStone_spin:
  assumes st: "stepStone dt actY s (e, am) = Some (s', e', am')"
    and l: "isLaunched s" and na: "\<not> rotationActivated s" and r0: "rotationRate s = 0"
  shows "if \<not> isLaunched s'
         then rotationRate s' = 0 \<and> pendingRotationRate s' = 0 \<and> rotationActivated s'
         else if SPEED_EPSILON < hypot (vx (velocity s)) (vy (velocity s)) \<and> pendingRotationRate s \<noteq> 0
            \<and> ((py (position s) < actY \<and> py (position s') \<ge> actY)
                \<or> (py (position s) > actY \<and> py (position s') \<le> actY)
                \<or> py (position s') = actY)
         then rotationRate s' = pendingRotationRate s \<and> pendingRotationRate s' = 0
              \<and> rotationActivated s'
         else rotationRate s' = 0 \<and> pendingRotationRate s' = pendingRotationRate s
              \<and> \<not> rotationActivated s'"
proof (cases "isLaunched s'")
  case True
  with stepStone_activation[OF st l na r0 True] show ?thesis by simp
next
  case False
  with stepStone_out[OF st l False] show ?thesis by simp
qed

lemma step_spin:
  assumes st: "step dt e = Some e''" and k: "k < length (stones e)"
    and l: "isLaunched (stones e ! k)" and na: "\<not> rotationActivated (stones e ! k)"
    and r0: "rotationRate (stones e ! k) = 0" and u: "k \<notin> set (touched dt e)"
  shows "if \<not> isLaunched (stones e'' ! k)
         then rotationRate (stones e'' ! k) = 0 \<and> pendingRotationRate (stones e'' ! k) = 0
              \<and> rotationActivated (stones e'' ! k)
         else if SPEED_EPSILON < hypot (vx (velocity (stones e ! k))) (vy (velocity (stones e ! k)))
            \<and> pendingRotationRate (stones e ! k) \<noteq> 0
            \<and> ((py (position (stones e ! k)) < rotationActivationY (cfg e)
                   \<and> py (position (stones e'' ! k)) \<ge> rotationActivationY (cfg e))
                \<or> (py (position (stones e ! k)) > rotationActivationY (cfg e)
                   \<and> py (position (stones e'' ! k)) \<le> rotationActivationY (cfg e))
                \<or> py (position (stones e'' ! k)) = rotationActivationY (cfg e))
         then rotationRate (stones e'' ! k) = pendingRotationRate (stones e ! k)
              \<and> pendingRotationRate (stones e'' ! k) = 0
              \<and> rotationActivated (stones e'' ! k)
         else rotationRate (stones e'' ! k) = 0
              \<and> pendingRotationRate (stones e'' ! k) = pendingRotationRate (stones e ! k)
              \<and> \<not> rotationActivated (stones e'' ! k)"
  using st
proof (cases rule: step_stones)
  case (1 ss e1 m)
  have c1: "cfg e1 = cfg e" and len: "length ss = length (stones e)"
    using stepStones_props[OF 1(1)] by simp_all
  from u have u': "k \<notin> set (touchedBy (cfg e) dt ss)" by (simp add: touched_def 1(1) c1)
  from untouched[OF _ u'] k len have same: "stones e'' ! k = ss ! k" unfolding 1(2) by simp
  from stepStones_nth[OF 1(1) k] obtain ek mk ek' mk' where
    sk: "stepStone dt (rotationActivationY (cfg e)) (stones e ! k) (ek, mk) = Some (ss ! k, ek', mk')"
    by blast
  from stepStone_spin[OF sk l na r0] show ?thesis unfolding same .
qed

lemma sheet_step_first:
  assumes st: "stepStone dt (rotationActivationY (cfg demoEngine)) s (sheetWith s n, False) = Some (s', e1, am)"
  obtains e'' where "step dt (sheetWith s n) = Some e''" "stones e'' ! 0 = s'"
    "length (stones e'') = 2" "events e'' = events e1" "touched dt (sheetWith s n) = []"
proof -
  let ?b = "stones demoEngine ! 1"
  have idle: "stepStone dt a ?b (e1, am) = Some (?b, e1, am)" for a
    using sheetWith_fields(6) by (simp add: stepStone_def)
  have ss: "stepStones dt (rotationActivationY (cfg (sheetWith s n))) (stones (sheetWith s n)) (sheetWith s n, False)
      = Some ([s', ?b], e1, am)"
    using st idle[of "rotationActivationY (cfg demoEngine)"] by (simp add: sheetWith_fields(1,5))
  obtain ss' col where r: "resolveCollisions (cfg e1) dt [s', ?b] = (ss', col)"
    by (cases "resolveCollisions (cfg e1) dt [s', ?b]")
  have tb: "touchedBy (cfg e1) dt [s', ?b] = []" by (rule touchedBy_pair[OF sheetWith_fields(6)])
  from untouched[of 0 "[s', ?b]" "cfg e1" dt] tb r have f0: "ss' ! 0 = s'" by simp
  from resolveCollisions_length[of "cfg e1" dt "[s', ?b]"] r have l2: "length ss' = 2" by simp
  have "\<exists>e''. step dt (sheetWith s n) = Some e'' \<and> stones e'' = ss' \<and> events e'' = events e1"
    unfolding step_def Let_def ss using r by simp
  then obtain e'' where s: "step dt (sheetWith s n) = Some e''" "stones e'' = ss'" "events e'' = events e1"
    by blast
  have tc: "touched dt (sheetWith s n) = []" unfolding touched_def ss using tb by simp
  from s f0 l2 tc show ?thesis by (intro that[of e'']) simp_all
qed

lemma demo_trays: "outTrayLayouts demoEngine col = None" "outTrayLayouts (sheetWith s n) col = None"
  by (simp_all add: sheetWith_def demoEngine_def initializeStones_def registerStone_def Let_def
        newPhysicsEngine_def)

subsection \<open>Hog-line timing in a step\<close>

lemma stepStone_timing:
  assumes st: "stepStone dt actY s (e, am) = Some (s', e', am')" and l: "isLaunched s"
  defines "moved \<equiv> fst (glide (cfg e) dt (spinDecay (cfg e) s dt))"
  defines "checked \<equiv> SPEED_EPSILON < hypot (vx (velocity s)) (vy (velocity s))
                        \<and> \<not> isOutOfBounds (cfg e) moved"
  shows "nearCrossedAt (hogTiming s') =
          (if nearCrossedAt (hogTiming s) = None \<and> checked
              \<and> crossesHog (py (position s)) (py (position moved)) (hogLineNear (cfg e))
           then Some (clock e (clockReads e)) else nearCrossedAt (hogTiming s))
      \<and> farCrossedAt (hogTiming s') =
          (if nearCrossedAt (hogTiming s') \<noteq> None \<and> farCrossedAt (hogTiming s) = None \<and> checked
              \<and> crossesHog (py (position s)) (py (position moved)) (hogLineFar (cfg e))
           then Some (clock e (clockReads e + (if newNear s s' then 1 else 0)))
           else farCrossedAt (hogTiming s))"
proof -
  have monitored: "nearCrossedAt (hogTiming s8) =
          (if nearCrossedAt (hogTiming s) = None
              \<and> crossesHog (py (position s)) (py (position s4)) (hogLineNear (cfg e))
           then Some (clock e (clockReads e)) else nearCrossedAt (hogTiming s))
       \<and> farCrossedAt (hogTiming s8) =
          (if nearCrossedAt (hogTiming s8) \<noteq> None \<and> farCrossedAt (hogTiming s) = None
              \<and> crossesHog (py (position s)) (py (position s4)) (hogLineFar (cfg e))
           then Some (clock e (clockReads e + (if newNear s s8 then 1 else 0)))
           else farCrossedAt (hogTiming s))"
    if h: "checkHogLineCrossings (checkRotationActivation (s5\<lparr>velocity := v\<rparr>) (py (position s)) actY) (py (position s)) e = (s8, e1)"
      and g: "glide (cfg e) dt (spinDecay (cfg e) s dt) = (s4, d, v)"
      and rec: "recordStonePathSample (cfg e) s4 dt d = Some s5" for s4 d v s5 s8 e1
  proof -
    note t = moved_timing[OF g rec, of "py (position s)" actY]
    note he = hog_effect[OF h, unfolded t]
    have nn: "newNear s s8 \<longleftrightarrow> nearCrossedAt (hogTiming s) = None
              \<and> crossesHog (py (position s)) (py (position s4)) (hogLineNear (cfg e))"
      unfolding newNear_def he(1) by auto
    show ?thesis unfolding nn he(1) he(2) by auto
  qed
  have pos5: "position (s5\<lparr>velocity := v\<rparr>) = position s4"
    if "recordStonePathSample (cfg e) s4 dt d = Some s5" for s4 d s5 v
    using record_shape[OF that] by (simp add: sameButPath_def)
  from st show ?thesis
  proof (cases rule: stepStone_cases)
    case idle
    with l show ?thesis by simp
  next
    case (spinning s4)
    have "hogTiming s' = hogTiming s"
      using record_shape[OF spinning(3)] spinning(5) by (simp add: sameButPath_def spinDecay_frame)
    with spinning(2) show ?thesis by (simp add: checked_def)
  next
    case (resting s4)
    have "hogTiming s' = hogTiming s"
      using record_shape[OF resting(3)] settle_frame[OF resting(5)]
      by (simp add: sameButPath_def spinDecay_frame)
    with resting(2) show ?thesis by (simp add: checked_def)
  next
    case (left s4 d v s5)
    have m: "moved = s4" by (simp add: moved_def left(3))
    have "isOutOfBounds (cfg e) moved"
      using left(5) unfolding m isOutOfBounds_position[OF pos5[OF left(4), of v]] .
    moreover have "hogTiming s' = hogTiming s"
      using record_shape[OF left(4)] glide_frame[OF left(3)] out_frame[OF left(6)]
      by (simp add: sameButPath_def spinDecay_frame)
    ultimately show ?thesis by (simp add: checked_def)
  next
    case (sliding s4 d v s5 s8)
    have m: "moved = s4" by (simp add: moved_def sliding(3))
    have c: "checked"
      using sliding(2,5) unfolding checked_def m isOutOfBounds_position[OF pos5[OF sliding(4), of v]]
      by simp
    from monitored[OF sliding(6,3,4)] c show ?thesis unfolding sliding(8) m by simp
  next
    case (halting s4 d v s5 s8 e1)
    have m: "moved = s4" by (simp add: moved_def halting(3))
    have c: "checked"
      using halting(2,5) unfolding checked_def m isOutOfBounds_position[OF pos5[OF halting(4), of v]]
      by simp
    from settle_frame[OF halting(9)]
    have h8: "hogTiming s' = hogTiming s8" by simp
    from monitored[OF halting(6,3,4)] c show ?thesis
      unfolding h8 m newNear_cong[OF refl h8] by simp
  next
    case (pivoting s4 d v s5 s8)
    have m: "moved = s4" by (simp add: moved_def pivoting(3))
    have c: "checked"
      using pivoting(2,5) unfolding checked_def m isOutOfBounds_position[OF pos5[OF pivoting(4), of v]]
      by simp
    have h8: "hogTiming s' = hogTiming s8" using pivoting(9) by simp
    from monitored[OF pivoting(6,3,4)] c show ?thesis
      unfolding h8 m newNear_cong[OF refl h8] by simp
  qed
qed

lemma gliding_moved:
  assumes c: "cfg e = cfg demoEngine" and dt: "dt = 0.03"
    and f: "position s = \<lparr>px = 0, py = y0\<rparr>" "velocity s = \<lparr>vx = 0, vy = 2\<rparr>"
      "rotationRate s = 0" "angle s = 0"
  shows "position (fst (glide (cfg e) dt (spinDecay (cfg e) s dt))) = \<lparr>px = 0, py = y0 + 0.05996664\<rparr>"
proof -
  have dec: "spinDecay (cfg demoEngine) s dt = s"
    by (simp add: spinDecay_still advanceAngle_still f)
  have c0: "computeCurlHeadingDelta (cfg demoEngine) (s\<lparr>hasStoppedNotified := False\<rparr>) sp d dto = 0"
    for sp d dto
    by (subst curl_cases) (simp add: f)
  have fr: "frictionAt (cfg demoEngine) 2 = 0.2224 / 3"
    by (simp add: frictionAt_def demo_friction)
  have "glide (cfg demoEngine) dt s
      = (s\<lparr>hasStoppedNotified := False, position := \<lparr>px = 0, py = y0 + 0.05996664\<rparr>\<rparr>,
         0.05996664, \<lparr>vx = 0, vy = 1.997776\<rparr>)"
    by (simp add: glide_def Let_def f hypot_zero_left c0 fr dt)
  then show ?thesis unfolding c dec by simp
qed

lemma drifting_moved:
  assumes c: "cfg e = cfg demoEngine" and dt: "dt = 0.03"
  shows "position (fst (glide (cfg e) dt (spinDecay (cfg e) (driftingStone y0) dt)))
       = \<lparr>px = 2.23797219, py = y0 + 0.02396292\<rparr>"
  unfolding c drifting_glide[OF dt] by simp

lemma demo_bounds:
  "isOutOfBounds (cfg demoEngine) s \<longleftrightarrow>
     px (position s) \<le> - 2.3749 + 0.14605 \<or> 2.3749 - 0.14605 \<le> px (position s)
     \<or> 1.8288 \<le> py (position s) - 0.14605"
  by (simp add: isOutOfBounds_def demo_sheet demo_cfg_values Let_def)

section \<open>The claims\<close>

text \<open>
  C7. In every state of the engine that the public operations can reach, the path trace of
  every stone has at most \<^verbatim>\<open>maxPathSamples\<close> points. A sample appended to a trace that is
  at the cap evicts exactly the oldest point: this holds for the terminal point
  (\<^verbatim>\<open>appendTerminalPathPoint\<close>, which appends when the position differs from the last
  point) and for a sample of the interval loop (\<^verbatim>\<open>recordStonePathSample\<close> on a moving
  stone whose timer reaches the interval once), and the call returns.
\<close>

theorem pathSamples_within_cap:
  "reachable e \<Longrightarrow>
     (\<forall>s \<in> set (stones e). length (pathSamples s) \<le> maxPathSamples (cfg e))
   \<and> (\<forall>s. length (pathSamples s) = maxPathSamples (cfg e) \<longrightarrow>
        (last (pathSamples s) \<noteq> position s \<longrightarrow>
           pathSamples (appendTerminalPathPoint (cfg e) s) = tl (pathSamples s) @ [position s])
      \<and> (\<forall>dt d. 0 < d \<and> 0 < dt \<and> pathSampleInterval (cfg e) \<le> pathSampleTimer s + dt
               \<and> pathSampleTimer s + dt < 2 * pathSampleInterval (cfg e) \<longrightarrow>
           (\<exists>s'. recordStonePathSample (cfg e) s dt d = Some s'
                 \<and> pathSamples s' = tl (pathSamples s) @ [position s])))"
proof -
  assume r: "reachable e"
  then have cap: "0 < maxPathSamples (cfg e)" using reachable_cfg by simp
  show ?thesis
    using reachable_path[OF r] appendTerminal_evicts[OF _ cap] recordMoving_evicts[OF _ cap]
    by blast
qed

theorem pathSamples_within_cap_witness:
  "reachable demoEngine
   \<and> length (stones demoEngine) = 2
   \<and> length (pathSamples (stones demoEngine ! 0)) \<le> 240
   \<and> length (pathSamples (stones demoEngine ! 1)) \<le> 240
   \<and> pathSamples (appendTerminalPathPoint (cfg demoEngine)
        (hd (stones demoEngine)\<lparr>pathSamples := replicate 240 \<lparr>px = - 2, py = - 40\<rparr>,
                                 position := \<lparr>px = - 2, py = - 39\<rparr>\<rparr>))
      = replicate 239 \<lparr>px = - 2, py = - 40\<rparr> @ [\<lparr>px = - 2, py = - 39\<rparr>]"
proof -
  let ?s = "hd (stones demoEngine)\<lparr>pathSamples := replicate 240 \<lparr>px = - 2, py = - 40\<rparr>,
                                 position := \<lparr>px = - 2, py = - 39\<rparr>\<rparr>"
  note w = pathSamples_within_cap[OF demoEngine_reachable]
  have cap: "maxPathSamples (cfg demoEngine) = 240"
    by (simp add: demoEngine_cfg newPhysicsEngine_def MAX_PATH_SAMPLE_POINTS_def)
  have len: "length (pathSamples ?s) = maxPathSamples (cfg demoEngine)" by (simp add: cap)
  have lst: "last (pathSamples ?s) \<noteq> position ?s" by simp
  have tl: "tl (replicate 240 \<lparr>px = - 2, py = - 40::real\<rparr>) = replicate 239 \<lparr>px = - 2, py = - 40\<rparr>"
    by (simp add: tl_replicate)
  have n: "length (stones demoEngine) = 2"
    by (simp add: demoEngine_def initializeStones_stones)
  from w have "\<forall>s \<in> set (stones demoEngine). length (pathSamples s) \<le> 240"
    unfolding cap by blast
  then have a: "length (pathSamples (stones demoEngine ! 0)) \<le> 240"
    "length (pathSamples (stones demoEngine ! 1)) \<le> 240"
    using n by (simp_all add: nth_mem)
  from w len lst have "pathSamples (appendTerminalPathPoint (cfg demoEngine) ?s) = tl (pathSamples ?s) @ [position ?s]"
    by blast
  then have b: "pathSamples (appendTerminalPathPoint (cfg demoEngine) ?s) = replicate 239 \<lparr>px = - 2, py = - 40\<rparr> @ [\<lparr>px = - 2, py = - 39\<rparr>]"
    by (simp add: tl)
  from demoEngine_reachable n a b show ?thesis by blast
qed

text \<open>
  C8 as stated fails: a constructor call that supplies a path-sample interval of 0.5 and a
  cap of 10 builds an engine whose path sampling uses neither.
\<close>

theorem path_sampling_not_configurable_counterexample:
  "pathSampleInterval (cfg (newPhysicsEngine
       (gameArgs\<lparr>argPathSampleInterval := Some 0.5, argMaxPathSamples := Some 10\<rparr>) demoClock)) \<noteq> 0.5
   \<and> maxPathSamples (cfg (newPhysicsEngine
       (gameArgs\<lparr>argPathSampleInterval := Some 0.5, argMaxPathSamples := Some 10\<rparr>) demoClock)) \<noteq> 10"
  by (simp add: newPhysicsEngine_def DEFAULT_PATH_SAMPLE_INTERVAL_def MAX_PATH_SAMPLE_POINTS_def)

text \<open>
  C8, amended. The path-sample interval and the cap of the trace are not construction
  configuration: whatever the constructor call supplies, the engine samples with the
  interval \<^verbatim>\<open>DEFAULT_PATH_SAMPLE_INTERVAL\<close> (1 second) and the cap
  \<^verbatim>\<open>MAX_PATH_SAMPLE_POINTS\<close> (240 points).
\<close>

theorem path_sampling_fixed:
  "pathSampleInterval (cfg (newPhysicsEngine a clk)) = DEFAULT_PATH_SAMPLE_INTERVAL
   \<and> maxPathSamples (cfg (newPhysicsEngine a clk)) = MAX_PATH_SAMPLE_POINTS
   \<and> DEFAULT_PATH_SAMPLE_INTERVAL = 1 \<and> MAX_PATH_SAMPLE_POINTS = 240"
  by (simp add: newPhysicsEngine_def DEFAULT_PATH_SAMPLE_INTERVAL_def MAX_PATH_SAMPLE_POINTS_def)

text \<open>
  C9. A call of \<^verbatim>\<open>throwStone\<close> that throws leaves the engine as it was: the stones and
  all their fields, the event log (no callback was invoked), the clock readings, the active
  flag, the timestamp baseline, the registry and the out-tray indices.
\<close>

theorem throwStone_atomic_on_failure:
  "fst (throwStone a e) = Inl err \<Longrightarrow> snd (throwStone a e) = e"
  by (auto simp: throwStone_def Let_def split: option.splits if_splits prod.splits)

theorem throwStone_atomic_on_failure_witness:
  "fst (throwStone (demoThrow\<lparr>throwNumber := Some 7\<rparr>) demoEngine) = Inl (InvalidArgument NotRegistered)
   \<and> snd (throwStone (demoThrow\<lparr>throwNumber := Some 7\<rparr>) demoEngine) = demoEngine"
proof -
  have f: "fst (throwStone (demoThrow\<lparr>throwNumber := Some 7\<rparr>) demoEngine) = Inl (InvalidArgument NotRegistered)"
    by (simp add: throwStone_def demoThrow_def demoEngine_def initializeStones_def registerStone_def
        newStone_def attachTiming_def resetStonePath_def orDefault_def findStone_def makeStoneKey_def Let_def)
  from throwStone_atomic_on_failure[OF f] f show ?thesis by simp
qed



text \<open>
  C4 as stated fails in two places. A rotation rate exactly at the minimum-omega threshold
  (0.05 with the defaults) does not exceed it, and the heading delta is not zero: the code
  returns early only when the rate is below the threshold. And with a negative asymmetry
  coefficient, which the constructor accepts, the heading delta has the sign of the spin.
\<close>

theorem curl_heading_delta_counterexample:
  "\<not> (\<bar>rotationRate (hd (stones demoEngine)\<lparr>rotationRate := 0.05\<rparr>)\<bar> > curlMinOmega (cfg demoEngine))
   \<and> computeCurlHeadingDelta (cfg demoEngine) (hd (stones demoEngine)\<lparr>rotationRate := 0.05\<rparr>)
         1 0.016 (Some 0.016) = - 0.000006976
   \<and> rotationRate (hd (stones demoEngine)\<lparr>rotationRate := 6\<rparr>) = 6
   \<and> computeCurlHeadingDelta
         (cfg (newPhysicsEngine (demoArgs\<lparr>argCurlAsymmetry := Some (- 0.008)\<rparr>) demoClock))
         (hd (stones demoEngine)\<lparr>rotationRate := 6\<rparr>) 1 0.016 (Some 0.016) = 0.00083712"
proof -
  have a: "computeCurlHeadingDelta (cfg demoEngine) (hd (stones demoEngine)\<lparr>rotationRate := 0.05\<rparr>)
         1 0.016 (Some 0.016) = - 0.000006976"
    by (subst curl_cases) (simp add: demo_curl GRAVITY_def SPEED_EPSILON_def)
  have b: "computeCurlHeadingDelta
         (cfg (newPhysicsEngine (demoArgs\<lparr>argCurlAsymmetry := Some (- 0.008)\<rparr>) demoClock))
         (hd (stones demoEngine)\<lparr>rotationRate := 6\<rparr>) 1 0.016 (Some 0.016) = 0.00083712"
    by (subst curl_cases)
       (simp add: newPhysicsEngine_def orDefault_def demoArgs_def gameArgs_def GRAVITY_def
          SPEED_EPSILON_def DEFAULT_CURL_MIN_OMEGA_def DEFAULT_CURL_MIN_SPEED_def
          DEFAULT_CURL_ROTATION_REFERENCE_def DEFAULT_CURL_VELOCITY_BIAS_def)
  from a b show ?thesis by (simp add: demo_curl)
qed

text \<open>
  C4, amended. For every stone, speed, displacement and step duration,
  \<^verbatim>\<open>computeCurlHeadingDelta\<close> lies within \<open>[-0.35, 0.35]\<close>; it is 0 whenever
  \<open>|rotationRate|\<close> is below the minimum-omega threshold (a rate at the threshold is
  active); and when it is not zero and the asymmetry coefficient is not negative, its sign
  is opposite to the sign of \<^verbatim>\<open>rotationRate\<close>.
\<close>

theorem curl_heading_delta_bounded:
  "- 0.35 \<le> computeCurlHeadingDelta c s speed displacement deltaSeconds
   \<and> computeCurlHeadingDelta c s speed displacement deltaSeconds \<le> 0.35
   \<and> (\<bar>rotationRate s\<bar> < curlMinOmega c \<longrightarrow>
         computeCurlHeadingDelta c s speed displacement deltaSeconds = 0)
   \<and> (computeCurlHeadingDelta c s speed displacement deltaSeconds \<noteq> 0 \<and> 0 \<le> curlAsymmetry c \<longrightarrow>
         sgn (computeCurlHeadingDelta c s speed displacement deltaSeconds) = - sgn (rotationRate s))"
  using curl_bounds curl_inactive curl_sign by blast

theorem curl_heading_delta_bounded_witness:
  "computeCurlHeadingDelta (cfg demoEngine) (hd (stones demoEngine)\<lparr>rotationRate := 6\<rparr>)
         1 0.016 (Some 0.016) = - 0.00083712
   \<and> 0 \<le> curlAsymmetry (cfg demoEngine)
   \<and> sgn (computeCurlHeadingDelta (cfg demoEngine) (hd (stones demoEngine)\<lparr>rotationRate := 6\<rparr>)
         1 0.016 (Some 0.016)) = - sgn (rotationRate (hd (stones demoEngine)\<lparr>rotationRate := 6\<rparr>))
   \<and> \<bar>rotationRate (hd (stones demoEngine)\<lparr>rotationRate := 0.01\<rparr>)\<bar> < curlMinOmega (cfg demoEngine)
   \<and> computeCurlHeadingDelta (cfg demoEngine) (hd (stones demoEngine)\<lparr>rotationRate := 0.01\<rparr>)
         1 0.016 (Some 0.016) = 0"
proof -
  have v: "computeCurlHeadingDelta (cfg demoEngine) (hd (stones demoEngine)\<lparr>rotationRate := 6\<rparr>)
         1 0.016 (Some 0.016) = - 0.00083712"
    by (subst curl_cases) (simp add: demo_curl GRAVITY_def SPEED_EPSILON_def)
  have a: "0 \<le> curlAsymmetry (cfg demoEngine)" by (simp add: demo_curl)
  have m: "\<bar>rotationRate (hd (stones demoEngine)\<lparr>rotationRate := 0.01\<rparr>)\<bar> < curlMinOmega (cfg demoEngine)"
    by (simp add: demo_curl)
  note t1 = curl_heading_delta_bounded[of "cfg demoEngine" "hd (stones demoEngine)\<lparr>rotationRate := 6\<rparr>" 1 "0.016" "Some 0.016"]
  note t2 = curl_heading_delta_bounded[of "cfg demoEngine" "hd (stones demoEngine)\<lparr>rotationRate := 0.01\<rparr>" 1 "0.016" "Some 0.016"]
  from v have nz: "computeCurlHeadingDelta (cfg demoEngine) (hd (stones demoEngine)\<lparr>rotationRate := 6\<rparr>)
         1 0.016 (Some 0.016) \<noteq> 0" by simp
  from t1 nz a have s: "sgn (computeCurlHeadingDelta (cfg demoEngine) (hd (stones demoEngine)\<lparr>rotationRate := 6\<rparr>)
         1 0.016 (Some 0.016)) = - sgn (rotationRate (hd (stones demoEngine)\<lparr>rotationRate := 6\<rparr>))"
    by blast
  from t2 m have z: "computeCurlHeadingDelta (cfg demoEngine) (hd (stones demoEngine)\<lparr>rotationRate := 0.01\<rparr>)
         1 0.016 (Some 0.016) = 0" by blast
  from v a s m z show ?thesis by blast
qed

text \<open>
  C3 as stated fails in two ways. The friction of the formula comes from construction values
  that the engine takes as they are: with a friction baseline of -1 a launched stone at rest that
  spins at 1 rad/s spins at 2.15752 rad/s after a step of one second. And a step that rules the
  stone out does not leave the magnitude of the formula: with the constants of the game a
  launched stone at rest short of the far hog line that spins at 0.011 rad/s is ruled out in a
  step of 0.016 s and its spin is 0, where the formula gives 0.00675296.
\<close>

theorem spin_decay_counterexample:
  "isLaunched spinningStone \<and> rotationActivated spinningStone \<and> rotationRate spinningStone = 1
   \<and> stepStone 1 (- 28.956) spinningStone
        (newPhysicsEngine (demoArgs\<lparr>argFrictionBaseline := Some (- 1)\<rparr>) demoClock, False) \<noteq> None
   \<and> rotationRate (fst (the (stepStone 1 (- 28.956) spinningStone
        (newPhysicsEngine (demoArgs\<lparr>argFrictionBaseline := Some (- 1)\<rparr>) demoClock, False))))
       = 2.15752
   \<and> isLaunched slowSpinner \<and> rotationActivated slowSpinner \<and> rotationRate slowSpinner = 0.011
   \<and> velocity slowSpinner = \<lparr>vx = 0, vy = 0\<rparr>
   \<and> max 0 (\<bar>0.011\<bar> - 1.4 * frictionAt (cfg demoEngine) 0 * 0.016) = 0.00675296
   \<and> stepStone 0.016 (- 28.956) slowSpinner (demoEngine, False) \<noteq> None
   \<and> rotationRate (fst (the (stepStone 0.016 (- 28.956) slowSpinner (demoEngine, False)))) = 0"
proof -
  let ?e = "newPhysicsEngine (demoArgs\<lparr>argFrictionBaseline := Some (- 1)\<rparr>) demoClock"
  have fr: "frictionAt (cfg ?e) 0 = - 0.8268"
    by (simp add: frictionAt_def newPhysicsEngine_def orDefault_def demoArgs_def gameArgs_def
        DEFAULT_FRICTION_SPEED_FACTOR_def DEFAULT_FRICTION_LOW_SPEED_EPS_def)
  have rate: "rotationRate (spinDecay (cfg ?e) spinningStone 1) = 2.15752"
    by (simp add: spinDecay_rate spinningStone_fields hypot_zero_right fr decayRotation_def
        SPEED_EPSILON_def Let_def)
  have st: "stepStone 1 (- 28.956) spinningStone (?e, False)
      = Some ((spinDecay (cfg ?e) spinningStone 1)\<lparr>velocity := \<lparr>vx = 0, vy = 0\<rparr>, hasStoppedNotified := False\<rparr>, ?e, True)"
    by (simp add: stepStone_def Let_def spinningStone_fields spinDecay_frame hypot_zero_right rate
        SPEED_EPSILON_def recordStonePathSample_def appendTerminalPathPoint_def)
  have a: "stepStone 1 (- 28.956) spinningStone (?e, False) \<noteq> None
     \<and> rotationRate (fst (the (stepStone 1 (- 28.956) spinningStone (?e, False)))) = 2.15752"
    unfolding st using rate by simp
  have fd: "frictionAt (cfg demoEngine) 0 = 0.1896"
    by (simp add: frictionAt_def demo_friction)
  have f: "max 0 (\<bar>0.011\<bar> - 1.4 * frictionAt (cfg demoEngine) 0 * 0.016) = (0.00675296::real)"
    by (simp add: fd)
  have "0 < pathSampleInterval (cfg demoEngine)" by (simp add: demo_friction)
  from stepStone_total[OF this, of "0.016" "- 28.956" slowSpinner False]
  obtain s' e' m where sl: "stepStone 0.016 (- 28.956) slowSpinner (demoEngine, False) = Some (s', e', m)"
    by (metis prod_cases3)
  from slowSpinner_out[OF refl sl] have b: "stepStone 0.016 (- 28.956) slowSpinner (demoEngine, False) \<noteq> None
     \<and> rotationRate (fst (the (stepStone 0.016 (- 28.956) slowSpinner (demoEngine, False)))) = 0"
    unfolding sl by simp
  from a f b spinningStone_fields(3,4,5) slowSpinner_fields show ?thesis by blast
qed

text \<open>
  C3, amended. For every launched stone whose \<^verbatim>\<open>rotationRate\<close> is not zero, with
  \<open>speed + frictionLowSpeedEps\<close> not zero, one integration step ends in one of three ways: the
  stone is ruled out in that step, and its spin is 0; or it stays in play and its spin is
  activated in that step, and its spin is the pending rate; or it stays in play otherwise, and the
  magnitude of its spin is \<open>max(0, |rotationRate| - m * friction * dt)\<close>, with
  \<open>friction = frictionBaseline + frictionSpeedFactor / (speed + frictionLowSpeedEps)\<close> and
  \<open>m = 1.4\<close> when the speed is at or below the speed epsilon and \<open>0.7\<close> otherwise, and the
  spin is zero or has the sign of \<^verbatim>\<open>rotationRate\<close>. When the friction baseline and speed
  factor are not negative, the low-speed epsilon is positive and the step duration is not
  negative, the integration of a launched stone whose spin is activated returns and does not
  increase \<open>|rotationRate|\<close> (a collision apart).
\<close>

theorem spin_decay:
  "(isLaunched s \<and> rotationRate s \<noteq> 0
      \<and> hypot (vx (velocity s)) (vy (velocity s)) + frictionLowSpeedEps (cfg e) \<noteq> 0
      \<and> stepStone dt activationY s (e, am) = Some (s', e', am') \<longrightarrow>
      (if \<not> isLaunched s' then rotationRate s' = 0
       else if rotationActivated s' \<and> \<not> rotationActivated s
       then rotationRate s' = pendingRotationRate s
       else \<bar>rotationRate s'\<bar> =
              max 0 (\<bar>rotationRate s\<bar>
                - (if hypot (vx (velocity s)) (vy (velocity s)) \<le> SPEED_EPSILON then 1.4 else 0.7)
                  * (frictionBaseline (cfg e)
                     + frictionSpeedFactor (cfg e)
                       / (hypot (vx (velocity s)) (vy (velocity s)) + frictionLowSpeedEps (cfg e)))
                  * dt)
            \<and> (rotationRate s' = 0 \<or> sgn (rotationRate s') = sgn (rotationRate s))))
   \<and> (isLaunched s \<and> rotationActivated s \<and> 0 \<le> dt
        \<and> 0 \<le> frictionBaseline (cfg e) \<and> 0 \<le> frictionSpeedFactor (cfg e)
        \<and> 0 < frictionLowSpeedEps (cfg e) \<and> 0 < pathSampleInterval (cfg e) \<longrightarrow>
        (\<exists>s' e' am'. stepStone dt activationY s (e, am) = Some (s', e', am')
            \<and> \<bar>rotationRate s'\<bar> \<le> \<bar>rotationRate s\<bar>))"
proof (intro conjI impI)
  assume h: "isLaunched s \<and> rotationRate s \<noteq> 0
      \<and> hypot (vx (velocity s)) (vy (velocity s)) + frictionLowSpeedEps (cfg e) \<noteq> 0
      \<and> stepStone dt activationY s (e, am) = Some (s', e', am')"
  then have st: "stepStone dt activationY s (e, am) = Some (s', e', am')" and l: "isLaunched s"
    and nz: "rotationRate s \<noteq> 0" by simp_all
  note d = stepStone_decay[OF st l]
  show "if \<not> isLaunched s' then rotationRate s' = 0
       else if rotationActivated s' \<and> \<not> rotationActivated s
       then rotationRate s' = pendingRotationRate s
       else \<bar>rotationRate s'\<bar> =
              max 0 (\<bar>rotationRate s\<bar>
                - (if hypot (vx (velocity s)) (vy (velocity s)) \<le> SPEED_EPSILON then 1.4 else 0.7)
                  * (frictionBaseline (cfg e)
                     + frictionSpeedFactor (cfg e)
                       / (hypot (vx (velocity s)) (vy (velocity s)) + frictionLowSpeedEps (cfg e)))
                  * dt)
            \<and> (rotationRate s' = 0 \<or> sgn (rotationRate s') = sgn (rotationRate s))"
  proof (cases "isLaunched s' \<and> \<not> (rotationActivated s' \<and> \<not> rotationActivated s)")
    case True
    then have l': "isLaunched s'" and na: "\<not> (rotationActivated s' \<and> \<not> rotationActivated s)"
      by simp_all
    with d have r: "rotationRate s' = rotationRate (spinDecay (cfg e) s dt)" by auto
    have "\<bar>rotationRate s'\<bar> =
              max 0 (\<bar>rotationRate s\<bar>
                - (if hypot (vx (velocity s)) (vy (velocity s)) \<le> SPEED_EPSILON then 1.4 else 0.7)
                  * (frictionBaseline (cfg e)
                     + frictionSpeedFactor (cfg e)
                       / (hypot (vx (velocity s)) (vy (velocity s)) + frictionLowSpeedEps (cfg e)))
                  * dt)
            \<and> (rotationRate s' = 0 \<or> sgn (rotationRate s') = sgn (rotationRate s))"
      using nz decay_formula[OF nz] decay_sign[OF nz]
      unfolding r by (simp add: spinDecay_rate frictionAt_def)
    with l' na show ?thesis by (simp only: if_False not_True_eq_False not_not simp_thms if_True)
  next
    case False
    with d show ?thesis by auto
  qed
next
  assume h: "isLaunched s \<and> rotationActivated s \<and> 0 \<le> dt
        \<and> 0 \<le> frictionBaseline (cfg e) \<and> 0 \<le> frictionSpeedFactor (cfg e)
        \<and> 0 < frictionLowSpeedEps (cfg e) \<and> 0 < pathSampleInterval (cfg e)"
  then obtain s' e' am' where st: "stepStone dt activationY s (e, am) = Some (s', e', am')"
    using stepStone_returns[of e dt activationY s am] by blast
  from h have "\<bar>rotationRate (spinDecay (cfg e) s dt)\<bar> \<le> \<bar>rotationRate s\<bar>"
    by (simp add: spinDecay_shrinks)
  with stepStone_rate[OF st] h have "\<bar>rotationRate s'\<bar> \<le> \<bar>rotationRate s\<bar>" by auto
  with st show "\<exists>s' e' am'. stepStone dt activationY s (e, am) = Some (s', e', am')
            \<and> \<bar>rotationRate s'\<bar> \<le> \<bar>rotationRate s\<bar>" by blast
qed

theorem spin_decay_witness:
  "isLaunched spinningStone \<and> rotationActivated spinningStone \<and> rotationRate spinningStone = 1
   \<and> hypot (vx (velocity spinningStone)) (vy (velocity spinningStone))
       + frictionLowSpeedEps (cfg demoEngine) = 1
   \<and> (\<exists>s' e' am'. stepStone 0.016 (rotationActivationY (cfg demoEngine)) spinningStone (demoEngine, False)
                      = Some (s', e', am')
         \<and> isLaunched s' \<and> \<bar>rotationRate s'\<bar> = 0.99575296
         \<and> sgn (rotationRate s') = sgn (rotationRate spinningStone)
         \<and> \<bar>rotationRate s'\<bar> \<le> \<bar>rotationRate spinningStone\<bar>)
   \<and> isLaunched slowSpinner \<and> rotationActivated slowSpinner \<and> rotationRate slowSpinner = 0.011
   \<and> (\<exists>s' e' am'. stepStone 0.016 (rotationActivationY (cfg demoEngine)) slowSpinner (demoEngine, False)
                      = Some (s', e', am')
         \<and> \<not> isLaunched s' \<and> rotationRate s' = 0)"
proof -
  define A where "A = rotationActivationY (cfg demoEngine)"
  have f: "isLaunched spinningStone" "rotationActivated spinningStone" "rotationRate spinningStone = 1"
    "velocity spinningStone = \<lparr>vx = 0, vy = 0\<rparr>"
    by (simp_all add: spinningStone_fields)
  have hs: "hypot (vx (velocity spinningStone)) (vy (velocity spinningStone))
       + frictionLowSpeedEps (cfg demoEngine) = 1"
    by (simp add: f hypot_zero_right demo_friction)
  have hyp: "isLaunched spinningStone \<and> rotationActivated spinningStone \<and> 0 \<le> (0.016::real)
        \<and> 0 \<le> frictionBaseline (cfg demoEngine) \<and> 0 \<le> frictionSpeedFactor (cfg demoEngine)
        \<and> 0 < frictionLowSpeedEps (cfg demoEngine) \<and> 0 < pathSampleInterval (cfg demoEngine)"
    by (simp add: spinningStone_fields demo_friction)
  with spin_decay[of spinningStone demoEngine "0.016" A False]
  obtain s' e' am' where st: "stepStone 0.016 A spinningStone (demoEngine, False) = Some (s', e', am')"
    and le: "\<bar>rotationRate s'\<bar> \<le> \<bar>rotationRate spinningStone\<bar>" by blast
  have l': "isLaunched s'" by (rule spinningStone_stays[OF refl st])
  from spin_decay[of spinningStone demoEngine "0.016" A False s' e' am'] f hs st l'
  have r: "\<bar>rotationRate s'\<bar> =
              max 0 (\<bar>rotationRate spinningStone\<bar>
                - (if hypot (vx (velocity spinningStone)) (vy (velocity spinningStone)) \<le> SPEED_EPSILON
                   then 1.4 else 0.7)
                  * (frictionBaseline (cfg demoEngine)
                     + frictionSpeedFactor (cfg demoEngine)
                       / (hypot (vx (velocity spinningStone)) (vy (velocity spinningStone))
                          + frictionLowSpeedEps (cfg demoEngine)))
                  * 0.016)"
    "rotationRate s' = 0 \<or> sgn (rotationRate s') = sgn (rotationRate spinningStone)"
    by simp_all
  from r(1) have v: "\<bar>rotationRate s'\<bar> = 0.99575296"
    by (simp add: f hypot_zero_right demo_friction SPEED_EPSILON_def)
  with r(2) have sg: "sgn (rotationRate s') = sgn (rotationRate spinningStone)" by auto
  from st l' v sg le have p1: "\<exists>s' e' am'. stepStone 0.016 A spinningStone (demoEngine, False)
                      = Some (s', e', am')
         \<and> isLaunched s' \<and> \<bar>rotationRate s'\<bar> = 0.99575296
         \<and> sgn (rotationRate s') = sgn (rotationRate spinningStone)
         \<and> \<bar>rotationRate s'\<bar> \<le> \<bar>rotationRate spinningStone\<bar>" by blast
  have "0 < pathSampleInterval (cfg demoEngine)" by (simp add: demo_friction)
  from stepStone_total[OF this, of "0.016" A slowSpinner False]
  obtain t g m where sl: "stepStone 0.016 A slowSpinner (demoEngine, False) = Some (t, g, m)"
    by (metis prod_cases3)
  from slowSpinner_out[OF refl sl] have nl: "\<not> isLaunched t" by simp
  have hq: "hypot (vx (velocity slowSpinner)) (vy (velocity slowSpinner))
       + frictionLowSpeedEps (cfg demoEngine) \<noteq> 0"
    by (simp add: slowSpinner_fields hypot_zero_right demo_friction)
  from spin_decay[of slowSpinner demoEngine "0.016" A False t g m] sl nl hq
  have "rotationRate t = 0" by (simp add: slowSpinner_fields)
  with sl nl have p2: "\<exists>s' e' am'. stepStone 0.016 A slowSpinner (demoEngine, False)
                      = Some (s', e', am') \<and> \<not> isLaunched s' \<and> rotationRate s' = 0" by blast
  from f(1,2,3) hs p1 p2 slowSpinner_fields(3,4,5) show ?thesis unfolding A_def by blast
qed

text \<open>
  C1 fails on every pair of stones that approach each other, by a slip of the code. The guard
  of the rewind block tests \<^verbatim>\<open>relVelAlongNormal < -SPEED_EPSILON\<close>, where the relative velocity
  is the velocity of A minus that of B and the normal points from A to B: that is true of stones
  that move apart. Two stones whose centres are 0.2 m apart (radius 0.14605 m) overlap by
  0.0921 m; when they move towards each other at 1 m/s each, the relative velocity along the
  normal is 2 m/s and the contact leaves the rewind block as it entered it, in a step of 0.02 s
  as in one of 0.005 s. The guard also asks for a step longer than the speed epsilon: the pair
  that moves apart (relative velocity -2 m/s) is not rewound in a step of 0.005 s, which is
  positive.
\<close>

theorem rewind_counterexample:
  "initialContact 0.2921 (stoneAt 0 0 (- 1) 0) (stoneAt 0.2 0 1 0)
     = Some \<lparr>stoneA = stoneAt 0 0 (- 1) 0, stoneB = stoneAt 0.2 0 1 0, sepX = 0.2, sepY = 0,
             normalX = 1, normalY = 0, relVelAlongNormal = - 2, rewindTime = 0\<rparr>
   \<and> rewindContact 0.2921 0.005
        \<lparr>stoneA = stoneAt 0 0 (- 1) 0, stoneB = stoneAt 0.2 0 1 0, sepX = 0.2, sepY = 0,
         normalX = 1, normalY = 0, relVelAlongNormal = - 2, rewindTime = 0\<rparr>
     = \<lparr>stoneA = stoneAt 0 0 (- 1) 0, stoneB = stoneAt 0.2 0 1 0, sepX = 0.2, sepY = 0,
        normalX = 1, normalY = 0, relVelAlongNormal = - 2, rewindTime = 0\<rparr>
   \<and> initialContact 0.2921 (stoneAt 0 0 1 0) (stoneAt 0.2 0 (- 1) 0)
     = Some \<lparr>stoneA = stoneAt 0 0 1 0, stoneB = stoneAt 0.2 0 (- 1) 0, sepX = 0.2, sepY = 0,
             normalX = 1, normalY = 0, relVelAlongNormal = 2, rewindTime = 0\<rparr>
   \<and> rewindContact 0.2921 0.005
        \<lparr>stoneA = stoneAt 0 0 1 0, stoneB = stoneAt 0.2 0 (- 1) 0, sepX = 0.2, sepY = 0,
         normalX = 1, normalY = 0, relVelAlongNormal = 2, rewindTime = 0\<rparr>
     = \<lparr>stoneA = stoneAt 0 0 1 0, stoneB = stoneAt 0.2 0 (- 1) 0, sepX = 0.2, sepY = 0,
        normalX = 1, normalY = 0, relVelAlongNormal = 2, rewindTime = 0\<rparr>
   \<and> rewindContact 0.2921 0.02
        \<lparr>stoneA = stoneAt 0 0 1 0, stoneB = stoneAt 0.2 0 (- 1) 0, sepX = 0.2, sepY = 0,
         normalX = 1, normalY = 0, relVelAlongNormal = 2, rewindTime = 0\<rparr>
     = \<lparr>stoneA = stoneAt 0 0 1 0, stoneB = stoneAt 0.2 0 (- 1) 0, sepX = 0.2, sepY = 0,
        normalX = 1, normalY = 0, relVelAlongNormal = 2, rewindTime = 0\<rparr>
   \<and> (0::real) < 0.005 \<and> COLLISION_EPSILON < 0.2921 - hypot 0.2 0"
  by (simp add: initialContact_def Let_def stoneAt_fields hypot_zero_right COLLISION_EPSILON_def
      rewind_short_step SPEED_EPSILON_def rewindContact_cases)

text \<open>
  C1, as the code has it. The contact of a pair holds the relative velocity of A with respect to
  B along the normal from A to B; multiplied by the distance it is the scalar product of that
  relative velocity with the separation, so it is positive when the stones approach each other.
  A rewind is computed (the rewind time becomes positive) exactly when the pair overlaps by more
  than the collision epsilon, that relative velocity is below \<open>-SPEED_EPSILON\<close> and the step is
  longer than the speed epsilon; in every other case, so whenever the stones approach each other,
  the block leaves the contact as it is. When a rewind is computed the rewind time is
  \<open>min(overlap / (-relVelAlongNormal + 1e-6), deltaSeconds)\<close>, positive and at most the duration
  of the step, both positions are rewound by that time along the velocities the stones had,
  which are kept, and the separation, the normal and the relative velocity along the normal are
  recomputed at the rewound positions.
\<close>

theorem rewind_when_separating:
  "(initialContact minDistance a b = Some k \<longrightarrow>
        rewindTime k = 0 \<and> stoneA k = a \<and> stoneB k = b
        \<and> sepX k = px (position b) - px (position a) \<and> sepY k = py (position b) - py (position a)
        \<and> relVelAlongNormal k =
             (vx (velocity a) - vx (velocity b)) * normalX k
             + (vy (velocity a) - vy (velocity b)) * normalY k
        \<and> (COLLISION_EPSILON < hypot (sepX k) (sepY k) \<longrightarrow>
             normalX k = sepX k / hypot (sepX k) (sepY k)
             \<and> normalY k = sepY k / hypot (sepX k) (sepY k)
             \<and> relVelAlongNormal k * hypot (sepX k) (sepY k) =
                 (vx (velocity a) - vx (velocity b)) * (px (position b) - px (position a))
                 + (vy (velocity a) - vy (velocity b)) * (py (position b) - py (position a))))
   \<and> (rewindTime k = 0 \<longrightarrow>
        (0 < rewindTime (rewindContact minDistance deltaSeconds k))
        = (COLLISION_EPSILON < minDistance - hypot (sepX k) (sepY k)
           \<and> relVelAlongNormal k < - SPEED_EPSILON \<and> SPEED_EPSILON < deltaSeconds))
   \<and> (\<not> (COLLISION_EPSILON < minDistance - hypot (sepX k) (sepY k)
           \<and> relVelAlongNormal k < - SPEED_EPSILON \<and> SPEED_EPSILON < deltaSeconds) \<longrightarrow>
        rewindContact minDistance deltaSeconds k = k)
   \<and> (- SPEED_EPSILON \<le> relVelAlongNormal k \<longrightarrow> rewindContact minDistance deltaSeconds k = k)
   \<and> (rewindTime k = 0 \<and> COLLISION_EPSILON < minDistance - hypot (sepX k) (sepY k)
        \<and> relVelAlongNormal k < - SPEED_EPSILON \<and> SPEED_EPSILON < deltaSeconds \<longrightarrow>
        (let t = min ((minDistance - hypot (sepX k) (sepY k)) / (- relVelAlongNormal k + 0.000001))
                     deltaSeconds;
             k' = rewindContact minDistance deltaSeconds k
         in rewindTime k' = t \<and> 0 < t \<and> t \<le> deltaSeconds
            \<and> position (stoneA k') = \<lparr>px = px (position (stoneA k)) - vx (velocity (stoneA k)) * t,
                                        py = py (position (stoneA k)) - vy (velocity (stoneA k)) * t\<rparr>
            \<and> position (stoneB k') = \<lparr>px = px (position (stoneB k)) - vx (velocity (stoneB k)) * t,
                                        py = py (position (stoneB k)) - vy (velocity (stoneB k)) * t\<rparr>
            \<and> velocity (stoneA k') = velocity (stoneA k) \<and> velocity (stoneB k') = velocity (stoneB k)
            \<and> sepX k' = px (position (stoneB k')) - px (position (stoneA k'))
            \<and> sepY k' = py (position (stoneB k')) - py (position (stoneA k'))
            \<and> normalX k' = (if hypot (sepX k') (sepY k') > COLLISION_EPSILON
                             then sepX k' / hypot (sepX k') (sepY k') else normalX k)
            \<and> normalY k' = (if hypot (sepX k') (sepY k') > COLLISION_EPSILON
                             then sepY k' / hypot (sepX k') (sepY k') else normalY k)
            \<and> relVelAlongNormal k' =
                 (vx (velocity (stoneA k)) - vx (velocity (stoneB k))) * normalX k'
                 + (vy (velocity (stoneA k)) - vy (velocity (stoneB k))) * normalY k'))"
proof (intro conjI impI)
  assume ic: "initialContact minDistance a b = Some k"
  from initialContact_fields[OF ic]
  show "rewindTime k = 0" "stoneA k = a" "stoneB k = b"
    "sepX k = px (position b) - px (position a)" "sepY k = py (position b) - py (position a)"
    by simp_all
  show "relVelAlongNormal k =
             (vx (velocity a) - vx (velocity b)) * normalX k
             + (vy (velocity a) - vy (velocity b)) * normalY k"
    by (rule initialContact_normal(1)[OF ic])
  {
    assume c: "COLLISION_EPSILON < hypot (sepX k) (sepY k)"
    from initialContact_normal(2)[OF ic c]
    show "normalX k = sepX k / hypot (sepX k) (sepY k)" "normalY k = sepY k / hypot (sepX k) (sepY k)"
      by simp_all
    show "relVelAlongNormal k * hypot (sepX k) (sepY k) =
                 (vx (velocity a) - vx (velocity b)) * (px (position b) - px (position a))
                 + (vy (velocity a) - vy (velocity b)) * (py (position b) - py (position a))"
      by (rule initialContact_normal(3)[OF ic c])
  }
next
  assume "rewindTime k = 0"
  then show "(0 < rewindTime (rewindContact minDistance deltaSeconds k))
        = (COLLISION_EPSILON < minDistance - hypot (sepX k) (sepY k)
           \<and> relVelAlongNormal k < - SPEED_EPSILON \<and> SPEED_EPSILON < deltaSeconds)"
    by (rule rewind_iff)
next
  assume "\<not> (COLLISION_EPSILON < minDistance - hypot (sepX k) (sepY k)
           \<and> relVelAlongNormal k < - SPEED_EPSILON \<and> SPEED_EPSILON < deltaSeconds)"
  then show "rewindContact minDistance deltaSeconds k = k" by (rule rewind_skipped)
next
  assume "- SPEED_EPSILON \<le> relVelAlongNormal k"
  then have "\<not> (COLLISION_EPSILON < minDistance - hypot (sepX k) (sepY k)
           \<and> relVelAlongNormal k < - SPEED_EPSILON \<and> SPEED_EPSILON < deltaSeconds)" by simp
  then show "rewindContact minDistance deltaSeconds k = k" by (rule rewind_skipped)
next
  assume h: "rewindTime k = 0 \<and> COLLISION_EPSILON < minDistance - hypot (sepX k) (sepY k)
        \<and> relVelAlongNormal k < - SPEED_EPSILON \<and> SPEED_EPSILON < deltaSeconds"
  then have r0: "rewindTime k = 0" by simp
  from h have pos: "0 < rewindTime (rewindContact minDistance deltaSeconds k)"
    using rewind_as_coded[of minDistance k deltaSeconds] by blast
  from h have ab: "\<bar>relVelAlongNormal k\<bar> = - relVelAlongNormal k" by (simp add: SPEED_EPSILON_def)
  from rewind_computed[OF r0 pos, unfolded ab]
  show "let t = min ((minDistance - hypot (sepX k) (sepY k)) / (- relVelAlongNormal k + 0.000001))
                     deltaSeconds;
             k' = rewindContact minDistance deltaSeconds k
         in rewindTime k' = t \<and> 0 < t \<and> t \<le> deltaSeconds
            \<and> position (stoneA k') = \<lparr>px = px (position (stoneA k)) - vx (velocity (stoneA k)) * t,
                                        py = py (position (stoneA k)) - vy (velocity (stoneA k)) * t\<rparr>
            \<and> position (stoneB k') = \<lparr>px = px (position (stoneB k)) - vx (velocity (stoneB k)) * t,
                                        py = py (position (stoneB k)) - vy (velocity (stoneB k)) * t\<rparr>
            \<and> velocity (stoneA k') = velocity (stoneA k) \<and> velocity (stoneB k') = velocity (stoneB k)
            \<and> sepX k' = px (position (stoneB k')) - px (position (stoneA k'))
            \<and> sepY k' = py (position (stoneB k')) - py (position (stoneA k'))
            \<and> normalX k' = (if hypot (sepX k') (sepY k') > COLLISION_EPSILON
                             then sepX k' / hypot (sepX k') (sepY k') else normalX k)
            \<and> normalY k' = (if hypot (sepX k') (sepY k') > COLLISION_EPSILON
                             then sepY k' / hypot (sepX k') (sepY k') else normalY k)
            \<and> relVelAlongNormal k' =
                 (vx (velocity (stoneA k)) - vx (velocity (stoneB k))) * normalX k'
                 + (vy (velocity (stoneA k)) - vy (velocity (stoneB k))) * normalY k'"
    unfolding Let_def by blast
qed

theorem rewind_when_separating_witness:
  "initialContact 0.2921 (stoneAt 0 0 (- 1) 0) (stoneAt 0.2 0 1 0)
     = Some \<lparr>stoneA = stoneAt 0 0 (- 1) 0, stoneB = stoneAt 0.2 0 1 0, sepX = 0.2, sepY = 0,
             normalX = 1, normalY = 0, relVelAlongNormal = - 2, rewindTime = 0\<rparr>
   \<and> rewindTime (rewindContact 0.2921 0.02
        \<lparr>stoneA = stoneAt 0 0 (- 1) 0, stoneB = stoneAt 0.2 0 1 0, sepX = 0.2, sepY = 0,
         normalX = 1, normalY = 0, relVelAlongNormal = - 2, rewindTime = 0\<rparr>) = 0.02
   \<and> position (stoneA (rewindContact 0.2921 0.02
        \<lparr>stoneA = stoneAt 0 0 (- 1) 0, stoneB = stoneAt 0.2 0 1 0, sepX = 0.2, sepY = 0,
         normalX = 1, normalY = 0, relVelAlongNormal = - 2, rewindTime = 0\<rparr>)) = \<lparr>px = 0.02, py = 0\<rparr>
   \<and> position (stoneB (rewindContact 0.2921 0.02
        \<lparr>stoneA = stoneAt 0 0 (- 1) 0, stoneB = stoneAt 0.2 0 1 0, sepX = 0.2, sepY = 0,
         normalX = 1, normalY = 0, relVelAlongNormal = - 2, rewindTime = 0\<rparr>)) = \<lparr>px = 0.18, py = 0\<rparr>
   \<and> rewindContact 0.2921 0.01
        \<lparr>stoneA = stoneAt 0 0 (- 1) 0, stoneB = stoneAt 0.2 0 1 0, sepX = 0.2, sepY = 0,
         normalX = 1, normalY = 0, relVelAlongNormal = - 2, rewindTime = 0\<rparr>
       = \<lparr>stoneA = stoneAt 0 0 (- 1) 0, stoneB = stoneAt 0.2 0 1 0, sepX = 0.2, sepY = 0,
         normalX = 1, normalY = 0, relVelAlongNormal = - 2, rewindTime = 0\<rparr>
   \<and> rewindContact 0.2921 0.02
        \<lparr>stoneA = stoneAt 0 0 1 0, stoneB = stoneAt 0.2 0 (- 1) 0, sepX = 0.2, sepY = 0,
         normalX = 1, normalY = 0, relVelAlongNormal = 2, rewindTime = 0\<rparr>
       = \<lparr>stoneA = stoneAt 0 0 1 0, stoneB = stoneAt 0.2 0 (- 1) 0, sepX = 0.2, sepY = 0,
         normalX = 1, normalY = 0, relVelAlongNormal = 2, rewindTime = 0\<rparr>"
proof -
  define k where "k = \<lparr>stoneA = stoneAt 0 0 (- 1) 0, stoneB = stoneAt 0.2 0 1 0, sepX = 0.2, sepY = 0,
         normalX = 1, normalY = 0, relVelAlongNormal = - 2, rewindTime = 0::real\<rparr>"
  define j where "j = \<lparr>stoneA = stoneAt 0 0 1 0, stoneB = stoneAt 0.2 0 (- 1) 0, sepX = 0.2, sepY = 0,
         normalX = 1, normalY = 0, relVelAlongNormal = 2, rewindTime = 0::real\<rparr>"
  have kf: "rewindTime k = 0" "sepX k = 0.2" "sepY k = 0" "relVelAlongNormal k = - 2"
    "stoneA k = stoneAt 0 0 (- 1) 0" "stoneB k = stoneAt 0.2 0 1 0"
    by (simp_all add: k_def)
  have ic: "initialContact 0.2921 (stoneAt 0 0 (- 1) 0) (stoneAt 0.2 0 1 0) = Some k"
    by (simp add: initialContact_def Let_def stoneAt_fields hypot_zero_right COLLISION_EPSILON_def k_def)
  have g: "rewindTime k = 0 \<and> COLLISION_EPSILON < 0.2921 - hypot (sepX k) (sepY k)
        \<and> relVelAlongNormal k < - SPEED_EPSILON \<and> SPEED_EPSILON < (0.02::real)"
    by (simp add: kf hypot_zero_right COLLISION_EPSILON_def SPEED_EPSILON_def)
  note t = rewind_when_separating[of "0.2921" _ _ k "0.02", unfolded Let_def]
  note t1 = rewind_when_separating[of "0.2921" _ _ k "0.01"]
  note t2 = rewind_when_separating[of "0.2921" _ _ j "0.02"]
  have tv: "min ((0.2921 - hypot (sepX k) (sepY k)) / (- relVelAlongNormal k + 0.000001)) 0.02 = (0.02::real)"
    by (simp add: kf hypot_zero_right)
  from t g have
    "rewindTime (rewindContact 0.2921 0.02 k) = 0.02"
    "position (stoneA (rewindContact 0.2921 0.02 k)) =
        \<lparr>px = px (position (stoneA k)) - vx (velocity (stoneA k)) * 0.02,
         py = py (position (stoneA k)) - vy (velocity (stoneA k)) * 0.02\<rparr>"
    "position (stoneB (rewindContact 0.2921 0.02 k)) =
        \<lparr>px = px (position (stoneB k)) - vx (velocity (stoneB k)) * 0.02,
         py = py (position (stoneB k)) - vy (velocity (stoneB k)) * 0.02\<rparr>"
    unfolding tv by blast+
  moreover from t1 have "rewindContact 0.2921 0.01 k = k" by (simp add: SPEED_EPSILON_def)
  moreover from t2 have "rewindContact 0.2921 0.02 j = j" by (simp add: SPEED_EPSILON_def j_def)
  ultimately show ?thesis
    unfolding k_def[symmetric] j_def[symmetric] using ic by (simp add: kf stoneAt_fields)
qed

subsection \<open>C2: activation of the requested spin\<close>

text \<open>
  C2 as stated fails in two places. \<^const>\<open>step\<close> puts the activation line two feet
  (\<open>2 * FOOT_IN_METERS = 0.6096\<close> metres) before the near hog line, whatever the stone radius is:
  with the radius of the game, \<open>0.14605\<close>, and its near hog line, \<open>- 28.3464\<close>, the line lies at
  \<open>- 28.956\<close>, which is neither of the two points that are two stone diameters (\<open>0.5842\<close>) away from
  the hog line. And a stone that crosses the line in the step in which it is ruled out gets no
  spin: a stone with a pending spin of 1.5 rad/s that slides from \<open>y = - 28.97\<close> to
  \<open>y = - 28.94603708\<close> and passes the side bound in that step ends with a rotation rate of 0 and a
  pending rate of 0.
\<close>

theorem spin_activation_counterexample:
  "stoneRadius (cfg demoEngine) = Number 0.14605
   \<and> hogLineNear (cfg demoEngine) = Number (- 28.3464)
   \<and> rotationActivationY (cfg demoEngine) = - 28.956
   \<and> rotationActivationY (cfg demoEngine) \<noteq> - 28.3464 - 2 * (2 * 0.14605)
   \<and> rotationActivationY (cfg demoEngine) \<noteq> - 28.3464 + 2 * (2 * 0.14605)
   \<and> isLaunched (driftingStone (- 28.97)) \<and> pendingRotationRate (driftingStone (- 28.97)) = 1.5
   \<and> py (position (driftingStone (- 28.97))) = - 28.97
   \<and> stepStone 0.03 (- 28.956) (driftingStone (- 28.97)) (demoEngine, False) \<noteq> None
   \<and> py (position (fst (the (stepStone 0.03 (- 28.956) (driftingStone (- 28.97)) (demoEngine, False)))))
       = - 28.94603708
   \<and> rotationRate (fst (the (stepStone 0.03 (- 28.956) (driftingStone (- 28.97)) (demoEngine, False))))
       = 0
   \<and> pendingRotationRate (fst (the (stepStone 0.03 (- 28.956) (driftingStone (- 28.97)) (demoEngine, False))))
       = 0"
proof -
  have a: "stoneRadius (cfg demoEngine) = Number 0.14605
   \<and> hogLineNear (cfg demoEngine) = Number (- 28.3464)
   \<and> rotationActivationY (cfg demoEngine) = - 28.956
   \<and> rotationActivationY (cfg demoEngine) \<noteq> - 28.3464 - 2 * (2 * 0.14605)
   \<and> rotationActivationY (cfg demoEngine) \<noteq> - 28.3464 + 2 * (2 * 0.14605)"
    by (simp add: rotationActivationY_def demo_cfg_values FOOT_IN_METERS_def)
  have "\<exists>s' e'. stepStone 0.03 (- 28.956) (driftingStone (- 28.97)) (demoEngine, False) = Some (s', e', False)
      \<and> position s' = \<lparr>px = 2.23797219, py = - 28.97 + 0.02396292\<rparr>
      \<and> rotationRate s' = 0 \<and> pendingRotationRate s' = 0"
    by (rule drifting_step[of demoEngine "0.03" "- 28.956" "- 28.97" False]) (auto simp: demo_trays)
  then obtain s' e' where st: "stepStone 0.03 (- 28.956) (driftingStone (- 28.97)) (demoEngine, False) = Some (s', e', False)"
    and p: "py (position s') = - 28.94603708" and r: "rotationRate s' = 0" "pendingRotationRate s' = 0"
    by auto
  have b: "stepStone 0.03 (- 28.956) (driftingStone (- 28.97)) (demoEngine, False) \<noteq> None
   \<and> py (position (fst (the (stepStone 0.03 (- 28.956) (driftingStone (- 28.97)) (demoEngine, False)))))
       = - 28.94603708
   \<and> rotationRate (fst (the (stepStone 0.03 (- 28.956) (driftingStone (- 28.97)) (demoEngine, False))))
       = 0
   \<and> pendingRotationRate (fst (the (stepStone 0.03 (- 28.956) (driftingStone (- 28.97)) (demoEngine, False))))
       = 0"
    unfolding st using p r by simp
  have c: "isLaunched (driftingStone (- 28.97))" "pendingRotationRate (driftingStone (- 28.97)) = 1.5"
    "py (position (driftingStone (- 28.97))) = - 28.97"
    by (simp_all add: driftingStone_fields)
  from a b c show ?thesis by blast
qed

text \<open>
  C2, amended. The activation line is the near hog line (or \<open>0\<close> when none is configured) minus
  \<open>0.6096\<close>. For a stone not yet activated with a pending spin, \<^const>\<open>checkRotationActivation\<close>
  compares the previous and the current y with the line: on a change of side in either direction, or
  on equality, it moves the pending rate into the rotation rate, zeroes the pending rate and sets the
  flag; otherwise it leaves the stone as it is. The integration of a launched stone that is not
  activated and has no rotation ends in one of three ways: the stone is ruled out in that step, and
  its rotation rate and pending rate are 0 and its flag is set; or it stays in play, moves faster
  than the speed epsilon, has a pending spin and its y before and after the step lie on two sides
  of the line (or the y after the step is on it), and the pending rate is moved into the rotation
  rate, zeroed, and the flag set; or it stays in play otherwise, and the rotation rate stays 0, the
  pending rate stays and the flag stays clear. A \<^const>\<open>step\<close> of the engine does this, with
  its own activation line, to every such stone that the collision resolver does not find in
  contact in that step (the resolver may hand spin to the stones of a contact). Once set, the flag
  of a stone stays set through every step.
\<close>

theorem spin_activation:
  "rotationActivationY c = coalesce (hogLineNear c) 0 - 2 * 0.3048
   \<and> (\<not> rotationActivated s \<and> pendingRotationRate s \<noteq> 0 \<longrightarrow>
        checkRotationActivation s previousY activationY =
          (if (previousY < activationY \<and> py (position s) \<ge> activationY)
              \<or> (previousY > activationY \<and> py (position s) \<le> activationY)
              \<or> py (position s) = activationY
           then s\<lparr>rotationRate := pendingRotationRate s, pendingRotationRate := 0,
                  rotationActivated := True\<rparr>
           else s))
   \<and> (isLaunched s \<and> \<not> rotationActivated s \<and> rotationRate s = 0
        \<and> stepStone deltaSeconds activationY s (e, anyMoving) = Some (s', e', anyMoving') \<longrightarrow>
        (if \<not> isLaunched s'
         then rotationRate s' = 0 \<and> pendingRotationRate s' = 0 \<and> rotationActivated s'
         else if SPEED_EPSILON < hypot (vx (velocity s)) (vy (velocity s)) \<and> pendingRotationRate s \<noteq> 0
            \<and> ((py (position s) < activationY \<and> py (position s') \<ge> activationY)
                \<or> (py (position s) > activationY \<and> py (position s') \<le> activationY)
                \<or> py (position s') = activationY)
         then rotationRate s' = pendingRotationRate s \<and> pendingRotationRate s' = 0
              \<and> rotationActivated s'
         else rotationRate s' = 0 \<and> pendingRotationRate s' = pendingRotationRate s
              \<and> \<not> rotationActivated s'))
   \<and> (step deltaSeconds e = Some e'' \<and> k < length (stones e) \<and> isLaunched (stones e ! k)
        \<and> \<not> rotationActivated (stones e ! k) \<and> rotationRate (stones e ! k) = 0
        \<and> k \<notin> set (touched deltaSeconds e) \<longrightarrow>
        (if \<not> isLaunched (stones e'' ! k)
         then rotationRate (stones e'' ! k) = 0 \<and> pendingRotationRate (stones e'' ! k) = 0 \<and> rotationActivated (stones e'' ! k)
         else if SPEED_EPSILON < hypot (vx (velocity (stones e ! k))) (vy (velocity (stones e ! k))) \<and> pendingRotationRate (stones e ! k) \<noteq> 0
            \<and> ((py (position (stones e ! k)) < rotationActivationY (cfg e) \<and> py (position (stones e'' ! k)) \<ge> rotationActivationY (cfg e))
                \<or> (py (position (stones e ! k)) > rotationActivationY (cfg e) \<and> py (position (stones e'' ! k)) \<le> rotationActivationY (cfg e))
                \<or> py (position (stones e'' ! k)) = rotationActivationY (cfg e))
         then rotationRate (stones e'' ! k) = pendingRotationRate (stones e ! k) \<and> pendingRotationRate (stones e'' ! k) = 0
              \<and> rotationActivated (stones e'' ! k)
         else rotationRate (stones e'' ! k) = 0 \<and> pendingRotationRate (stones e'' ! k) = pendingRotationRate (stones e ! k)
              \<and> \<not> rotationActivated (stones e'' ! k)))
   \<and> (step deltaSeconds e = Some e'' \<longrightarrow>
        length (stones e'') = length (stones e)
        \<and> (\<forall>i < length (stones e). rotationActivated (stones e ! i)
               \<longrightarrow> rotationActivated (stones e'' ! i)))"
proof (intro conjI impI allI)
  show "rotationActivationY c = coalesce (hogLineNear c) 0 - 2 * 0.3048"
    by (simp add: rotationActivationY_def FOOT_IN_METERS_def)
next
  assume "\<not> rotationActivated s \<and> pendingRotationRate s \<noteq> 0"
  then show "checkRotationActivation s previousY activationY =
          (if (previousY < activationY \<and> py (position s) \<ge> activationY)
              \<or> (previousY > activationY \<and> py (position s) \<le> activationY)
              \<or> py (position s) = activationY
           then s\<lparr>rotationRate := pendingRotationRate s, pendingRotationRate := 0,
                  rotationActivated := True\<rparr>
           else s)"
    using activation_effect by blast
next
  assume h: "isLaunched s \<and> \<not> rotationActivated s \<and> rotationRate s = 0
        \<and> stepStone deltaSeconds activationY s (e, anyMoving) = Some (s', e', anyMoving')"
  then have st: "stepStone deltaSeconds activationY s (e, anyMoving) = Some (s', e', anyMoving')"
    and l: "isLaunched s" and na: "\<not> rotationActivated s" and r0: "rotationRate s = 0" by simp_all
  show "if \<not> isLaunched s'
         then rotationRate s' = 0 \<and> pendingRotationRate s' = 0 \<and> rotationActivated s'
         else if SPEED_EPSILON < hypot (vx (velocity s)) (vy (velocity s)) \<and> pendingRotationRate s \<noteq> 0
            \<and> ((py (position s) < activationY \<and> py (position s') \<ge> activationY)
                \<or> (py (position s) > activationY \<and> py (position s') \<le> activationY)
                \<or> py (position s') = activationY)
         then rotationRate s' = pendingRotationRate s \<and> pendingRotationRate s' = 0
              \<and> rotationActivated s'
         else rotationRate s' = 0 \<and> pendingRotationRate s' = pendingRotationRate s
              \<and> \<not> rotationActivated s'"
    by (rule stepStone_spin[OF st l na r0])
next
  assume h: "step deltaSeconds e = Some e'' \<and> k < length (stones e) \<and> isLaunched (stones e ! k)
        \<and> \<not> rotationActivated (stones e ! k) \<and> rotationRate (stones e ! k) = 0
        \<and> k \<notin> set (touched deltaSeconds e)"
  then have st: "step deltaSeconds e = Some e''" and k: "k < length (stones e)"
    and l: "isLaunched (stones e ! k)" and na: "\<not> rotationActivated (stones e ! k)"
    and r0: "rotationRate (stones e ! k) = 0" and u: "k \<notin> set (touched deltaSeconds e)" by simp_all
  show "if \<not> isLaunched (stones e'' ! k)
         then rotationRate (stones e'' ! k) = 0 \<and> pendingRotationRate (stones e'' ! k) = 0 \<and> rotationActivated (stones e'' ! k)
         else if SPEED_EPSILON < hypot (vx (velocity (stones e ! k))) (vy (velocity (stones e ! k))) \<and> pendingRotationRate (stones e ! k) \<noteq> 0
            \<and> ((py (position (stones e ! k)) < rotationActivationY (cfg e) \<and> py (position (stones e'' ! k)) \<ge> rotationActivationY (cfg e))
                \<or> (py (position (stones e ! k)) > rotationActivationY (cfg e) \<and> py (position (stones e'' ! k)) \<le> rotationActivationY (cfg e))
                \<or> py (position (stones e'' ! k)) = rotationActivationY (cfg e))
         then rotationRate (stones e'' ! k) = pendingRotationRate (stones e ! k) \<and> pendingRotationRate (stones e'' ! k) = 0
              \<and> rotationActivated (stones e'' ! k)
         else rotationRate (stones e'' ! k) = 0 \<and> pendingRotationRate (stones e'' ! k) = pendingRotationRate (stones e ! k)
              \<and> \<not> rotationActivated (stones e'' ! k)"
    by (rule step_spin[OF st k l na r0 u])
next
  assume s: "step deltaSeconds e = Some e''"
  from step_latched[OF s] show "length (stones e'') = length (stones e)"
    by (simp add: list_all2_lengthD)
next
  fix i assume s: "step deltaSeconds e = Some e''" and i: "i < length (stones e)"
    and a: "rotationActivated (stones e ! i)"
  from list_all2_nthD2[OF step_latched[OF s] i] a
  show "rotationActivated (stones e'' ! i)" by (simp add: latched_def)
qed

theorem spin_activation_witness:
  "isLaunched (slidingStone (- 29)) \<and> \<not> rotationActivated (slidingStone (- 29))
   \<and> rotationRate (slidingStone (- 29)) = 0 \<and> pendingRotationRate (slidingStone (- 29)) = 1.5
   \<and> rotationActivationY (cfg demoEngine) = - 28.956
   \<and> (\<exists>s' e'. stepStone 0.03 (- 28.956) (slidingStone (- 29)) (demoEngine, False) = Some (s', e', True)
         \<and> position s' = \<lparr>px = 0, py = - 28.94003336\<rparr>
         \<and> rotationRate s' = 1.5 \<and> pendingRotationRate s' = 0 \<and> rotationActivated s')
   \<and> (\<exists>s' e'. stepStone 0.03 (- 28.956) (slidingStone (- 30)) (demoEngine, False) = Some (s', e', True)
         \<and> position s' = \<lparr>px = 0, py = - 29.94003336\<rparr>
         \<and> rotationRate s' = 0 \<and> pendingRotationRate s' = 1.5 \<and> \<not> rotationActivated s')
   \<and> isLaunched (driftingStone (- 28.97)) \<and> \<not> rotationActivated (driftingStone (- 28.97))
   \<and> rotationRate (driftingStone (- 28.97)) = 0
   \<and> (\<exists>s' e'. stepStone 0.03 (- 28.956) (driftingStone (- 28.97)) (demoEngine, False) = Some (s', e', False)
         \<and> \<not> isLaunched s'
         \<and> rotationRate s' = 0 \<and> pendingRotationRate s' = 0 \<and> rotationActivated s')
   \<and> touched 0.03 (sheetWith (slidingStone (- 29)) 0) = []
   \<and> (\<exists>e''. step 0.03 (sheetWith (slidingStone (- 29)) 0) = Some e''
         \<and> position (stones e'' ! 0) = \<lparr>px = 0, py = - 28.94003336\<rparr>
         \<and> rotationRate (stones e'' ! 0) = 1.5 \<and> pendingRotationRate (stones e'' ! 0) = 0
         \<and> rotationActivated (stones e'' ! 0))
   \<and> rotationActivated (stones spinningEngine ! 0)
   \<and> (\<exists>e''. step 0.03 spinningEngine = Some e'' \<and> rotationActivated (stones e'' ! 0))"
proof -
  have y: "rotationActivationY (cfg demoEngine) = - 28.956"
    using spin_activation[of "cfg demoEngine", THEN conjunct1] by (simp add: demo_cfg_values)
  have a: "\<exists>s' e'. stepStone 0.03 (- 28.956) (slidingStone (- 29)) (demoEngine, False) = Some (s', e', True)
         \<and> position s' = \<lparr>px = 0, py = - 28.94003336\<rparr>
         \<and> rotationRate s' = 1.5 \<and> pendingRotationRate s' = 0 \<and> rotationActivated s'"
  proof -
    have "\<exists>s' e'. stepStone 0.03 (- 28.956) (slidingStone (- 29)) (demoEngine, False) = Some (s', e', True)
      \<and> isLaunched s' \<and> position s' = \<lparr>px = 0, py = - 29 + 0.05996664\<rparr>"
      by (rule slidingStone_moved[of demoEngine "- 29" "0.03" "- 28.956" False]) auto
    then obtain s' e' where st: "stepStone 0.03 (- 28.956) (slidingStone (- 29)) (demoEngine, False) = Some (s', e', True)"
      and l: "isLaunched s'" and p: "position s' = \<lparr>px = 0, py = - 29 + 0.05996664\<rparr>"
      by blast
    note c3 = spin_activation[of _ "slidingStone (- 29)" _ "- 28.956" "0.03" demoEngine False s' e' True,
        THEN conjunct2, THEN conjunct2, THEN conjunct1, rule_format]
    have h3: "isLaunched (slidingStone (- 29)) \<and> \<not> rotationActivated (slidingStone (- 29)) \<and> rotationRate (slidingStone (- 29)) = 0
        \<and> stepStone 0.03 (- 28.956) (slidingStone (- 29)) (demoEngine, False) = Some (s', e', True)"
      using st by (simp add: slidingStone_fields)
    have "if \<not> isLaunched s'
         then rotationRate s' = 0 \<and> pendingRotationRate s' = 0 \<and> rotationActivated s'
         else if SPEED_EPSILON < hypot (vx (velocity (slidingStone (- 29)))) (vy (velocity (slidingStone (- 29)))) \<and> pendingRotationRate (slidingStone (- 29)) \<noteq> 0
            \<and> ((py (position (slidingStone (- 29))) < - 28.956 \<and> py (position s') \<ge> - 28.956)
                \<or> (py (position (slidingStone (- 29))) > - 28.956 \<and> py (position s') \<le> - 28.956)
                \<or> py (position s') = - 28.956)
         then rotationRate s' = pendingRotationRate (slidingStone (- 29)) \<and> pendingRotationRate s' = 0
              \<and> rotationActivated s'
         else rotationRate s' = 0 \<and> pendingRotationRate s' = pendingRotationRate (slidingStone (- 29))
              \<and> \<not> rotationActivated s'"
      by (rule c3[OF h3])
    with l have "rotationRate s' = 1.5 \<and> pendingRotationRate s' = 0 \<and> rotationActivated s'"
      by (simp add: slidingStone_fields p hypot_zero_left SPEED_EPSILON_def)
    with st p show ?thesis by auto
  qed
  have b: "\<exists>s' e'. stepStone 0.03 (- 28.956) (slidingStone (- 30)) (demoEngine, False) = Some (s', e', True)
         \<and> position s' = \<lparr>px = 0, py = - 29.94003336\<rparr>
         \<and> rotationRate s' = 0 \<and> pendingRotationRate s' = 1.5 \<and> \<not> rotationActivated s'"
  proof -
    have "\<exists>s' e'. stepStone 0.03 (- 28.956) (slidingStone (- 30)) (demoEngine, False) = Some (s', e', True)
      \<and> isLaunched s' \<and> position s' = \<lparr>px = 0, py = - 30 + 0.05996664\<rparr>"
      by (rule slidingStone_moved[of demoEngine "- 30" "0.03" "- 28.956" False]) auto
    then obtain s' e' where st: "stepStone 0.03 (- 28.956) (slidingStone (- 30)) (demoEngine, False) = Some (s', e', True)"
      and l: "isLaunched s'" and p: "position s' = \<lparr>px = 0, py = - 30 + 0.05996664\<rparr>"
      by blast
    note c3 = spin_activation[of _ "slidingStone (- 30)" _ "- 28.956" "0.03" demoEngine False s' e' True,
        THEN conjunct2, THEN conjunct2, THEN conjunct1, rule_format]
    have h3: "isLaunched (slidingStone (- 30)) \<and> \<not> rotationActivated (slidingStone (- 30)) \<and> rotationRate (slidingStone (- 30)) = 0
        \<and> stepStone 0.03 (- 28.956) (slidingStone (- 30)) (demoEngine, False) = Some (s', e', True)"
      using st by (simp add: slidingStone_fields)
    have "if \<not> isLaunched s'
         then rotationRate s' = 0 \<and> pendingRotationRate s' = 0 \<and> rotationActivated s'
         else if SPEED_EPSILON < hypot (vx (velocity (slidingStone (- 30)))) (vy (velocity (slidingStone (- 30)))) \<and> pendingRotationRate (slidingStone (- 30)) \<noteq> 0
            \<and> ((py (position (slidingStone (- 30))) < - 28.956 \<and> py (position s') \<ge> - 28.956)
                \<or> (py (position (slidingStone (- 30))) > - 28.956 \<and> py (position s') \<le> - 28.956)
                \<or> py (position s') = - 28.956)
         then rotationRate s' = pendingRotationRate (slidingStone (- 30)) \<and> pendingRotationRate s' = 0
              \<and> rotationActivated s'
         else rotationRate s' = 0 \<and> pendingRotationRate s' = pendingRotationRate (slidingStone (- 30))
              \<and> \<not> rotationActivated s'"
      by (rule c3[OF h3])
    with l have "rotationRate s' = 0 \<and> pendingRotationRate s' = 1.5 \<and> \<not> rotationActivated s'"
      by (simp add: slidingStone_fields p hypot_zero_left SPEED_EPSILON_def)
    with st p show ?thesis by auto
  qed
  have df: "isLaunched (driftingStone (- 28.97))" "\<not> rotationActivated (driftingStone (- 28.97))"
    "rotationRate (driftingStone (- 28.97)) = 0"
    by (simp_all add: driftingStone_fields)
  have d: "\<exists>s' e'. stepStone 0.03 (- 28.956) (driftingStone (- 28.97)) (demoEngine, False) = Some (s', e', False)
         \<and> \<not> isLaunched s'
         \<and> rotationRate s' = 0 \<and> pendingRotationRate s' = 0 \<and> rotationActivated s'"
  proof -
    have "\<exists>s' e'. stepStone 0.03 (- 28.956) (driftingStone (- 28.97)) (demoEngine, False) = Some (s', e', False)
      \<and> \<not> isLaunched s'"
      by (rule drifting_step[of demoEngine "0.03" "- 28.956" "- 28.97" False]) (auto simp: demo_trays)
    then obtain s' e' where st: "stepStone 0.03 (- 28.956) (driftingStone (- 28.97)) (demoEngine, False) = Some (s', e', False)"
      and nl: "\<not> isLaunched s'" by blast
    note c3 = spin_activation[of _ "driftingStone (- 28.97)" _ "- 28.956" "0.03" demoEngine False s' e' False,
        THEN conjunct2, THEN conjunct2, THEN conjunct1, rule_format]
    have h3: "isLaunched (driftingStone (- 28.97)) \<and> \<not> rotationActivated (driftingStone (- 28.97))
        \<and> rotationRate (driftingStone (- 28.97)) = 0
        \<and> stepStone 0.03 (- 28.956) (driftingStone (- 28.97)) (demoEngine, False) = Some (s', e', False)"
      using st df by simp
    from c3[OF h3] nl
    have "rotationRate s' = 0 \<and> pendingRotationRate s' = 0 \<and> rotationActivated s'" by simp
    with st nl show ?thesis by blast
  qed
  have sfl: "isLaunched (slidingStone (- 29))" "\<not> rotationActivated (slidingStone (- 29))"
    "rotationRate (slidingStone (- 29)) = 0" "pendingRotationRate (slidingStone (- 29)) = 1.5"
    by (simp_all add: slidingStone_fields)
  have g: "touched 0.03 (sheetWith (slidingStone (- 29)) 0) = []
     \<and> (\<exists>e''. step 0.03 (sheetWith (slidingStone (- 29)) 0) = Some e''
         \<and> position (stones e'' ! 0) = \<lparr>px = 0, py = - 28.94003336\<rparr>
         \<and> rotationRate (stones e'' ! 0) = 1.5 \<and> pendingRotationRate (stones e'' ! 0) = 0
         \<and> rotationActivated (stones e'' ! 0))"
  proof -
    define S where "S = slidingStone (- 29)"
    define E where "E = sheetWith S 0"
    have fE: "cfg E = cfg demoEngine" "stones E = [S, stones demoEngine ! 1]"
      by (simp_all add: E_def sheetWith_fields)
    have "\<exists>s' e'. stepStone 0.03 (rotationActivationY (cfg demoEngine)) S (E, False) = Some (s', e', True)
      \<and> isLaunched s' \<and> position s' = \<lparr>px = 0, py = - 29 + 0.05996664\<rparr>"
      unfolding S_def
      by (rule slidingStone_moved[of E "- 29" "0.03" "rotationActivationY (cfg demoEngine)" False])
         (auto simp: fE)
    then obtain s' e' where st: "stepStone 0.03 (rotationActivationY (cfg demoEngine)) S (E, False) = Some (s', e', True)"
      and l: "isLaunched s'" and p: "position s' = \<lparr>px = 0, py = - 28.94003336\<rparr>"
      by auto
    from sheet_step_first[OF st[unfolded E_def]] obtain e'' where
      s: "step 0.03 E = Some e''" and f0: "stones e'' ! 0 = s'" and tc: "touched 0.03 E = []"
      unfolding E_def by blast
    have k0: "stones E ! 0 = S" "(0::nat) < length (stones E)" by (simp_all add: fE)
    note c4 = spin_activation[of _ _ _ _ "0.03" E _ _ _ _ e'' 0,
        THEN conjunct2, THEN conjunct2, THEN conjunct2, THEN conjunct1, rule_format]
    have h4: "step 0.03 E = Some e'' \<and> 0 < length (stones E) \<and> isLaunched (stones E ! 0)
        \<and> \<not> rotationActivated (stones E ! 0) \<and> rotationRate (stones E ! 0) = 0
        \<and> 0 \<notin> set (touched 0.03 E)"
      using s tc k0 sfl[folded S_def] by simp
    from c4[OF h4] have "if \<not> isLaunched (stones e'' ! 0)
         then rotationRate (stones e'' ! 0) = 0 \<and> pendingRotationRate (stones e'' ! 0) = 0 \<and> rotationActivated (stones e'' ! 0)
         else if SPEED_EPSILON < hypot (vx (velocity S)) (vy (velocity S)) \<and> pendingRotationRate S \<noteq> 0
            \<and> ((py (position S) < rotationActivationY (cfg E) \<and> py (position (stones e'' ! 0)) \<ge> rotationActivationY (cfg E))
                \<or> (py (position S) > rotationActivationY (cfg E) \<and> py (position (stones e'' ! 0)) \<le> rotationActivationY (cfg E))
                \<or> py (position (stones e'' ! 0)) = rotationActivationY (cfg E))
         then rotationRate (stones e'' ! 0) = pendingRotationRate S \<and> pendingRotationRate (stones e'' ! 0) = 0
              \<and> rotationActivated (stones e'' ! 0)
         else rotationRate (stones e'' ! 0) = 0 \<and> pendingRotationRate (stones e'' ! 0) = pendingRotationRate S
              \<and> \<not> rotationActivated (stones e'' ! 0)"
      unfolding k0(1) .
    with l have "rotationRate (stones e'' ! 0) = 1.5 \<and> pendingRotationRate (stones e'' ! 0) = 0
         \<and> rotationActivated (stones e'' ! 0)"
      unfolding f0 fE y
      by (simp add: S_def slidingStone_fields p hypot_zero_left SPEED_EPSILON_def)
    with s tc p f0 show ?thesis unfolding E_def S_def by auto
  qed
  have n: "length (stones spinningEngine) = 2" "stones spinningEngine ! 0 = spinningStone"
    by (simp_all add: spinningEngine_def demo_stones)
  have act: "rotationActivated (stones spinningEngine ! 0)"
    by (simp add: n spinningStone_fields)
  have "0 < pathSampleInterval (cfg spinningEngine)"
    by (simp add: spinningEngine_def demo_friction)
  from step_total[OF this] obtain e'' where s: "step 0.03 spinningEngine = Some e''" by blast
  from spin_activation[of _ _ _ _ "0.03" spinningEngine _ _ _ _ e'',
      THEN conjunct2, THEN conjunct2, THEN conjunct2, THEN conjunct2] s
  have "\<forall>i < length (stones spinningEngine). rotationActivated (stones spinningEngine ! i)
               \<longrightarrow> rotationActivated (stones e'' ! i)" by blast
  with act n have "rotationActivated (stones e'' ! 0)" by simp
  with s have c: "\<exists>e''. step 0.03 spinningEngine = Some e'' \<and> rotationActivated (stones e'' ! 0)" by blast
  from sfl y a b df d g[THEN conjunct1] g[THEN conjunct2] act c show ?thesis
    by (intro conjI) assumption+
qed

subsection \<open>C5: hog-line timing\<close>

text \<open>
  C5 as stated fails for a stone that crosses the near hog line in the step in which it is ruled
  out: the loop of \<^const>\<open>step\<close> leaves the iteration of a stone that \<^const>\<open>isOutOfBounds\<close>
  finds out of bounds before it compares the y before and after the step with the hog lines. On
  the sheet of the game, with the near hog line at \<open>- 28.3464\<close> and a near-cross handler
  registered, a launched stone at \<open>(2.22, - 28.36)\<close> with velocity \<open>(0.6, 0.8)\<close> and no timestamp is
  moved by a step of 0.03 s to \<open>(2.23797219, - 28.33603708)\<close>, across the line and past the side
  bound \<open>2.3749 - 0.14605\<close>: after the step it has no near timestamp, and the only notification is
  the one of the stopped stone.
\<close>

theorem hog_line_timing_counterexample:
  "isLaunched (driftingStone (- 28.36))
   \<and> position (driftingStone (- 28.36)) = \<lparr>px = 2.22, py = - 28.36\<rparr>
   \<and> velocity (driftingStone (- 28.36)) = \<lparr>vx = 0.6, vy = 0.8\<rparr>
   \<and> hogTiming (driftingStone (- 28.36)) = \<lparr>nearCrossedAt = None, farCrossedAt = None\<rparr>
   \<and> hogLineNear (cfg (sheetWith (driftingStone (- 28.36)) 0)) = Number (- 28.3464)
   \<and> onHogNearCross (cfg (sheetWith (driftingStone (- 28.36)) 0))
   \<and> events (sheetWith (driftingStone (- 28.36)) 0) = []
   \<and> step 0.03 (sheetWith (driftingStone (- 28.36)) 0) \<noteq> None
   \<and> position (stones (the (step 0.03 (sheetWith (driftingStone (- 28.36)) 0))) ! 0) = \<lparr>px = 2.23797219, py = - 28.33603708\<rparr>
   \<and> crossesHog (- 28.36) (- 28.33603708) (hogLineNear (cfg (sheetWith (driftingStone (- 28.36)) 0)))
   \<and> hogTiming (stones (the (step 0.03 (sheetWith (driftingStone (- 28.36)) 0))) ! 0) = \<lparr>nearCrossedAt = None, farCrossedAt = None\<rparr>
   \<and> events (the (step 0.03 (sheetWith (driftingStone (- 28.36)) 0))) = [StoneStopped RED 1]"
proof -
  define S where "S = driftingStone (- 28.36)"
  define E where "E = sheetWith S 0"
  have fS: "isLaunched S" "position S = \<lparr>px = 2.22, py = - 28.36\<rparr>"
    "velocity S = \<lparr>vx = 0.6, vy = 0.8\<rparr>"
    "hogTiming S = \<lparr>nearCrossedAt = None, farCrossedAt = None\<rparr>"
    by (simp_all add: S_def driftingStone_fields)
  have fE: "cfg E = cfg demoEngine" "events E = []"
    by (simp_all add: E_def sheetWith_fields)
  have tr: "outTrayLayouts E RED = None"
    unfolding E_def by (rule demo_trays)
  have ln: "hogLineNear (cfg E) = Number (- 28.3464)" and h: "onHogNearCross (cfg E)"
    unfolding fE by (rule demo_cfg_values)+
  have cr: "crossesHog (- 28.36) (- 28.33603708) (hogLineNear (cfg E))"
    unfolding ln by (simp add: crossesHog_def crossesLine_def)
  have "\<exists>s' e'. stepStone 0.03 (rotationActivationY (cfg demoEngine)) S (E, False)
          = Some (s', e', False)
      \<and> position s' = \<lparr>px = 2.23797219, py = - 28.36 + 0.02396292\<rparr>
      \<and> hogTiming s' = \<lparr>nearCrossedAt = None, farCrossedAt = None\<rparr>
      \<and> events e' = events E @ [StoneStopped RED 1]"
    unfolding S_def
    by (rule drifting_step[of E "0.03" "rotationActivationY (cfg demoEngine)" "- 28.36" False])
       (auto simp: fE tr)
  then obtain s' e' where
    st: "stepStone 0.03 (rotationActivationY (cfg demoEngine)) S (E, False) = Some (s', e', False)"
    and p0: "position s' = \<lparr>px = 2.23797219, py = - 28.36 + 0.02396292\<rparr>"
    and t: "hogTiming s' = \<lparr>nearCrossedAt = None, farCrossedAt = None\<rparr>"
    and ev0: "events e' = events E @ [StoneStopped RED 1]"
    by blast
  have p: "position s' = \<lparr>px = 2.23797219, py = - 28.33603708\<rparr>" using p0 by simp
  have ev: "events e' = [StoneStopped RED 1]" using ev0 fE by simp
  from sheet_step_first[OF st[unfolded E_def]] obtain e'' where
    s: "step 0.03 E = Some e''" and x: "stones e'' ! 0 = s'" and ev'': "events e'' = events e'"
    unfolding E_def by blast
  have r: "step 0.03 E \<noteq> None" "position (stones (the (step 0.03 E)) ! 0) = \<lparr>px = 2.23797219, py = - 28.33603708\<rparr>"
    "hogTiming (stones (the (step 0.03 E)) ! 0) = \<lparr>nearCrossedAt = None, farCrossedAt = None\<rparr>"
    "events (the (step 0.03 E)) = [StoneStopped RED 1]"
    unfolding s using x p t ev ev'' by simp_all
  from fS ln h fE(2) r cr show ?thesis unfolding E_def S_def by blast
qed

text \<open>
  C5, amended. A successful throw hands back the stone with both timestamps of its \<open>hogTiming\<close>
  absent. \<^const>\<open>checkHogLineCrossings\<close> records the reading of the clock as the near timestamp
  when none is recorded and the previous and the current y lie on two sides of the near hog line
  (the current one may lie on it; a hog line that is \<open>null\<close> is compared as 0, one that is
  \<open>undefined\<close> is never crossed), and notifies the near-cross handler, if one is registered; then,
  when a near timestamp is recorded and no far one and the two y lie on two sides of the far hog
  line, it records the next reading as the far timestamp and notifies the split handler, if one is
  registered, with the difference of the two timestamps. The integration of a launched stone, with
  \<open>speed + frictionLowSpeedEps\<close> not zero (the divisor of the friction that moves the stone),
  applies this to the y before the step and the y the step moves the stone to, when the stone is
  faster than the speed epsilon before the step and the position it is moved to is not out of
  bounds; it changes no timestamp otherwise, so a crossing made in the step that takes the stone
  out of bounds is neither timed nor notified. In the integration of one stone, and over one
  \<^const>\<open>step\<close> of the engine, the log gains one near-cross notification for every stone that
  gained a near timestamp and one split notification, with the split time of the stone, for every
  stone that gained a far timestamp, when the handler is registered, and none besides; a timestamp
  once recorded is never changed by a step. So each timing is notified at most once between two
  throws of a stone.
\<close>

theorem hog_line_timing:
  "(fst (throwStone a e0) = Inr s0 \<longrightarrow>
      hogTiming s0 = \<lparr>nearCrossedAt = None, farCrossedAt = None\<rparr>)
   \<and> (checkHogLineCrossings s previousY e = (s1, e1) \<longrightarrow>
        nearCrossedAt (hogTiming s1) =
          (if nearCrossedAt (hogTiming s) = None
              \<and> crossesHog previousY (py (position s)) (hogLineNear (cfg e))
           then Some (clock e (clockReads e)) else nearCrossedAt (hogTiming s))
        \<and> farCrossedAt (hogTiming s1) =
          (if nearCrossedAt (hogTiming s1) \<noteq> None \<and> farCrossedAt (hogTiming s) = None
              \<and> crossesHog previousY (py (position s)) (hogLineFar (cfg e))
           then Some (clock e (clockReads e + (if newNear s s1 then 1 else 0)))
           else farCrossedAt (hogTiming s))
        \<and> events e1 = events e
            @ (if newNear s s1 \<and> onHogNearCross (cfg e) then [HogNearCross] else [])
            @ (if newFar s s1 \<and> onHogSplit (cfg e) then [HogSplit (splitTime s1)] else []))
   \<and> (isLaunched s
        \<and> hypot (vx (velocity s)) (vy (velocity s)) + frictionLowSpeedEps (cfg e) \<noteq> 0
        \<and> stepStone deltaSeconds activationY s (e, anyMoving) = Some (s', e', anyMoving') \<longrightarrow>
        (let moved = fst (glide (cfg e) deltaSeconds (spinDecay (cfg e) s deltaSeconds));
             checked = (SPEED_EPSILON < hypot (vx (velocity s)) (vy (velocity s))
                          \<and> \<not> isOutOfBounds (cfg e) moved)
         in nearCrossedAt (hogTiming s') =
          (if nearCrossedAt (hogTiming s) = None \<and> checked
              \<and> crossesHog (py (position s)) (py (position moved)) (hogLineNear (cfg e))
           then Some (clock e (clockReads e)) else nearCrossedAt (hogTiming s))
            \<and> farCrossedAt (hogTiming s') =
          (if nearCrossedAt (hogTiming s') \<noteq> None \<and> farCrossedAt (hogTiming s) = None \<and> checked
              \<and> crossesHog (py (position s)) (py (position moved)) (hogLineFar (cfg e))
           then Some (clock e (clockReads e + (if newNear s s' then 1 else 0)))
           else farCrossedAt (hogTiming s)))
        \<and> nearCrossings e' = nearCrossings e
             + (if newNear s s' \<and> onHogNearCross (cfg e) then 1 else 0)
        \<and> hogSplits e' = hogSplits e
             @ (if newFar s s' \<and> onHogSplit (cfg e) then [splitTime s'] else []))
   \<and> (step deltaSeconds e = Some e'' \<longrightarrow>
        nearCrossings e'' = nearCrossings e
           + (if onHogNearCross (cfg e) then nearFirings (stones e) (stones e'') else 0)
        \<and> hogSplits e'' = hogSplits e
           @ (if onHogSplit (cfg e) then splitFirings (stones e) (stones e'') else [])
        \<and> length (stones e'') = length (stones e)
        \<and> (\<forall>i < length (stones e).
              (nearCrossedAt (hogTiming (stones e ! i)) \<noteq> None \<longrightarrow>
                 nearCrossedAt (hogTiming (stones e'' ! i)) = nearCrossedAt (hogTiming (stones e ! i)))
              \<and> (farCrossedAt (hogTiming (stones e ! i)) \<noteq> None \<longrightarrow>
                 farCrossedAt (hogTiming (stones e'' ! i)) = farCrossedAt (hogTiming (stones e ! i)))))"
proof (intro conjI impI allI)
  assume "fst (throwStone a e0) = Inr s0"
  from throwStone_success[OF this] show "hogTiming s0 = \<lparr>nearCrossedAt = None, farCrossedAt = None\<rparr>"
    by (auto simp: launch_effects)
next
  assume h: "checkHogLineCrossings s previousY e = (s1, e1)"
  note r = hog_rule[OF h]
  from r show "nearCrossedAt (hogTiming s1) =
          (if nearCrossedAt (hogTiming s) = None
              \<and> crossesHog previousY (py (position s)) (hogLineNear (cfg e))
           then Some (clock e (clockReads e)) else nearCrossedAt (hogTiming s))" by blast
  from r show "farCrossedAt (hogTiming s1) =
          (if nearCrossedAt (hogTiming s1) \<noteq> None \<and> farCrossedAt (hogTiming s) = None
              \<and> crossesHog previousY (py (position s)) (hogLineFar (cfg e))
           then Some (clock e (clockReads e + (if newNear s s1 then 1 else 0)))
           else farCrossedAt (hogTiming s))" by blast
  from r show "events e1 = events e
            @ (if newNear s s1 \<and> onHogNearCross (cfg e) then [HogNearCross] else [])
            @ (if newFar s s1 \<and> onHogSplit (cfg e) then [HogSplit (splitTime s1)] else [])" by blast
next
  assume a: "isLaunched s
        \<and> hypot (vx (velocity s)) (vy (velocity s)) + frictionLowSpeedEps (cfg e) \<noteq> 0
        \<and> stepStone deltaSeconds activationY s (e, anyMoving) = Some (s', e', anyMoving')"
  then have l: "isLaunched s"
    and st: "stepStone deltaSeconds activationY s (e, anyMoving) = Some (s', e', anyMoving')"
    by blast+
  from stepStone_timing[OF st l]
  show "(let moved = fst (glide (cfg e) deltaSeconds (spinDecay (cfg e) s deltaSeconds));
             checked = (SPEED_EPSILON < hypot (vx (velocity s)) (vy (velocity s))
                          \<and> \<not> isOutOfBounds (cfg e) moved)
         in nearCrossedAt (hogTiming s') =
          (if nearCrossedAt (hogTiming s) = None \<and> checked
              \<and> crossesHog (py (position s)) (py (position moved)) (hogLineNear (cfg e))
           then Some (clock e (clockReads e)) else nearCrossedAt (hogTiming s))
            \<and> farCrossedAt (hogTiming s') =
          (if nearCrossedAt (hogTiming s') \<noteq> None \<and> farCrossedAt (hogTiming s) = None \<and> checked
              \<and> crossesHog (py (position s)) (py (position moved)) (hogLineFar (cfg e))
           then Some (clock e (clockReads e + (if newNear s s' then 1 else 0)))
           else farCrossedAt (hogTiming s)))"
    unfolding Let_def .
  from stepStone_log[OF st] show "nearCrossings e' = nearCrossings e
             + (if newNear s s' \<and> onHogNearCross (cfg e) then 1 else 0)" by blast
  from stepStone_log[OF st] show "hogSplits e' = hogSplits e
             @ (if newFar s s' \<and> onHogSplit (cfg e) then [splitTime s'] else [])" by blast
next
  assume st: "step deltaSeconds e = Some e''"
  from step_log[OF st] show "nearCrossings e'' = nearCrossings e
           + (if onHogNearCross (cfg e) then nearFirings (stones e) (stones e'') else 0)" by blast
  from step_log[OF st] show "hogSplits e'' = hogSplits e
           @ (if onHogSplit (cfg e) then splitFirings (stones e) (stones e'') else [])" by blast
  note l = step_latched[OF st]
  from l show "length (stones e'') = length (stones e)" by (simp add: list_all2_lengthD)
  {
    fix i assume i: "i < length (stones e)"
    from list_all2_nthD2[OF l i] have la: "latched (stones e ! i) (stones e'' ! i)" .
    {
      assume "nearCrossedAt (hogTiming (stones e ! i)) \<noteq> None"
      with la show "nearCrossedAt (hogTiming (stones e'' ! i)) = nearCrossedAt (hogTiming (stones e ! i))"
        by (simp add: latched_def)
    }
    {
      assume "farCrossedAt (hogTiming (stones e ! i)) \<noteq> None"
      with la show "farCrossedAt (hogTiming (stones e'' ! i)) = farCrossedAt (hogTiming (stones e ! i))"
        by (simp add: latched_def)
    }
  }
qed

theorem hog_line_timing_witness:
  "(\<exists>s0. fst (throwStone demoThrow demoEngine) = Inr s0
          \<and> hogTiming s0 = \<lparr>nearCrossedAt = None, farCrossedAt = None\<rparr>)
   \<and> hogTiming (fst (checkHogLineCrossings (crossedStone (- 6.4) 16) (- 6.45)
                        (sheetWith (crossedStone (- 6.4) 16) 4)))
       = \<lparr>nearCrossedAt = Some 16, farCrossedAt = Some 64\<rparr>
   \<and> events (snd (checkHogLineCrossings (crossedStone (- 6.4) 16) (- 6.45)
                        (sheetWith (crossedStone (- 6.4) 16) 4)))
       = [HogSplit 48]
   \<and> (\<exists>s' e'. stepStone 0.03 (rotationActivationY (cfg demoEngine)) (slidingStone (- 28.4))
                  (sheetWith (slidingStone (- 28.4)) 0, False) = Some (s', e', True)
          \<and> position s' = \<lparr>px = 0, py = - 28.34003336\<rparr>
          \<and> hogTiming s' = \<lparr>nearCrossedAt = Some 0, farCrossedAt = None\<rparr>
          \<and> nearCrossings e' = 1 \<and> hogSplits e' = [])
   \<and> (\<exists>s' e'. stepStone 0.03 (rotationActivationY (cfg demoEngine)) (driftingStone (- 28.36))
                  (sheetWith (driftingStone (- 28.36)) 0, False) = Some (s', e', False)
          \<and> isOutOfBounds (cfg demoEngine) (fst (glide (cfg demoEngine) 0.03 (spinDecay (cfg demoEngine) (driftingStone (- 28.36)) 0.03)))
          \<and> hogTiming s' = \<lparr>nearCrossedAt = None, farCrossedAt = None\<rparr>
          \<and> nearCrossings e' = 0 \<and> hogSplits e' = [])
   \<and> (\<exists>e''. step 0.03 (sheetWith (slidingStone (- 28.4)) 0) = Some e''
          \<and> hogTiming (stones e'' ! 0) = \<lparr>nearCrossedAt = Some 0, farCrossedAt = None\<rparr>
          \<and> nearCrossings e'' = 1 \<and> hogSplits e'' = [])
   \<and> (\<exists>e''. step 0.03 (sheetWith (crossedStone (- 6.45) 16) 4) = Some e''
          \<and> hogTiming (stones e'' ! 0) = \<lparr>nearCrossedAt = Some 16, farCrossedAt = Some 64\<rparr>
          \<and> nearCrossings e'' = 0 \<and> hogSplits e'' = [48])"
proof -
  have nl: "\<not> isLaunched (stones demoEngine ! 0)"
    by (simp add: demo_stones newStone_def attachTiming_def resetStonePath_def Let_def)
  have ok: "fst (throwStone demoThrow demoEngine)
      = Inr (launch demoThrow \<lparr>vx = 0, vy = 2\<rparr> (launchY (cfg demoEngine)) (stones demoEngine ! 0))"
    using nl demo_find
    by (simp add: throwStone_def demoThrow_def Let_def split: prod.splits)
  from hog_line_timing[where a = demoThrow and ?e0.0 = demoEngine, THEN conjunct1, rule_format, OF ok] ok
  have p1: "\<exists>s0. fst (throwStone demoThrow demoEngine) = Inr s0
          \<and> hogTiming s0 = \<lparr>nearCrossedAt = None, farCrossedAt = None\<rparr>"
    by blast
  have lines: "hogLineNear (cfg demoEngine) = Number (- 28.3464)" "hogLineFar (cfg demoEngine) = Number (- 6.4008)"
    "onHogNearCross (cfg demoEngine)" "onHogSplit (cfg demoEngine)"
    by (rule demo_cfg_values)+
  have hb: "hogTiming (stones demoEngine ! 1) = \<lparr>nearCrossedAt = None, farCrossedAt = None\<rparr>"
    by (rule sheetWith_fields)
  have p2: "hogTiming (fst (checkHogLineCrossings (crossedStone (- 6.4) 16) (- 6.45)
                        (sheetWith (crossedStone (- 6.4) 16) 4)))
       = \<lparr>nearCrossedAt = Some 16, farCrossedAt = Some 64\<rparr>
     \<and> events (snd (checkHogLineCrossings (crossedStone (- 6.4) 16) (- 6.45)
                        (sheetWith (crossedStone (- 6.4) 16) 4)))
       = [HogSplit 48]"
  proof -
    define S where "S = crossedStone (- 6.4) 16"
    define E where "E = sheetWith S 4"
    define s1 where "s1 = fst (checkHogLineCrossings S (- 6.45) E)"
    define e1 where "e1 = snd (checkHogLineCrossings S (- 6.45) E)"
    have h: "checkHogLineCrossings S (- 6.45) E = (s1, e1)" by (simp add: s1_def e1_def)
    have fS: "nearCrossedAt (hogTiming S) = Some 16" "farCrossedAt (hogTiming S) = None"
      "py (position S) = - 6.4"
      by (simp_all add: S_def crossedStone_fields)
    have fE: "cfg E = cfg demoEngine" "clock E = demoClock" "clockReads E = 4" "events E = []"
      by (simp_all add: E_def sheetWith_fields)
    note r = hog_line_timing[where s = S and previousY = "- 6.45" and e = E and ?s1.0 = s1 and ?e1.0 = e1,
               THEN conjunct2, THEN conjunct1, rule_format, OF h]
    have n1: "nearCrossedAt (hogTiming s1) = Some 16" using r[THEN conjunct1] by (simp add: fS)
    have nn: "\<not> newNear S s1" by (simp add: newNear_def fS)
    have f1: "farCrossedAt (hogTiming s1) = Some 64"
      using r[THEN conjunct2, THEN conjunct1]
      by (simp add: n1 nn fS fE lines crossesHog_def crossesLine_def demoClock_def)
    have nf: "newFar S s1" by (simp add: newFar_def fS f1)
    have ev: "events e1 = [HogSplit 48]"
      using r[THEN conjunct2, THEN conjunct2] by (simp add: nn nf fE lines splitTime_def n1 f1)
    from timing_eq[OF n1 f1] ev show ?thesis
      unfolding s1_def e1_def E_def S_def by simp
  qed
  have p3: "\<exists>s' e' e''. stepStone 0.03 (rotationActivationY (cfg demoEngine)) (slidingStone (- 28.4))
                  (sheetWith (slidingStone (- 28.4)) 0, False) = Some (s', e', True)
          \<and> position s' = \<lparr>px = 0, py = - 28.34003336\<rparr>
          \<and> hogTiming s' = \<lparr>nearCrossedAt = Some 0, farCrossedAt = None\<rparr>
          \<and> nearCrossings e' = 1 \<and> hogSplits e' = []
          \<and> step 0.03 (sheetWith (slidingStone (- 28.4)) 0) = Some e''
          \<and> hogTiming (stones e'' ! 0) = \<lparr>nearCrossedAt = Some 0, farCrossedAt = None\<rparr>
          \<and> nearCrossings e'' = 1 \<and> hogSplits e'' = []"
  proof -
    define S where "S = slidingStone (- 28.4)"
    define E where "E = sheetWith S 0"
    define A where "A = rotationActivationY (cfg demoEngine)"
    define M where "M = fst (glide (cfg E) 0.03 (spinDecay (cfg E) S 0.03))"
    have fS: "nearCrossedAt (hogTiming S) = None" "farCrossedAt (hogTiming S) = None"
      "position S = \<lparr>px = 0, py = - 28.4\<rparr>" "velocity S = \<lparr>vx = 0, vy = 2\<rparr>" "isLaunched S"
      "rotationRate S = 0" "angle S = 0" "pathSampleTimer S = 0"
      by (simp_all add: S_def slidingStone_fields slidingStone_angle)
    have fE: "cfg E = cfg demoEngine" "clock E = demoClock" "clockReads E = 0" "events E = []"
      "stones E = [S, stones demoEngine ! 1]"
      by (simp_all add: E_def sheetWith_fields)
    have dv: "hypot (vx (velocity S)) (vy (velocity S)) + frictionLowSpeedEps (cfg E) \<noteq> 0"
      by (simp add: fS fE hypot_zero_left demo_friction)
    have "\<exists>s' e'. stepStone 0.03 A S (E, False) = Some (s', e', True)
        \<and> isLaunched s' \<and> position s' = \<lparr>px = 0, py = - 28.4 + 0.05996664\<rparr>"
      by (rule gliding_step[of E "- 28.4" "0.03" S A False]) (auto simp: fE fS)
    then obtain s' e' where st: "stepStone 0.03 A S (E, False) = Some (s', e', True)"
      and p0: "position s' = \<lparr>px = 0, py = - 28.4 + 0.05996664\<rparr>"
      by blast
    have p': "position s' = \<lparr>px = 0, py = - 28.34003336\<rparr>" using p0 by simp
    have mv0: "position M = \<lparr>px = 0, py = - 28.4 + 0.05996664\<rparr>"
      unfolding M_def by (rule gliding_moved[OF fE(1) refl fS(3,4,6,7)])
    have mv: "position M = \<lparr>px = 0, py = - 28.34003336\<rparr>" using mv0 by simp
    have inb: "\<not> isOutOfBounds (cfg demoEngine) M" by (simp add: demo_bounds mv)
    note r = hog_line_timing[where s = S and e = E and deltaSeconds = "0.03" and activationY = A
               and anyMoving = False and s' = s' and e' = e' and anyMoving' = True,
               THEN conjunct2, THEN conjunct2, THEN conjunct1, rule_format, OF conjI[OF fS(5) conjI[OF dv st]],
               unfolded Let_def, folded M_def]
    have n1: "nearCrossedAt (hogTiming s') = Some 0"
      using r[THEN conjunct1, THEN conjunct1]
      by (simp add: fS fE mv inb lines crossesHog_def crossesLine_def demoClock_def hypot_zero_left
            SPEED_EPSILON_def)
    have nn: "newNear S s' = True" by (simp add: newNear_def fS n1)
    have f1: "farCrossedAt (hogTiming s') = None"
      using r[THEN conjunct1, THEN conjunct2]
      by (simp add: n1 nn fS fE mv inb lines crossesHog_def crossesLine_def demoClock_def
            hypot_zero_left SPEED_EPSILON_def)
    note t' = timing_eq[OF n1 f1]
    have d1: "nearCrossings e' = 1"
      using r[THEN conjunct2, THEN conjunct1]
      by (simp add: nearCrossings_def fE lines nn)
    have d2: "hogSplits e' = []"
      using r[THEN conjunct2, THEN conjunct2]
      by (simp add: hogSplits_def fE lines newFar_def splitTime_def fS n1 f1)
    from sheet_step[OF st[unfolded E_def A_def]] obtain e'' x y where
      s: "step 0.03 E = Some e''" and xy: "stones e'' = [x, y]" "hogTiming x = hogTiming s'"
        "hogTiming y = \<lparr>nearCrossedAt = None, farCrossedAt = None\<rparr>"
      unfolding E_def by blast
    note lg = hog_line_timing[where e = E and deltaSeconds = "0.03" and e'' = e'',
               THEN conjunct2, THEN conjunct2, THEN conjunct2, rule_format, OF s]
    have c1: "nearCrossings e'' = 1"
      using lg[THEN conjunct1] unfolding fE xy(1)
      using hb by (simp add: nearCrossings_def fE lines nearFirings_def newNear_def xy t' fS)
    have c2: "hogSplits e'' = []"
      using lg[THEN conjunct2, THEN conjunct1] unfolding fE xy(1)
      using hb by (simp add: hogSplits_def fE lines splitFirings_def newFar_def splitTime_def xy t' fS)
    have t'': "hogTiming (stones e'' ! 0) = \<lparr>nearCrossedAt = Some 0, farCrossedAt = None\<rparr>"
      by (simp add: xy t')
    from st p' t' d1 d2 s t'' c1 c2 show ?thesis unfolding E_def S_def A_def by blast
  qed
  have p4: "\<exists>s' e'. stepStone 0.03 (rotationActivationY (cfg demoEngine)) (driftingStone (- 28.36))
                  (sheetWith (driftingStone (- 28.36)) 0, False) = Some (s', e', False)
          \<and> isOutOfBounds (cfg demoEngine) (fst (glide (cfg demoEngine) 0.03 (spinDecay (cfg demoEngine) (driftingStone (- 28.36)) 0.03)))
          \<and> hogTiming s' = \<lparr>nearCrossedAt = None, farCrossedAt = None\<rparr>
          \<and> nearCrossings e' = 0 \<and> hogSplits e' = []"
  proof -
    define S where "S = driftingStone (- 28.36)"
    define E where "E = sheetWith S 0"
    define A where "A = rotationActivationY (cfg demoEngine)"
    define M where "M = fst (glide (cfg E) 0.03 (spinDecay (cfg E) S 0.03))"
    have fS: "nearCrossedAt (hogTiming S) = None" "farCrossedAt (hogTiming S) = None"
      "position S = \<lparr>px = 2.22, py = - 28.36\<rparr>" "velocity S = \<lparr>vx = 0.6, vy = 0.8\<rparr>" "isLaunched S"
      by (simp_all add: S_def driftingStone_fields)
    have fE: "cfg E = cfg demoEngine" "clock E = demoClock" "clockReads E = 0" "events E = []"
      by (simp_all add: E_def sheetWith_fields)
    have tr: "outTrayLayouts E RED = None"
      unfolding E_def by (rule demo_trays)
    have dv: "hypot (vx (velocity S)) (vy (velocity S)) + frictionLowSpeedEps (cfg E) \<noteq> 0"
      by (simp add: fS fE hypot_345 demo_friction)
    have "\<exists>s' e'. stepStone 0.03 A S (E, False) = Some (s', e', False)"
      unfolding S_def
      by (rule drifting_step[of E "0.03" A "- 28.36" False]) (auto simp: fE tr)
    then obtain s' e' where st: "stepStone 0.03 A S (E, False) = Some (s', e', False)"
      by blast
    have mv0: "position M = \<lparr>px = 2.23797219, py = - 28.36 + 0.02396292\<rparr>"
      unfolding M_def S_def by (rule drifting_moved[OF fE(1) refl])
    have outb: "isOutOfBounds (cfg demoEngine) M" by (simp add: demo_bounds mv0)
    note r = hog_line_timing[where s = S and e = E and deltaSeconds = "0.03" and activationY = A
               and anyMoving = False and s' = s' and e' = e' and anyMoving' = False,
               THEN conjunct2, THEN conjunct2, THEN conjunct1, rule_format, OF conjI[OF fS(5) conjI[OF dv st]],
               unfolded Let_def, folded M_def]
    have n1: "nearCrossedAt (hogTiming s') = None"
      using r[THEN conjunct1, THEN conjunct1] by (simp add: fS fE outb)
    have nn: "newNear S s' = False" by (simp add: newNear_def fS n1)
    have f1: "farCrossedAt (hogTiming s') = None"
      using r[THEN conjunct1, THEN conjunct2] by (simp add: n1 fS fE outb)
    note t' = timing_eq[OF n1 f1]
    have d1: "nearCrossings e' = 0"
      using r[THEN conjunct2, THEN conjunct1]
      by (simp add: nearCrossings_def fE lines nn)
    have d2: "hogSplits e' = []"
      using r[THEN conjunct2, THEN conjunct2]
      by (simp add: hogSplits_def fE lines newFar_def fS f1)
    have o: "isOutOfBounds (cfg demoEngine) (fst (glide (cfg demoEngine) 0.03 (spinDecay (cfg demoEngine) S 0.03)))"
      using outb unfolding M_def fE .
    from st o t' d1 d2 show ?thesis unfolding E_def S_def A_def by blast
  qed
  have p5x: "\<exists>s' e' e''. stepStone 0.03 (rotationActivationY (cfg demoEngine)) (crossedStone (- 6.45) 16)
                  (sheetWith (crossedStone (- 6.45) 16) 4, False) = Some (s', e', True)
          \<and> position s' = \<lparr>px = 0, py = - 6.39003336\<rparr>
          \<and> hogTiming s' = \<lparr>nearCrossedAt = Some 16, farCrossedAt = Some 64\<rparr>
          \<and> nearCrossings e' = 0 \<and> hogSplits e' = [48]
          \<and> step 0.03 (sheetWith (crossedStone (- 6.45) 16) 4) = Some e''
          \<and> hogTiming (stones e'' ! 0) = \<lparr>nearCrossedAt = Some 16, farCrossedAt = Some 64\<rparr>
          \<and> nearCrossings e'' = 0 \<and> hogSplits e'' = [48]"
  proof -
    define S where "S = crossedStone (- 6.45) 16"
    define E where "E = sheetWith S 4"
    define A where "A = rotationActivationY (cfg demoEngine)"
    define M where "M = fst (glide (cfg E) 0.03 (spinDecay (cfg E) S 0.03))"
    have fS: "nearCrossedAt (hogTiming S) = Some 16" "farCrossedAt (hogTiming S) = None"
      "position S = \<lparr>px = 0, py = - 6.45\<rparr>" "velocity S = \<lparr>vx = 0, vy = 2\<rparr>" "isLaunched S"
      "rotationRate S = 0" "angle S = 0" "pathSampleTimer S = 0"
      by (simp_all add: S_def crossedStone_fields)
    have fE: "cfg E = cfg demoEngine" "clock E = demoClock" "clockReads E = 4" "events E = []"
      "stones E = [S, stones demoEngine ! 1]"
      by (simp_all add: E_def sheetWith_fields)
    have dv: "hypot (vx (velocity S)) (vy (velocity S)) + frictionLowSpeedEps (cfg E) \<noteq> 0"
      by (simp add: fS fE hypot_zero_left demo_friction)
    have "\<exists>s' e'. stepStone 0.03 A S (E, False) = Some (s', e', True)
        \<and> isLaunched s' \<and> position s' = \<lparr>px = 0, py = - 6.45 + 0.05996664\<rparr>"
      by (rule gliding_step[of E "- 6.45" "0.03" S A False]) (auto simp: fE fS)
    then obtain s' e' where st: "stepStone 0.03 A S (E, False) = Some (s', e', True)"
      and p0: "position s' = \<lparr>px = 0, py = - 6.45 + 0.05996664\<rparr>"
      by blast
    have p': "position s' = \<lparr>px = 0, py = - 6.39003336\<rparr>" using p0 by simp
    have mv0: "position M = \<lparr>px = 0, py = - 6.45 + 0.05996664\<rparr>"
      unfolding M_def by (rule gliding_moved[OF fE(1) refl fS(3,4,6,7)])
    have mv: "position M = \<lparr>px = 0, py = - 6.39003336\<rparr>" using mv0 by simp
    have inb: "\<not> isOutOfBounds (cfg demoEngine) M" by (simp add: demo_bounds mv)
    note r = hog_line_timing[where s = S and e = E and deltaSeconds = "0.03" and activationY = A
               and anyMoving = False and s' = s' and e' = e' and anyMoving' = True,
               THEN conjunct2, THEN conjunct2, THEN conjunct1, rule_format, OF conjI[OF fS(5) conjI[OF dv st]],
               unfolded Let_def, folded M_def]
    have n1: "nearCrossedAt (hogTiming s') = Some 16"
      using r[THEN conjunct1, THEN conjunct1]
      by (simp add: fS fE mv inb lines crossesHog_def crossesLine_def demoClock_def hypot_zero_left
            SPEED_EPSILON_def)
    have nn: "newNear S s' = False" by (simp add: newNear_def fS n1)
    have f1: "farCrossedAt (hogTiming s') = Some 64"
      using r[THEN conjunct1, THEN conjunct2]
      by (simp add: n1 nn fS fE mv inb lines crossesHog_def crossesLine_def demoClock_def
            hypot_zero_left SPEED_EPSILON_def)
    note t' = timing_eq[OF n1 f1]
    have d1: "nearCrossings e' = 0"
      using r[THEN conjunct2, THEN conjunct1]
      by (simp add: nearCrossings_def fE lines nn)
    have d2: "hogSplits e' = [48]"
      using r[THEN conjunct2, THEN conjunct2]
      by (simp add: hogSplits_def fE lines newFar_def splitTime_def fS n1 f1)
    from sheet_step[OF st[unfolded E_def A_def]] obtain e'' x y where
      s: "step 0.03 E = Some e''" and xy: "stones e'' = [x, y]" "hogTiming x = hogTiming s'"
        "hogTiming y = \<lparr>nearCrossedAt = None, farCrossedAt = None\<rparr>"
      unfolding E_def by blast
    note lg = hog_line_timing[where e = E and deltaSeconds = "0.03" and e'' = e'',
               THEN conjunct2, THEN conjunct2, THEN conjunct2, rule_format, OF s]
    have c1: "nearCrossings e'' = 0"
      using lg[THEN conjunct1] unfolding fE xy(1)
      using hb by (simp add: nearCrossings_def fE lines nearFirings_def newNear_def xy t' fS)
    have c2: "hogSplits e'' = [48]"
      using lg[THEN conjunct2, THEN conjunct1] unfolding fE xy(1)
      using hb by (simp add: hogSplits_def fE lines splitFirings_def newFar_def splitTime_def xy t' fS)
    have t'': "hogTiming (stones e'' ! 0) = \<lparr>nearCrossedAt = Some 16, farCrossedAt = Some 64\<rparr>"
      by (simp add: xy t')
    from st p' t' d1 d2 s t'' c1 c2 show ?thesis unfolding E_def S_def A_def by blast
  qed
  from p5x have p5: "\<exists>e''. step 0.03 (sheetWith (crossedStone (- 6.45) 16) 4) = Some e''
          \<and> hogTiming (stones e'' ! 0) = \<lparr>nearCrossedAt = Some 16, farCrossedAt = Some 64\<rparr>
          \<and> nearCrossings e'' = 0 \<and> hogSplits e'' = [48]"
    by blast
  from p3 have p3a: "\<exists>s' e'. stepStone 0.03 (rotationActivationY (cfg demoEngine)) (slidingStone (- 28.4))
                  (sheetWith (slidingStone (- 28.4)) 0, False) = Some (s', e', True)
          \<and> position s' = \<lparr>px = 0, py = - 28.34003336\<rparr>
          \<and> hogTiming s' = \<lparr>nearCrossedAt = Some 0, farCrossedAt = None\<rparr>
          \<and> nearCrossings e' = 1 \<and> hogSplits e' = []"
    by blast
  from p3 have p3b: "\<exists>e''. step 0.03 (sheetWith (slidingStone (- 28.4)) 0) = Some e''
          \<and> hogTiming (stones e'' ! 0) = \<lparr>nearCrossedAt = Some 0, farCrossedAt = None\<rparr>
          \<and> nearCrossings e'' = 1 \<and> hogSplits e'' = []"
    by blast
  from p1 p2[THEN conjunct1] p2[THEN conjunct2] p3a p4 p3b p5 show ?thesis
    by (intro conjI) assumption+
qed

subsection \<open>C10: speeds after a step\<close>

text \<open>
  C10. The integration of a launched stone leaves it with a velocity of exactly \<open>(0, 0)\<close> or with
  a speed above the speed epsilon, for a step of any duration; a stone that enters the step no
  faster than the epsilon leaves it with the velocity \<open>(0, 0)\<close>. After a \<^const>\<open>step\<close> of the
  engine the same holds of every stone that was launched and that the collision resolver did not
  find in contact with another stone in that step: the resolver leaves such a stone as the
  integration left it. The resolver finds a pair in contact only when both stones are launched and
  not out and their centres are less than two radii apart or coincide (with a positive radius the
  second is a case of the first), at the moment its loops reach the pair.
\<close>

theorem speeds_snapped:
  "(isLaunched s \<and> stepStone deltaSeconds activationY s (e, anyMoving) = Some (s', e', anyMoving') \<longrightarrow>
      (velocity s' = \<lparr>vx = 0, vy = 0\<rparr>
         \<or> SPEED_EPSILON < hypot (vx (velocity s')) (vy (velocity s')))
      \<and> (hypot (vx (velocity s)) (vy (velocity s)) \<le> SPEED_EPSILON \<longrightarrow>
            velocity s' = \<lparr>vx = 0, vy = 0\<rparr>))
   \<and> (step deltaSeconds e = Some e'' \<longrightarrow>
        length (stones e'') = length (stones e)
        \<and> (\<forall>k < length (stones e).
              isLaunched (stones e ! k) \<and> k \<notin> set (touched deltaSeconds e) \<longrightarrow>
              velocity (stones e'' ! k) = \<lparr>vx = 0, vy = 0\<rparr>
              \<or> SPEED_EPSILON < hypot (vx (velocity (stones e'' ! k))) (vy (velocity (stones e'' ! k)))))
   \<and> (k < length ss \<and> k \<notin> set (touchedBy c deltaSeconds ss) \<longrightarrow>
        fst (resolveCollisions c deltaSeconds ss) ! k = ss ! k)
   \<and> ((resolvePair c radius deltaSeconds a b = None)
        = (radius * 2 \<le> hypot (px (position b) - px (position a)) (py (position b) - py (position a))
           \<and> 0 < hypot (px (position b) - px (position a)) (py (position b) - py (position a))))
   \<and> (hitAt c radius deltaSeconds i j ss \<noteq> [] \<longrightarrow>
        hitAt c radius deltaSeconds i j ss = [i, j] \<and> isLaunched (ss ! j) \<and> \<not> isOut (ss ! j)
        \<and> (hypot (px (position (ss ! j)) - px (position (ss ! i)))
                  (py (position (ss ! j)) - py (position (ss ! i))) < radius * 2
            \<or> hypot (px (position (ss ! j)) - px (position (ss ! i)))
                    (py (position (ss ! j)) - py (position (ss ! i))) = 0))"
proof (intro conjI impI allI)
  assume a: "isLaunched s \<and> stepStone deltaSeconds activationY s (e, anyMoving) = Some (s', e', anyMoving')"
  then have st: "stepStone deltaSeconds activationY s (e, anyMoving) = Some (s', e', anyMoving')"
    and l: "isLaunched s" by simp_all
  from stepStone_snapped[OF st l]
  show "velocity s' = \<lparr>vx = 0, vy = 0\<rparr> \<or> SPEED_EPSILON < hypot (vx (velocity s')) (vy (velocity s'))"
    by (simp add: snapped_def)
  {
    assume "hypot (vx (velocity s)) (vy (velocity s)) \<le> SPEED_EPSILON"
    from stepStone_still[OF st l this] show "velocity s' = \<lparr>vx = 0, vy = 0\<rparr>" .
  }
next
  assume st: "step deltaSeconds e = Some e''"
  from step_latched[OF st] show "length (stones e'') = length (stones e)"
    by (simp add: list_all2_lengthD)
  {
    fix k assume k: "k < length (stones e)"
      and h: "isLaunched (stones e ! k) \<and> k \<notin> set (touched deltaSeconds e)"
    from step_snapped[OF st k] h
    show "velocity (stones e'' ! k) = \<lparr>vx = 0, vy = 0\<rparr>
              \<or> SPEED_EPSILON < hypot (vx (velocity (stones e'' ! k))) (vy (velocity (stones e'' ! k)))"
      by (simp add: snapped_def)
  }
next
  assume "k < length ss \<and> k \<notin> set (touchedBy c deltaSeconds ss)"
  then show "fst (resolveCollisions c deltaSeconds ss) ! k = ss ! k"
    using untouched[of k ss c deltaSeconds] by simp
next
  show "(resolvePair c radius deltaSeconds a b = None)
        = (radius * 2 \<le> hypot (px (position b) - px (position a)) (py (position b) - py (position a))
           \<and> 0 < hypot (px (position b) - px (position a)) (py (position b) - py (position a)))"
    by (rule resolvePair_none)
next
  assume h: "hitAt c radius deltaSeconds i j ss \<noteq> []"
  note r = hitAt_range[OF h]
  from r show "hitAt c radius deltaSeconds i j ss = [i, j]" by blast
  from r show "isLaunched (ss ! j)" by blast
  from r show "\<not> isOut (ss ! j)" by blast
  from r show "hypot (px (position (ss ! j)) - px (position (ss ! i)))
                  (py (position (ss ! j)) - py (position (ss ! i))) < radius * 2
            \<or> hypot (px (position (ss ! j)) - px (position (ss ! i)))
                    (py (position (ss ! j)) - py (position (ss ! i))) = 0" by blast
qed

theorem speeds_snapped_witness:
  "(\<exists>s' e'. stepStone 0.03 (rotationActivationY (cfg demoEngine)) (slidingStone (- 28.4))
                  (sheetWith (slidingStone (- 28.4)) 0, False) = Some (s', e', True)
          \<and> velocity s' = \<lparr>vx = 0, vy = 1.997776\<rparr>
          \<and> SPEED_EPSILON < hypot (vx (velocity s')) (vy (velocity s')))
   \<and> isLaunched (stoneAt 0 0 0 0.005)
   \<and> hypot (vx (velocity (stoneAt 0 0 0 0.005))) (vy (velocity (stoneAt 0 0 0 0.005))) = 0.005
   \<and> (\<exists>s' e' m. stepStone 0.03 (rotationActivationY (cfg demoEngine)) (stoneAt 0 0 0 0.005)
                  (demoEngine, False) = Some (s', e', m)
          \<and> velocity s' = \<lparr>vx = 0, vy = 0\<rparr>)
   \<and> isLaunched (stones (sheetWith (slidingStone (- 28.4)) 0) ! 0)
   \<and> touched 0.03 (sheetWith (slidingStone (- 28.4)) 0) = []
   \<and> (\<exists>e''. step 0.03 (sheetWith (slidingStone (- 28.4)) 0) = Some e''
          \<and> length (stones e'') = 2
          \<and> (velocity (stones e'' ! 0) = \<lparr>vx = 0, vy = 0\<rparr>
              \<or> SPEED_EPSILON < hypot (vx (velocity (stones e'' ! 0))) (vy (velocity (stones e'' ! 0)))))
   \<and> resolvePair (cfg demoEngine) 0.14605 0.03 (stoneAt 0 0 0 0) (stoneAt 1 0 0 0) = None
   \<and> resolvePair (cfg demoEngine) 0.14605 0.03 (stoneAt 0 0 0 0) (stoneAt 0.2 0 0 0) \<noteq> None
   \<and> hitAt (cfg demoEngine) 0.14605 0.03 0 1 [stoneAt 0 0 0 0, stoneAt 0.2 0 0 0] = [0, 1]"
proof -
  define S where "S = slidingStone (- 28.4)"
  define E where "E = sheetWith S 0"
  define A where "A = rotationActivationY (cfg demoEngine)"
  have fS: "isLaunched S" by (simp add: S_def slidingStone_fields)
  have fE: "cfg E = cfg demoEngine" "stones E = [S, stones demoEngine ! 1]"
    by (simp_all add: E_def sheetWith_fields)
  have "\<exists>s' e'. stepStone 0.03 A S (E, False) = Some (s', e', True)
        \<and> velocity s' = \<lparr>vx = 0, vy = 1.997776\<rparr>"
    unfolding S_def
    by (rule slidingStone_moved[of E "- 28.4" "0.03" A False]) (auto simp: fE)
  then obtain s' e' where st: "stepStone 0.03 A S (E, False) = Some (s', e', True)"
    and v': "velocity s' = \<lparr>vx = 0, vy = 1.997776\<rparr>"
    by auto
  from speeds_snapped[of S "0.03" A E False s' e' True] fS st
  have "velocity s' = \<lparr>vx = 0, vy = 0\<rparr> \<or> SPEED_EPSILON < hypot (vx (velocity s')) (vy (velocity s'))"
    by blast
  with v' have "SPEED_EPSILON < hypot (vx (velocity s')) (vy (velocity s'))" by simp
  with st v' have p1: "\<exists>s' e'. stepStone 0.03 A S (E, False) = Some (s', e', True)
          \<and> velocity s' = \<lparr>vx = 0, vy = 1.997776\<rparr>
          \<and> SPEED_EPSILON < hypot (vx (velocity s')) (vy (velocity s'))" by blast
  define slow where "slow = stoneAt 0 0 0 0.005"
  have fs: "isLaunched slow" "hypot (vx (velocity slow)) (vy (velocity slow)) = 0.005"
    by (simp_all add: slow_def stoneAt_fields hypot_zero_left)
  have "0 < pathSampleInterval (cfg demoEngine)" by (simp add: demo_friction)
  from stepStone_total[OF this, of "0.03" A slow False]
  obtain t f m where sl: "stepStone 0.03 A slow (demoEngine, False) = Some (t, f, m)"
    by (metis prod_cases3)
  from speeds_snapped[of slow "0.03" A demoEngine False t f m] fs sl
  have "velocity t = \<lparr>vx = 0, vy = 0\<rparr>" by (simp add: SPEED_EPSILON_def)
  with sl have p2: "\<exists>s' e' m. stepStone 0.03 A slow (demoEngine, False) = Some (s', e', m)
          \<and> velocity s' = \<lparr>vx = 0, vy = 0\<rparr>" by blast
  have tc: "touched 0.03 E = []" unfolding E_def by (rule sheet_touched[OF st[unfolded E_def A_def]])
  from sheet_step[OF st[unfolded E_def A_def]] obtain e'' x y where
    s: "step 0.03 E = Some e''" and xy: "stones e'' = [x, y]"
    unfolding E_def by blast
  have l0: "isLaunched (stones E ! 0)" by (simp add: fE fS)
  from speeds_snapped[of _ "0.03" _ E _ _ _ _ e'' 0] s l0 tc
  have "velocity (stones e'' ! 0) = \<lparr>vx = 0, vy = 0\<rparr>
         \<or> SPEED_EPSILON < hypot (vx (velocity (stones e'' ! 0))) (vy (velocity (stones e'' ! 0)))"
    by (simp add: fE)
  with s xy have p3: "\<exists>e''. step 0.03 E = Some e'' \<and> length (stones e'') = 2
          \<and> (velocity (stones e'' ! 0) = \<lparr>vx = 0, vy = 0\<rparr>
              \<or> SPEED_EPSILON < hypot (vx (velocity (stones e'' ! 0))) (vy (velocity (stones e'' ! 0))))"
    by auto
  have p4: "resolvePair (cfg demoEngine) 0.14605 0.03 (stoneAt 0 0 0 0) (stoneAt 1 0 0 0) = None"
    using speeds_snapped[of _ "0.03" _ _ _ _ _ _ _ _ _ "cfg demoEngine" "0.14605" "stoneAt 0 0 0 0" "stoneAt 1 0 0 0"]
    by (simp add: stoneAt_fields hypot_zero_right)
  have p5: "resolvePair (cfg demoEngine) 0.14605 0.03 (stoneAt 0 0 0 0) (stoneAt 0.2 0 0 0) \<noteq> None"
    using speeds_snapped[of _ "0.03" _ _ _ _ _ _ _ _ _ "cfg demoEngine" "0.14605" "stoneAt 0 0 0 0" "stoneAt 0.2 0 0 0"]
    by (simp add: stoneAt_fields hypot_zero_right)
  have "hitAt (cfg demoEngine) 0.14605 0.03 0 1 [stoneAt 0 0 0 0, stoneAt 0.2 0 0 0] \<noteq> []"
    using p5 by (auto simp: hitAt_def stoneAt_fields)
  with speeds_snapped[where c = "cfg demoEngine" and radius = "0.14605" and deltaSeconds = "0.03"
      and i = 0 and j = 1 and ss = "[stoneAt 0 0 0 0, stoneAt 0.2 0 0 0]"]
  have p6: "hitAt (cfg demoEngine) 0.14605 0.03 0 1 [stoneAt 0 0 0 0, stoneAt 0.2 0 0 0] = [0, 1]"
    by blast
  from p1 fs p2 l0 tc p3 p4 p5 p6 show ?thesis
    unfolding S_def E_def A_def slow_def by blast
qed

end
